(* ===== verification/Prelude.thy ===== *)
theory Prelude
  imports Main "HOL-Library.AList" "HOL-Library.Multiset" "HOL-Library.Sublist"
begin

section \<open>Shared vocabulary of the development\<close>

text \<open>
  This theory holds what every component theory uses: the names of the model's base types
  (\<open>bytes\<close>, \<open>time\<close>, \<open>error\<close>, \<open>result\<close>), Go's fixed-width integer conversions, the
  iteration order that Go's \<open>range\<close> over a map leaves open, and the generic list and
  association-list lemmas the component proofs rest on.

  A Go \<open>string\<close> or \<open>[]byte\<close> is a HOL \<open>string\<close>, a list of 8-bit characters. A Go \<open>int\<close> or
  \<open>int64\<close> is an \<open>int\<close>; the places where the code narrows a value write the wrap-around
  out with \<open>to_int32\<close>. An \<open>error\<close> is the text that \<open>err.Error()\<close> returns, because the
  gRPC handlers decide the status code by searching that text. \<open>time\<close> counts nanoseconds
  and \<open>zero_time\<close> is Go's zero \<open>time.Time\<close>.
\<close>

named_theorems order_simps \<open>facts on the order in which a map is iterated\<close>
named_theorems codec_simps \<open>facts on encoding and decoding stored values\<close>
named_theorems store_simps \<open>functional behaviour of the store operations\<close>

type_synonym bytes = string
type_synonym time = int
type_synonym error = string
type_synonym 'a result = "error + 'a"

definition zero_time :: time where
  "zero_time = 0"

definition IsZero :: "time \<Rightarrow> bool" where
  "IsZero t \<longleftrightarrow> t = zero_time"

text \<open>One second, in the unit of \<open>time.Duration\<close>.\<close>

definition Second :: time where
  "Second = 1000000000"


subsection \<open>Fixed-width integers\<close>

definition to_int32 :: "int \<Rightarrow> int" where
  "to_int32 i = (i + 2 ^ 31) mod 2 ^ 32 - 2 ^ 31"

definition in_int32 :: "int \<Rightarrow> bool" where
  "in_int32 i \<longleftrightarrow> - (2 ^ 31) \<le> i \<and> i < 2 ^ 31"

definition in_int64 :: "int \<Rightarrow> bool" where
  "in_int64 i \<longleftrightarrow> - (2 ^ 63) \<le> i \<and> i < 2 ^ 63"

lemma to_int32_id [simp]: "in_int32 i \<Longrightarrow> to_int32 i = i"
  by (simp add: to_int32_def in_int32_def)

lemma to_int32_range: "in_int32 (to_int32 i)"
proof -
  have "0 \<le> (i + 2 ^ 31) mod 2 ^ 32" "(i + 2 ^ 31) mod 2 ^ 32 < (2 ^ 32 :: int)"
    by simp_all
  then show ?thesis by (simp add: to_int32_def in_int32_def)
qed

lemma in_int32_64: "in_int32 i \<Longrightarrow> in_int64 i"
  by (simp add: in_int32_def in_int64_def)

lemma to_int32_idem [simp]: "to_int32 (to_int32 i) = to_int32 i"
  using to_int32_range by simp

lemma to_int32_add: "to_int32 (to_int32 i + j) = to_int32 (i + j)"
proof -
  have "(((i + 2 ^ 31) mod 2 ^ 32 - 2 ^ 31 + j) + 2 ^ 31) mod 2 ^ 32
      = ((i + 2 ^ 31) mod 2 ^ 32 + j) mod (2 ^ 32 :: int)"
    by (simp add: algebra_simps)
  also have "\<dots> = (i + j + 2 ^ 31) mod 2 ^ 32"
    by (simp only: mod_add_left_eq) (simp add: algebra_simps)
  finally show ?thesis by (simp add: to_int32_def)
qed


subsection \<open>Iterating a map\<close>

text \<open>
  \<open>for k := range m\<close> visits the keys of a map in an order the language leaves open. The
  operations that iterate take that order as a parameter \<open>ord\<close>, a function that
  rearranges a list; \<open>is_order ord\<close> says that it only rearranges.
\<close>

definition is_order :: "('a list \<Rightarrow> 'a list) \<Rightarrow> bool" where
  "is_order ord \<longleftrightarrow> (\<forall>xs. mset (ord xs) = mset xs)"

lemma is_order_id [order_simps]: "is_order (\<lambda>xs. xs)" "is_order id" "is_order rev"
  by (simp_all add: is_order_def)

lemma is_order_mset [order_simps]: "is_order ord \<Longrightarrow> mset (ord xs) = mset xs"
  by (simp add: is_order_def)

lemma is_order_set [order_simps]: "is_order ord \<Longrightarrow> set (ord xs) = set xs"
  by (metis is_order_def mset_eq_setD)

lemma is_order_distinct [order_simps]: "is_order ord \<Longrightarrow> distinct (ord xs) = distinct xs"
  by (metis is_order_def mset_eq_imp_distinct_iff)

lemma is_order_length [order_simps]: "is_order ord \<Longrightarrow> length (ord xs) = length xs"
  by (metis is_order_def mset_eq_length)


subsection \<open>Association lists\<close>

lemma map_of_AList_update [store_simps]:
  "map_of (AList.update k v al) k' = (if k' = k then Some v else map_of al k')"
  by (simp add: update_conv')

lemma map_of_AList_delete [store_simps]:
  "map_of (AList.delete k al) k' = (if k' = k then None else map_of al k')"
  by (simp add: delete_conv')

lemma map_of_in_keys: "map_of al k = Some v \<Longrightarrow> k \<in> set (map fst al)"
  by (metis map_of_SomeD list.set_map fst_conv image_eqI)

lemma in_keys_map_of: "k \<in> set (map fst al) \<longleftrightarrow> (\<exists>v. map_of al k = Some v)"
  by (metis map_of_eq_None_iff not_None_eq set_map)


subsection \<open>Lists\<close>

lemma filter_mset_perm: "mset xs = mset ys \<Longrightarrow> mset (filter P xs) = mset (filter P ys)"
  by simp

lemma map_mset_perm: "mset xs = mset ys \<Longrightarrow> mset (map f xs) = mset (map f ys)"
  by simp

text \<open>
  The first element that satisfies a condition, as a loop with an early \<open>return\<close> or
  \<open>break\<close> finds it.
\<close>

lemma find_Some_in: "List.find P xs = Some x \<Longrightarrow> x \<in> set xs \<and> P x"
  by (auto simp: find_Some_iff)

lemma find_None_all: "List.find P xs = None \<longleftrightarrow> (\<forall>x \<in> set xs. \<not> P x)"
  by (auto simp: find_None_iff)

lemma prefix_take: "prefix (take n xs) xs"
  by (metis append_take_drop_id prefixI)

end
