(* ===== verification/Go_Json.thy ===== *)
theory Go_Json
  imports Go_Strings
begin

section \<open>JSON text\<close>

text \<open>
  The text layer of \<open>encoding/json\<close>: the syntax tree of a JSON text (\<open>json\<close>), the compact
  text that \<open>json.Marshal\<close> writes (\<open>json_text\<close>) and the scanner that \<open>json.Unmarshal\<close> runs
  first (\<open>json_scan\<close>). String and number tokens keep their source text, as
  \<open>json.RawMessage\<close> and \<open>json.Compact\<close> do; \<open>Go_Codec\<close> decodes them.

  The scanner recurses with fuel. \<open>json_scan_text\<close> shows that the fuel it is given, one
  more than the length of the text, is enough for every text \<open>json_text\<close> writes;
  \<open>json_scan_prefix\<close> shows that no proper prefix of an object's text is a JSON text, which
  is what a torn write at the end of the log leaves behind.
\<close>

datatype json = JNull | JBool bool | JNum string | JStr string
  | JArr "json list" | JObj "(string \<times> json) list"

abbreviation DQ :: char where "DQ \<equiv> CHR 0x22"
abbreviation BS :: char where "BS \<equiv> CHR 0x5C"
abbreviation NL :: char where "NL \<equiv> CHR 0x0A"

fun json_text :: "json \<Rightarrow> string"
  and elems_text :: "json list \<Rightarrow> string"
  and members_text :: "(string \<times> json) list \<Rightarrow> string" where
  "json_text JNull = ''null''"
| "json_text (JBool b) = (if b then ''true'' else ''false'')"
| "json_text (JNum t) = t"
| "json_text (JStr t) = DQ # t @ [DQ]"
| "json_text (JArr xs) = CHR ''['' # elems_text xs @ '']''"
| "json_text (JObj ms) = CHR ''{'' # members_text ms @ ''}''"
| "elems_text [] = []"
| "elems_text (x # xs) = json_text x @ (if xs = [] then [] else CHR '','' # elems_text xs)"
| "members_text [] = []"
| "members_text ((k, v) # ms) =
     DQ # k @ DQ # CHR '':'' # json_text v @ (if ms = [] then [] else CHR '','' # members_text ms)"


subsection \<open>Tokens\<close>

definition is_ws :: "char \<Rightarrow> bool" where
  "is_ws c \<longleftrightarrow> c = CHR '' '' \<or> c = CHR 0x09 \<or> c = NL \<or> c = CHR 0x0D"

definition skip_ws :: "string \<Rightarrow> string" where
  "skip_ws s = dropWhile is_ws s"

definition is_hex :: "char \<Rightarrow> bool" where
  "is_hex c \<longleftrightarrow> is_digit c \<or> 97 \<le> byte_of c \<and> byte_of c \<le> 102 \<or> 65 \<le> byte_of c \<and> byte_of c \<le> 70"

text \<open>
  A string token is a sequence of units: a plain character, an escape of two characters or
  a \<open>\u\<close> escape of six. \<open>unit_len\<close> is the length of the first unit of a text; a control
  character or an unknown escape is an error.
\<close>

definition unit_len :: "string \<Rightarrow> nat option" where
  "unit_len s =
     (case s of
        [] \<Rightarrow> None
      | c # t \<Rightarrow>
          if c = BS then
            (case t of
               [] \<Rightarrow> None
             | e # u \<Rightarrow>
                 if e = CHR ''u'' then
                   (if 4 \<le> length u \<and> list_all is_hex (take 4 u) then Some 6 else None)
                 else if e \<in> {DQ, BS, CHR ''/'', CHR ''b'', CHR ''f'', CHR ''n'', CHR ''r'', CHR ''t''}
                 then Some 2 else None)
          else if byte_of c < 32 then None
          else Some 1)"

lemma unit_len_cases:
  assumes "unit_len s = Some n"
  obtains (hex) u where "s = BS # CHR ''u'' # u" "4 \<le> length u" "list_all is_hex (take 4 u)" "n = 6"
  | (esc) e u where "s = BS # e # u" "e \<noteq> CHR ''u''" "n = 2" "32 \<le> byte_of e"
      "e \<in> {DQ, BS, CHR ''/'', CHR ''b'', CHR ''f'', CHR ''n'', CHR ''r'', CHR ''t''}"
  | (plain) c t where "s = c # t" "c \<noteq> BS" "32 \<le> byte_of c" "n = 1"
proof (cases s)
  case Nil
  with assms show ?thesis by (simp add: unit_len_def)
next
  case (Cons c t)
  show ?thesis
  proof (cases "c = BS")
    case False
    with assms Cons show ?thesis
      by (intro plain [of c t]) (auto simp: unit_len_def split: if_splits)
  next
    case True
    with assms Cons obtain e u where t: "t = e # u"
      by (cases t) (auto simp: unit_len_def)
    show ?thesis
    proof (cases "e = CHR ''u''")
      case True
      with assms Cons t \<open>c = BS\<close> show ?thesis
        by (intro hex [of u]) (auto simp: unit_len_def split: if_splits)
    next
      case False
      with assms Cons t \<open>c = BS\<close> have e: "n = 2"
        "e \<in> {DQ, BS, CHR ''/'', CHR ''b'', CHR ''f'', CHR ''n'', CHR ''r'', CHR ''t''}"
        by (auto simp: unit_len_def split: if_splits)
      then have "32 \<le> byte_of e" by (auto simp: byte_of_def)
      with e False Cons t \<open>c = BS\<close> show ?thesis by (intro esc [of e u]) auto
    qed
  qed
qed

lemma unit_len_intros:
  "4 \<le> length u \<Longrightarrow> list_all is_hex (take 4 u) \<Longrightarrow> unit_len (BS # CHR ''u'' # u) = Some 6"
  "e \<in> {DQ, BS, CHR ''/'', CHR ''b'', CHR ''f'', CHR ''n'', CHR ''r'', CHR ''t''} \<Longrightarrow>
     unit_len (BS # e # u) = Some 2"
  "c \<noteq> BS \<Longrightarrow> 32 \<le> byte_of c \<Longrightarrow> unit_len (c # t) = Some 1"
  by (auto simp: unit_len_def)

lemma unit_len_bounds: "unit_len s = Some n \<Longrightarrow> 0 < n \<and> n \<le> length s"
  by (elim unit_len_cases) auto

lemma unit_len_extend: "unit_len s = Some n \<Longrightarrow> unit_len (s @ q) = Some n"
  by (elim unit_len_cases) (simp_all add: unit_len_intros)

lemma unit_len_take: "unit_len s = Some n \<Longrightarrow> unit_len (take n s @ q) = Some n"
  by (elim unit_len_cases) (simp_all add: unit_len_intros)

lemma is_hex_no_control: "is_hex c \<Longrightarrow> 32 \<le> byte_of c"
  by (auto simp: is_hex_def is_digit_def)

lemma unit_len_no_control:
  assumes "unit_len s = Some n" and "c \<in> set (take n s)"
  shows "32 \<le> byte_of c"
  using assms(1)
proof (cases rule: unit_len_cases)
  case (hex u)
  with assms(2) show ?thesis
    by (auto simp: list_all_iff is_hex_no_control byte_of_def [of "CHR ''u''"] byte_of_def [of BS])
next
  case (esc e u)
  with assms(2) show ?thesis by (auto simp: byte_of_def [of BS])
next
  case (plain d t)
  with assms(2) show ?thesis by auto
qed

text \<open>
  The rest of a string after its opening quote: the token's text, up to the closing quote,
  and what follows.
\<close>

function scan_str :: "string \<Rightarrow> (string \<times> string) option" where
  "scan_str s =
     (if s = [] then None
      else if hd s = DQ then Some ([], tl s)
      else case unit_len s of
        None \<Rightarrow> None
      | Some n \<Rightarrow> map_option (\<lambda>(k, q). (take n s @ k, q)) (scan_str (drop n s)))"
  by pat_completeness auto
termination
  by (relation "measure length") (auto dest: unit_len_bounds)

declare scan_str.simps [simp del]

definition raw_ok :: "string \<Rightarrow> bool" where
  "raw_ok t \<longleftrightarrow> scan_str (t @ [DQ]) = Some (t, [])"

definition is_numch :: "char \<Rightarrow> bool" where
  "is_numch c \<longleftrightarrow> is_digit c \<or> c \<in> {CHR ''-'', CHR ''+'', CHR ''.'', CHR ''e'', CHR ''E''}"

definition valid_exp :: "string \<Rightarrow> bool" where
  "valid_exp s =
     (case s of
        [] \<Rightarrow> True
      | c # t \<Rightarrow>
          (c = CHR ''e'' \<or> c = CHR ''E'') \<and>
          (let u = (case t of [] \<Rightarrow> [] | d # v \<Rightarrow> if d = CHR ''+'' \<or> d = CHR ''-'' then v else t)
           in u \<noteq> [] \<and> list_all is_digit u))"

definition valid_frac :: "string \<Rightarrow> bool" where
  "valid_frac s =
     (case s of
        [] \<Rightarrow> True
      | c # t \<Rightarrow>
          if c = CHR ''.'' then t \<noteq> [] \<and> is_digit (hd t) \<and> valid_exp (dropWhile is_digit t)
          else valid_exp s)"

definition valid_num :: "string \<Rightarrow> bool" where
  "valid_num s =
     (case (case s of [] \<Rightarrow> [] | c # t \<Rightarrow> if c = CHR ''-'' then t else s) of
        [] \<Rightarrow> False
      | c # t \<Rightarrow> if c = CHR ''0'' then valid_frac t
                else is_digit c \<and> valid_frac (dropWhile is_digit t))"


subsection \<open>Values\<close>

fun parse_value :: "nat \<Rightarrow> string \<Rightarrow> (json \<times> string) option"
  and parse_elems :: "nat \<Rightarrow> string \<Rightarrow> (json list \<times> string) option"
  and parse_members :: "nat \<Rightarrow> string \<Rightarrow> ((string \<times> json) list \<times> string) option" where
  "parse_value 0 s = None"
| "parse_value (Suc n) s =
     (case skip_ws s of
        [] \<Rightarrow> None
      | c # t \<Rightarrow>
          if c = CHR ''n'' then (if HasPrefix t ''ull'' then Some (JNull, drop 3 t) else None)
          else if c = CHR ''t'' then (if HasPrefix t ''rue'' then Some (JBool True, drop 3 t) else None)
          else if c = CHR ''f'' then (if HasPrefix t ''alse'' then Some (JBool False, drop 4 t) else None)
          else if c = DQ then map_option (\<lambda>(k, r). (JStr k, r)) (scan_str t)
          else if c = CHR ''['' then
            (case skip_ws t of
               [] \<Rightarrow> None
             | d # u \<Rightarrow> if d = CHR '']'' then Some (JArr [], u)
                       else map_option (\<lambda>(xs, r). (JArr xs, r)) (parse_elems n t))
          else if c = CHR ''{'' then
            (case skip_ws t of
               [] \<Rightarrow> None
             | d # u \<Rightarrow> if d = CHR ''}'' then Some (JObj [], u)
                       else map_option (\<lambda>(ms, r). (JObj ms, r)) (parse_members n t))
          else if valid_num (takeWhile is_numch (c # t))
          then Some (JNum (takeWhile is_numch (c # t)), dropWhile is_numch (c # t))
          else None)"
| "parse_elems 0 s = None"
| "parse_elems (Suc n) s =
     (case parse_value n s of
        None \<Rightarrow> None
      | Some (x, r) \<Rightarrow>
          (case skip_ws r of
             [] \<Rightarrow> None
           | d # u \<Rightarrow>
               if d = CHR '','' then map_option (\<lambda>(xs, q). (x # xs, q)) (parse_elems n u)
               else if d = CHR '']'' then Some ([x], u)
               else None))"
| "parse_members 0 s = None"
| "parse_members (Suc n) s =
     (case skip_ws s of
        [] \<Rightarrow> None
      | c # t \<Rightarrow>
          if c \<noteq> DQ then None
          else case scan_str t of
            None \<Rightarrow> None
          | Some (k, r) \<Rightarrow>
              (case skip_ws r of
                 [] \<Rightarrow> None
               | d # u \<Rightarrow>
                   if d \<noteq> CHR '':'' then None
                   else case parse_value n u of
                     None \<Rightarrow> None
                   | Some (v, q) \<Rightarrow>
                       (case skip_ws q of
                          [] \<Rightarrow> None
                        | e # w \<Rightarrow>
                            if e = CHR '','' then map_option (\<lambda>(ms, z). ((k, v) # ms, z)) (parse_members n w)
                            else if e = CHR ''}'' then Some ([(k, v)], w)
                            else None)))"

definition json_scan :: "string \<Rightarrow> json option" where
  "json_scan s =
     (case parse_value (Suc (length s)) s of
        None \<Rightarrow> None
      | Some (j, r) \<Rightarrow> if skip_ws r = [] then Some j else None)"

text \<open>The trees \<open>json_text\<close> is applied to: every token is one the scanner accepts.\<close>

fun wf_json :: "json \<Rightarrow> bool" where
  "wf_json (JNum t) \<longleftrightarrow> valid_num t \<and> list_all is_numch t"
| "wf_json (JStr t) \<longleftrightarrow> raw_ok t"
| "wf_json (JArr xs) \<longleftrightarrow> list_all wf_json xs"
| "wf_json (JObj ms) \<longleftrightarrow> list_all (\<lambda>(k, v). raw_ok k \<and> wf_json v) ms"
| "wf_json _ \<longleftrightarrow> True"


subsection \<open>The scanner reads what the printer writes\<close>

lemma scan_str_simps:
  "scan_str [] = None"
  "scan_str (DQ # s) = Some ([], s)"
  "c \<noteq> DQ \<Longrightarrow> unit_len (c # s) = Some n \<Longrightarrow>
     scan_str (c # s) = map_option (\<lambda>(k, q). (take n (c # s) @ k, q)) (scan_str (drop n (c # s)))"
  by (simp_all add: scan_str.simps [of "[]"] scan_str.simps [of "_ # _"])

lemma scan_str_cases:
  assumes "scan_str s = Some (k, r)"
  obtains (quote) "s = DQ # r" "k = []"
  | (unit) n k' where "s \<noteq> []" "hd s \<noteq> DQ" "unit_len s = Some n" "scan_str (drop n s) = Some (k', r)"
      "k = take n s @ k'"
  using assms by (subst (asm) scan_str.simps) (cases s; auto split: if_splits option.splits)

lemma scan_str_extend: "scan_str s = Some (k, r) \<Longrightarrow> scan_str (s @ q) = Some (k, r @ q)"
proof (induction s arbitrary: k rule: scan_str.induct)
  case (1 s)
  from "1.prems" show ?case
  proof (cases rule: scan_str_cases)
    case quote
    then show ?thesis by (simp add: scan_str_simps)
  next
    case (unit n k')
    then have "scan_str (drop n s @ q) = Some (k', r @ q)" using "1.IH" by auto
    with unit unit_len_bounds [OF unit(3)] unit_len_extend [OF unit(3), of q] show ?thesis
      by (subst scan_str.simps) simp
  qed
qed

lemma scan_str_no_control: "scan_str s = Some (k, r) \<Longrightarrow> c \<in> set k \<Longrightarrow> 32 \<le> byte_of c"
proof (induction s arbitrary: k rule: scan_str.induct)
  case (1 s)
  from "1.prems"(1) show ?case
    by (cases rule: scan_str_cases) (use "1" unit_len_no_control in auto)
qed

lemma scan_str_raw_ok: "scan_str s = Some (k, r) \<Longrightarrow> raw_ok k"
proof (induction s arbitrary: k rule: scan_str.induct)
  case (1 s)
  from "1.prems" show ?case
  proof (cases rule: scan_str_cases)
    case quote
    then show ?thesis by (simp add: raw_ok_def scan_str_simps)
  next
    case (unit n k')
    then have "scan_str (k' @ [DQ]) = Some (k', [])" using "1.IH" by (auto simp: raw_ok_def)
    with unit unit_len_bounds [OF unit(3)] unit_len_take [OF unit(3), of "k' @ [DQ]"] show ?thesis
      unfolding raw_ok_def by (subst scan_str.simps) (auto simp: hd_append)
  qed
qed

lemma raw_ok_scan: "raw_ok t \<Longrightarrow> scan_str (t @ DQ # r) = Some (t, r)"
  using scan_str_extend [of "t @ [DQ]" t "[]" r] by (simp add: raw_ok_def)

lemma raw_ok_no_NL: "raw_ok t \<Longrightarrow> NL \<notin> set t"
  using scan_str_no_control [of "t @ [DQ]" t "[]" NL] by (auto simp: raw_ok_def byte_of_def)

lemma skip_ws_Cons: "\<not> is_ws c \<Longrightarrow> skip_ws (c # s) = c # s"
  by (simp add: skip_ws_def)

lemma is_ws_lits [simp]:
  "\<not> is_ws DQ" "\<not> is_ws CHR ''n''" "\<not> is_ws CHR ''t''" "\<not> is_ws CHR ''f''" "\<not> is_ws CHR ''[''"
  "\<not> is_ws CHR '']''" "\<not> is_ws CHR ''{''" "\<not> is_ws CHR ''}''" "\<not> is_ws CHR '',''" "\<not> is_ws CHR '':''"
  by (simp_all add: is_ws_def)

lemma is_numch_lits [simp]:
  "\<not> is_numch DQ" "\<not> is_numch CHR ''n''" "\<not> is_numch CHR ''t''" "\<not> is_numch CHR ''f''"
  "\<not> is_numch CHR ''[''" "\<not> is_numch CHR '']''" "\<not> is_numch CHR ''{''" "\<not> is_numch CHR ''}''"
  "\<not> is_numch CHR '',''" "\<not> is_numch CHR '':''" "\<not> is_numch NL"
  by (simp_all add: is_numch_def is_digit_def byte_of_def)

lemma is_numch_not_ws: "is_numch c \<Longrightarrow> \<not> is_ws c"
  by (auto simp: is_numch_def is_ws_def is_digit_def byte_of_def)

definition delim :: "string \<Rightarrow> bool" where
  "delim s \<longleftrightarrow> (case s of [] \<Rightarrow> True | c # _ \<Rightarrow> \<not> is_numch c)"

lemma delim_simps [simp]: "delim []" "delim (c # s) \<longleftrightarrow> \<not> is_numch c"
  by (simp_all add: delim_def)

lemma numch_span:
  assumes "list_all is_numch t" and "delim r"
  shows "takeWhile is_numch (t @ r) = t" and "dropWhile is_numch (t @ r) = r"
proof -
  have "takeWhile is_numch r = []" "dropWhile is_numch r = r"
    using assms(2) by (cases r; simp)+
  with assms(1) show "takeWhile is_numch (t @ r) = t" and "dropWhile is_numch (t @ r) = r"
    by (simp_all add: list_all_iff)
qed

lemma valid_num_ne: "valid_num t \<Longrightarrow> t \<noteq> []"
  by (auto simp: valid_num_def)

fun jfuel :: "json \<Rightarrow> nat"
  and efuel :: "json list \<Rightarrow> nat"
  and mfuel :: "(string \<times> json) list \<Rightarrow> nat" where
  "jfuel (JArr xs) = Suc (efuel xs)"
| "jfuel (JObj ms) = Suc (mfuel ms)"
| "jfuel _ = 1"
| "efuel [] = 0"
| "efuel (x # xs) = Suc (max (jfuel x) (efuel xs))"
| "mfuel [] = 0"
| "mfuel ((k, v) # ms) = Suc (max (jfuel v) (mfuel ms))"

lemma json_text_head:
  assumes "wf_json j"
  shows "\<exists>c t. json_text j = c # t \<and> \<not> is_ws c \<and> c \<noteq> CHR '']''"
proof (cases j)
  case (JNum t)
  with assms obtain c u where "t = c # u" "is_numch c"
    by (cases t) (auto dest: valid_num_ne)
  with JNum show ?thesis by (auto dest: is_numch_not_ws)
qed auto

lemma parse_value_JNum:
  assumes "valid_num t" "list_all is_numch t" "delim r"
  shows "parse_value (Suc n) (t @ r) = Some (JNum t, r)"
proof -
  obtain c u where t: "t = c # u" and c: "is_numch c"
    using assms(1,2) by (cases t) (auto dest: valid_num_ne)
  have ws: "skip_ws (t @ r) = c # (u @ r)"
    using t c by (simp add: skip_ws_Cons is_numch_not_ws)
  have "c \<noteq> CHR ''n'' \<and> c \<noteq> CHR ''t'' \<and> c \<noteq> CHR ''f'' \<and> c \<noteq> DQ \<and> c \<noteq> CHR ''['' \<and> c \<noteq> CHR ''{''"
    using c by auto
  moreover have "takeWhile is_numch (c # u @ r) = t" "dropWhile is_numch (c # u @ r) = r"
    using numch_span [OF assms(2,3)] t by simp_all
  ultimately show ?thesis using ws assms(1) by simp
qed

lemma parse_text:
  "wf_json j \<Longrightarrow> jfuel j \<le> n \<Longrightarrow> delim r \<Longrightarrow> parse_value n (json_text j @ r) = Some (j, r)"
  "list_all wf_json xs \<Longrightarrow> xs \<noteq> [] \<Longrightarrow> efuel xs \<le> n \<Longrightarrow>
     parse_elems n (elems_text xs @ CHR '']'' # r) = Some (xs, r)"
  "list_all (\<lambda>(k, v). raw_ok k \<and> wf_json v) ms \<Longrightarrow> ms \<noteq> [] \<Longrightarrow> mfuel ms \<le> n \<Longrightarrow>
     parse_members n (members_text ms @ CHR ''}'' # r) = Some (ms, r)"
proof (induction j and xs and ms arbitrary: n r and n r and n r
    rule: json_text_elems_text_members_text.induct)
  case 1
  then show ?case by (cases n) (auto simp: skip_ws_Cons HasPrefix_def)
next
  case (2 b)
  then show ?case by (cases n) (auto simp: skip_ws_Cons HasPrefix_def)
next
  case (3 t)
  then show ?case by (cases n) (auto intro: parse_value_JNum simp del: parse_value.simps)
next
  case (4 t)
  then show ?case by (cases n) (auto simp: skip_ws_Cons raw_ok_scan)
next
  case (5 xs)
  from "5.prems" obtain m where n: "n = Suc m" "efuel xs \<le> m" by (cases n) auto
  show ?case
  proof (cases xs)
    case Nil
    with n show ?thesis by (simp add: skip_ws_Cons)
  next
    case (Cons x ys)
    with "5.prems" obtain c t where c: "json_text x = c # t" "\<not> is_ws c" "c \<noteq> CHR '']''"
      using json_text_head [of x] by auto
    with Cons have "\<exists>u. skip_ws (elems_text xs @ CHR '']'' # r) = c # u"
      by (simp add: skip_ws_Cons)
    moreover have "parse_elems m (elems_text xs @ CHR '']'' # r) = Some (xs, r)"
      using "5.IH" "5.prems" n Cons by simp
    ultimately show ?thesis using n c by (auto simp: skip_ws_Cons)
  qed
next
  case (6 ms)
  from "6.prems" obtain m where n: "n = Suc m" "mfuel ms \<le> m" by (cases n) auto
  show ?case
  proof (cases ms)
    case Nil
    with n show ?thesis by (simp add: skip_ws_Cons)
  next
    case (Cons x ys)
    then have "\<exists>u. skip_ws (members_text ms @ CHR ''}'' # r) = DQ # u"
      by (cases x) (simp add: skip_ws_Cons)
    moreover have "parse_members m (members_text ms @ CHR ''}'' # r) = Some (ms, r)"
      using "6.IH" "6.prems" n Cons by simp
    ultimately show ?thesis using n by (auto simp: skip_ws_Cons)
  qed
next
  case 7
  then show ?case by simp
next
  case (8 x xs)
  from "8.prems" obtain m where n: "n = Suc m" "jfuel x \<le> m" "efuel xs \<le> m" by (cases n) auto
  show ?case
  proof (cases "xs = []")
    case True
    with "8.IH"(1) [of m "CHR '']'' # r"] "8.prems" n show ?thesis by (simp add: skip_ws_Cons)
  next
    case False
    with "8.IH"(1) [of m "CHR '','' # elems_text xs @ CHR '']'' # r"] "8.IH"(2) "8.prems" n
    show ?thesis by (simp add: skip_ws_Cons)
  qed
next
  case 9
  then show ?case by simp
next
  case (10 k v ms)
  from "10.prems" obtain m where n: "n = Suc m" "jfuel v \<le> m" "mfuel ms \<le> m" by (cases n) auto
  show ?case
  proof (cases "ms = []")
    case True
    with "10.IH"(1) [of m "CHR ''}'' # r"] "10.prems" n show ?thesis
      by (simp add: skip_ws_Cons raw_ok_scan)
  next
    case False
    with "10.IH"(1) [of m "CHR '','' # members_text ms @ CHR ''}'' # r"] "10.IH"(2) "10.prems" n
    show ?thesis by (simp add: skip_ws_Cons raw_ok_scan)
  qed
qed

lemma jfuel_text:
  "wf_json j \<Longrightarrow> jfuel j \<le> length (json_text j)"
  "list_all wf_json xs \<Longrightarrow> efuel xs \<le> Suc (length (elems_text xs))"
  "list_all (\<lambda>(k, v). raw_ok k \<and> wf_json v) ms \<Longrightarrow> mfuel ms \<le> Suc (length (members_text ms))"
  by (induction j and xs and ms rule: json_text_elems_text_members_text.induct)
     (auto dest: valid_num_ne simp: Suc_le_eq)

theorem json_scan_text: "wf_json j \<Longrightarrow> json_scan (json_text j) = Some j"
  using parse_text(1) [of j "Suc (length (json_text j))" "[]"] jfuel_text(1) [of j]
  by (simp add: json_scan_def skip_ws_def)

lemma json_text_no_NL:
  "wf_json j \<Longrightarrow> NL \<notin> set (json_text j)"
  "list_all wf_json xs \<Longrightarrow> NL \<notin> set (elems_text xs)"
  "list_all (\<lambda>(k, v). raw_ok k \<and> wf_json v) ms \<Longrightarrow> NL \<notin> set (members_text ms)"
  by (induction j and xs and ms rule: json_text_elems_text_members_text.induct)
     (auto dest: raw_ok_no_NL simp: list_all_iff)


subsection \<open>A proper prefix of an object's text is no JSON text\<close>

lemma skip_ws_extend: "skip_ws s = c # t \<Longrightarrow> skip_ws (s @ q) = c # t @ q"
  by (induction s) (auto simp: skip_ws_def split: if_splits)

lemma HasPrefix_extend: "HasPrefix t p \<Longrightarrow> HasPrefix (t @ q) p"
  by (metis HasPrefix_iff_prefix prefix_prefix)

lemma HasPrefix_length: "HasPrefix t p \<Longrightarrow> length p \<le> length t"
  by (metis HasPrefix_iff_prefix prefix_length_le)

fun is_JNum :: "json \<Rightarrow> bool" where
  "is_JNum (JNum t) = True"
| "is_JNum _ = False"

lemma numch_span_extend:
  assumes "dropWhile is_numch s \<noteq> []"
  shows "takeWhile is_numch (s @ q) = takeWhile is_numch s"
    and "dropWhile is_numch (s @ q) = dropWhile is_numch s @ q"
proof -
  from assms obtain x where "x \<in> set s" "\<not> is_numch x" by auto
  then show "takeWhile is_numch (s @ q) = takeWhile is_numch s"
    and "dropWhile is_numch (s @ q) = dropWhile is_numch s @ q"
    by (auto intro: takeWhile_append1 dropWhile_append1)
qed

lemma parse_value_extend:
  assumes elems: "\<And>s xs r. parse_elems n s = Some (xs, r) \<Longrightarrow> parse_elems n (s @ q) = Some (xs, r @ q)"
    and members: "\<And>s ms r. parse_members n s = Some (ms, r) \<Longrightarrow> parse_members n (s @ q) = Some (ms, r @ q)"
    and ok: "parse_value (Suc n) s = Some (j, r)" and r: "r \<noteq> [] \<or> \<not> is_JNum j"
  shows "parse_value (Suc n) (s @ q) = Some (j, r @ q)"
proof -
  from ok obtain c t where s: "skip_ws s = c # t" by (cases "skip_ws s") auto
  note sq = skip_ws_extend [OF s, of q]
  consider (lit) "c \<in> {CHR ''n'', CHR ''t'', CHR ''f''}" | (str) "c = DQ" | (arr) "c = CHR ''[''"
    | (obj) "c = CHR ''{''"
    | (num) "c \<noteq> CHR ''n'' \<and> c \<noteq> CHR ''t'' \<and> c \<noteq> CHR ''f'' \<and> c \<noteq> DQ \<and> c \<noteq> CHR ''['' \<and> c \<noteq> CHR ''{''"
    by blast
  then show ?thesis
  proof cases
    case lit
    with ok s sq show ?thesis
      by (auto split: if_splits dest: HasPrefix_extend HasPrefix_length)
  next
    case str
    with ok s sq show ?thesis by (auto dest: scan_str_extend)
  next
    case arr
    with ok s obtain d u where t: "skip_ws t = d # u" by (cases "skip_ws t") auto
    with arr ok s sq skip_ws_extend [OF t, of q] show ?thesis
      by (auto split: if_splits dest: elems)
  next
    case obj
    with ok s obtain d u where t: "skip_ws t = d # u" by (cases "skip_ws t") auto
    with obj ok s sq skip_ws_extend [OF t, of q] show ?thesis
      by (auto split: if_splits dest: members)
  next
    case num
    with ok s have j: "j = JNum (takeWhile is_numch (c # t))" "r = dropWhile is_numch (c # t)"
      and v: "valid_num (takeWhile is_numch (c # t))"
      by (auto simp del: takeWhile.simps dropWhile.simps split: if_splits)
    with r have ne: "dropWhile is_numch (c # t) \<noteq> []" by auto
    show ?thesis
      using num sq j v numch_span_extend [OF ne, of q]
      by (simp del: takeWhile.simps dropWhile.simps)
  qed
qed

lemma parse_extend:
  "(\<forall>s j r. parse_value n s = Some (j, r) \<longrightarrow> r \<noteq> [] \<or> \<not> is_JNum j \<longrightarrow> parse_value n (s @ q) = Some (j, r @ q)) \<and>
   (\<forall>s xs r. parse_elems n s = Some (xs, r) \<longrightarrow> parse_elems n (s @ q) = Some (xs, r @ q)) \<and>
   (\<forall>s ms r. parse_members n s = Some (ms, r) \<longrightarrow> parse_members n (s @ q) = Some (ms, r @ q))"
proof (induction n)
  case 0
  then show ?case by simp
next
  case (Suc n)
  have v: "parse_value n s = Some (x, d # u) \<Longrightarrow> parse_value n (s @ q) = Some (x, d # u @ q)"
    for s x d u using Suc by force
  have vw: "parse_value n (s @ q) = Some (x, r @ q)"
    if "parse_value n s = Some (x, r)" "skip_ws r = d # u" for s x r d u
    using Suc that by (metis append_Nil dropWhile.simps(1) list.distinct(1) skip_ws_def)
  have elems: "parse_elems (Suc n) (s @ q) = Some (xs, r @ q)" if ok: "parse_elems (Suc n) s = Some (xs, r)" for s xs r
  proof -
    from ok obtain x z d u where z: "parse_value n s = Some (x, z)" "skip_ws z = d # u"
      by (auto split: option.splits list.splits)
    from ok z vw [OF z] skip_ws_extend [OF z(2), of q] Suc show ?thesis
      by (auto split: if_splits)
  qed
  have members: "parse_members (Suc n) (s @ q) = Some (ms, r @ q)" if ok: "parse_members (Suc n) s = Some (ms, r)" for s ms r
  proof -
    from ok obtain t k z u where t: "skip_ws s = DQ # t" "scan_str t = Some (k, z)" "skip_ws z = CHR '':'' # u"
      by (auto split: option.splits list.splits if_splits)
    with ok obtain x y d w where y: "parse_value n u = Some (x, y)" "skip_ws y = d # w"
      by (auto split: option.splits list.splits if_splits)
    from ok t y vw [OF y] skip_ws_extend [OF y(2), of q] skip_ws_extend [OF t(1), of q]
      skip_ws_extend [OF t(3), of q] scan_str_extend [OF t(2), of q] Suc
    show ?thesis by (auto split: if_splits)
  qed
  have "parse_value (Suc n) (s @ q) = Some (j, r @ q)"
    if "parse_value (Suc n) s = Some (j, r)" "r \<noteq> [] \<or> \<not> is_JNum j" for s j r
    using Suc that by (intro parse_value_extend) auto
  with elems members show ?case by blast
qed

text \<open>More fuel never changes a result.\<close>

lemma parse_value_step:
  assumes elems: "\<And>s x. parse_elems n s = Some x \<Longrightarrow> parse_elems m s = Some x"
    and members: "\<And>s x. parse_members n s = Some x \<Longrightarrow> parse_members m s = Some x"
    and ok: "parse_value (Suc n) s = Some x"
  shows "parse_value (Suc m) s = Some x"
proof -
  from ok obtain c t where s: "skip_ws s = c # t" by (cases "skip_ws s") auto
  show ?thesis
  proof (cases "c = CHR ''['' \<or> c = CHR ''{''")
    case True
    with ok s obtain d u where t: "skip_ws t = d # u" by (cases "skip_ws t") auto
    with True ok s show ?thesis by (auto split: if_splits dest: elems members)
  next
    case False
    with s have "parse_value (Suc m) s = parse_value (Suc n) s"
      by (simp del: takeWhile.simps dropWhile.simps)
    with ok show ?thesis by (simp del: parse_value.simps)
  qed
qed

lemma parse_fuel_Suc:
  "(\<forall>s x. parse_value n s = Some x \<longrightarrow> parse_value (Suc n) s = Some x) \<and>
   (\<forall>s x. parse_elems n s = Some x \<longrightarrow> parse_elems (Suc n) s = Some x) \<and>
   (\<forall>s x. parse_members n s = Some x \<longrightarrow> parse_members (Suc n) s = Some x)"
proof (induction n)
  case 0
  then show ?case by simp
next
  case (Suc n)
  have "parse_value (Suc (Suc n)) s = Some x" if "parse_value (Suc n) s = Some x" for s x
    using Suc that by (blast intro: parse_value_step)
  moreover have "parse_elems (Suc (Suc n)) s = Some x" if ok: "parse_elems (Suc n) s = Some x" for s x
  proof -
    from ok obtain y z d u where z: "parse_value n s = Some (y, z)" "skip_ws z = d # u"
      by (auto split: option.splits list.splits)
    with Suc have "parse_value (Suc n) s = Some (y, z)" by blast
    with ok z Suc show ?thesis
      by (auto split: if_splits simp: parse_elems.simps(2) [of "Suc n"] simp del: parse_value.simps)
  qed
  moreover have "parse_members (Suc (Suc n)) s = Some x" if ok: "parse_members (Suc n) s = Some x" for s x
  proof -
    from ok obtain t k z u where t: "skip_ws s = DQ # t" "scan_str t = Some (k, z)" "skip_ws z = CHR '':'' # u"
      by (auto split: option.splits list.splits if_splits)
    with ok obtain y w d v where y: "parse_value n u = Some (y, w)" "skip_ws w = d # v"
      by (auto split: option.splits list.splits if_splits)
    with Suc have "parse_value (Suc n) u = Some (y, w)" by blast
    with ok t y Suc show ?thesis
      by (auto split: if_splits simp: parse_members.simps(2) [of "Suc n"] simp del: parse_value.simps)
  qed
  ultimately show ?case by blast
qed

lemma parse_value_fuel:
  assumes "parse_value n s = Some x" and "n \<le> m"
  shows "parse_value m s = Some x"
  using assms(2,1) by (induction m rule: dec_induct) (use parse_fuel_Suc in blast)+

theorem json_scan_prefix:
  assumes wf: "wf_json (JObj ms)" and t: "json_text (JObj ms) = p @ q" and q: "q \<noteq> []"
  shows "json_scan p = None"
proof (rule ccontr)
  assume "json_scan p \<noteq> None"
  then obtain j r where j: "parse_value (Suc (length p)) p = Some (j, r)"
    by (auto simp: json_scan_def split: option.splits simp del: parse_value.simps)
  then have "p \<noteq> []" by (auto simp: skip_ws_def)
  with t have hd: "\<exists>u. p = CHR ''{'' # u" by (cases p) auto
  with j have "\<not> is_JNum j" by (auto simp: skip_ws_Cons split: list.splits if_splits)
  with j have "parse_value (Suc (length p)) (p @ q) = Some (j, r @ q)"
    using parse_extend by blast
  then have "parse_value (Suc (length (p @ q))) (p @ q) = Some (j, r @ q)"
    by (rule parse_value_fuel) simp
  moreover have "jfuel (JObj ms) \<le> Suc (length (p @ q))"
    using jfuel_text(1) [OF wf] unfolding t by (rule le_SucI)
  then have "parse_value (Suc (length (p @ q))) (p @ q) = Some (JObj ms, [])"
    using parse_text(1) [OF wf, of "Suc (length (p @ q))" "[]"] unfolding t
    by (simp del: parse_value.simps)
  ultimately show False using q by (simp del: parse_value.simps)
qed

end
