(* ===== verification/Go_Float.thy ===== *)
theory Go_Float
  imports Complex_Main Prelude
begin

section \<open>Go's floating-point numbers\<close>

text \<open>
  \<open>float64\<close> is an IEEE-754 double: a finite value, kept as the rational number it denotes,
  one of the infinities, or a NaN; \<open>float32\<close> values use the same type. An operation rounds
  its exact rational result to the nearest representable value, ties to even
  (\<open>fl64\<close>, \<open>fl32\<close>). The two signed zeros are one value, as they are for every comparison
  the program makes.

  The balancer's loop decrements a weight by one until it falls to zero. What it needs of
  the arithmetic is in \<open>fl_le_int\<close> and \<open>fl_int\<close>: rounding does not carry a value past
  an integer of at most \<open>2 ^ 53\<close>, and such integers are exact.
\<close>

datatype float64 = Fin rat | Inf bool | NaN

type_synonym float32 = float64

definition round_half_even :: "rat \<Rightarrow> int" where
  "round_half_even x =
     (let f = \<lfloor>x\<rfloor>; r = x - of_int f
      in if r < 1 / 2 then f else if 1 / 2 < r then f + 1 else if even f then f else f + 1)"

fun log2 :: "nat \<Rightarrow> nat" where
  "log2 n = (if n < 2 then 0 else Suc (log2 (n div 2)))"

declare log2.simps [simp del]

text \<open>The exponent of a positive rational: \<open>2 powi expo x \<le> x < 2 powi (expo x + 1)\<close>.\<close>

definition expo :: "rat \<Rightarrow> int" where
  "expo x =
     (let (p, q) = quotient_of x; e = int (log2 (nat p)) - int (log2 (nat q))
      in if 2 powi e \<le> x then e else e - 1)"

text \<open>Rounding to \<open>p\<close> significant bits, the last one worth at least \<open>2 powi emin\<close>.\<close>

definition ulp :: "nat \<Rightarrow> int \<Rightarrow> rat \<Rightarrow> rat" where
  "ulp p emin x = 2 powi (max (expo \<bar>x\<bar> - int p + 1) emin)"

definition fl :: "nat \<Rightarrow> int \<Rightarrow> rat \<Rightarrow> rat" where
  "fl p emin x =
     (if x = 0 then 0 else of_int (round_half_even (x / ulp p emin x)) * ulp p emin x)"

definition to_float :: "nat \<Rightarrow> int \<Rightarrow> nat \<Rightarrow> rat \<Rightarrow> float64" where
  "to_float p emin emax x = (let v = fl p emin x in if \<bar>v\<bar> < 2 ^ emax then Fin v else Inf (v < 0))"

definition fl64 :: "rat \<Rightarrow> float64" where
  "fl64 x = to_float 53 (- 1074) 1024 x"

definition fl32 :: "rat \<Rightarrow> float64" where
  "fl32 x = to_float 24 (- 149) 128 x"

fun f64_add :: "float64 \<Rightarrow> float64 \<Rightarrow> float64" where
  "f64_add (Fin x) (Fin y) = fl64 (x + y)"
| "f64_add (Inf s) (Inf t) = (if s = t then Inf s else NaN)"
| "f64_add (Inf s) (Fin y) = Inf s"
| "f64_add (Fin x) (Inf t) = Inf t"
| "f64_add _ _ = NaN"

fun f64_neg :: "float64 \<Rightarrow> float64" where
  "f64_neg (Fin x) = Fin (- x)"
| "f64_neg (Inf s) = Inf (\<not> s)"
| "f64_neg NaN = NaN"

definition f64_sub :: "float64 \<Rightarrow> float64 \<Rightarrow> float64" where
  "f64_sub a b = f64_add a (f64_neg b)"

text \<open>\<open>a < b\<close>; a comparison with a NaN is false.\<close>

fun f64_less :: "float64 \<Rightarrow> float64 \<Rightarrow> bool" where
  "f64_less (Fin x) (Fin y) = (x < y)"
| "f64_less (Inf s) (Inf t) = (s \<and> \<not> t)"
| "f64_less (Inf s) (Fin y) = s"
| "f64_less (Fin x) (Inf t) = (\<not> t)"
| "f64_less _ _ = False"

definition f64_eq :: "float64 \<Rightarrow> float64 \<Rightarrow> bool" where
  "f64_eq a b \<longleftrightarrow> a = b \<and> a \<noteq> NaN"

definition f64_le :: "float64 \<Rightarrow> float64 \<Rightarrow> bool" where
  "f64_le a b \<longleftrightarrow> f64_less a b \<or> f64_eq a b"

text \<open>The conversion \<open>float32(x)\<close>; widening back, \<open>float64(y)\<close>, is exact.\<close>

fun to_float32 :: "float64 \<Rightarrow> float32" where
  "to_float32 (Fin x) = fl32 x"
| "to_float32 (Inf s) = Inf s"
| "to_float32 NaN = NaN"

definition to_float64 :: "float32 \<Rightarrow> float64" where
  "to_float64 x = x"

text \<open>A value that a double can hold.\<close>

fun is_f64 :: "float64 \<Rightarrow> bool" where
  "is_f64 (Fin x) = (fl64 x = Fin x)"
| "is_f64 _ = True"


subsection \<open>Rounding\<close>

lemma round_half_even_int [simp]: "round_half_even (of_int k) = k"
  by (simp add: round_half_even_def)

lemma round_half_even_le_int: "x \<le> of_int k \<Longrightarrow> round_half_even x \<le> k"
proof -
  assume le: "x \<le> of_int k"
  show ?thesis
  proof (cases "x = of_int k")
    case True
    then show ?thesis by simp
  next
    case False
    with le have "\<lfloor>x\<rfloor> < k" by (simp add: floor_less_iff)
    then show ?thesis by (auto simp: round_half_even_def Let_def)
  qed
qed

lemma round_half_even_ge_int: "of_int k \<le> x \<Longrightarrow> k \<le> round_half_even x"
proof -
  assume "of_int k \<le> x"
  then have "k \<le> \<lfloor>x\<rfloor>" by (simp add: le_floor_iff)
  then show ?thesis by (auto simp: round_half_even_def Let_def)
qed

lemma log2_bounds: "0 < n \<Longrightarrow> 2 ^ log2 n \<le> n \<and> n < 2 * 2 ^ log2 n"
proof (induction n rule: log2.induct)
  case (1 n)
  show ?case
  proof (cases "n < 2")
    case True
    with 1 show ?thesis by (simp add: log2.simps [of n])
  next
    case False
    with 1 have "2 ^ log2 (n div 2) \<le> n div 2" "n div 2 < 2 * 2 ^ log2 (n div 2)"
      by auto
    with False show ?thesis by (simp add: log2.simps [of n]) linarith
  qed
qed

lemma log2_bounds_rat:
  assumes "0 < p"
  shows "(2::rat) ^ log2 (nat p) \<le> of_int p \<and> of_int p < (2::rat) * 2 ^ log2 (nat p)"
proof -
  have "of_nat (2 ^ log2 (nat p)) \<le> (of_nat (nat p) :: rat)"
    and "(of_nat (nat p) :: rat) < of_nat (2 * 2 ^ log2 (nat p))"
    using log2_bounds [of "nat p"] assms by (simp_all only: of_nat_le_iff of_nat_less_iff zero_less_nat_eq)
  moreover have "(of_nat (nat p) :: rat) = of_int p"
    using assms by (metis int_nat_eq of_int_of_nat_eq order_less_imp_le)
  ultimately show ?thesis by simp
qed

lemma expo_bounds:
  assumes "0 < x"
  shows "2 powi expo x \<le> x" and "x < 2 powi (expo x + 1)"
proof -
  obtain p q where pq: "quotient_of x = (p, q)" by fastforce
  then have x: "x = of_int p / of_int q" and q: "0 < q"
    by (auto simp: quotient_of_div quotient_of_denom_pos)
  with assms have p: "0 < p" by (simp add: zero_less_divide_iff)
  define a b where "a = log2 (nat p)" and "b = log2 (nat q)"
  have ab: "(2::rat) ^ a \<le> of_int p" "of_int p < (2::rat) * 2 ^ a"
    "(2::rat) ^ b \<le> of_int q" "of_int q < (2::rat) * 2 ^ b"
    using log2_bounds_rat [OF p] log2_bounds_rat [OF q] by (simp_all add: a_def b_def)
  have e: "(2::rat) powi (int a - int b) = 2 ^ a / 2 ^ b"
    by (simp add: power_int_diff)
  have "x < (2 * 2 ^ a) / 2 ^ b"
    unfolding x using ab p by (intro frac_less) auto
  then have hi: "x < 2 * (2 ^ a / 2 ^ b)" by simp
  have "2 ^ a / (2 * 2 ^ b) < x"
    unfolding x using ab q by (intro frac_less2) auto
  then have lo: "2 ^ a / 2 ^ b / 2 < x" by (simp add: mult.commute)
  show "2 powi expo x \<le> x" and "x < 2 powi (expo x + 1)"
    using hi lo
    by (auto simp: expo_def pq e Let_def power_int_add power_int_diff mult.commute simp flip: a_def b_def)
qed

lemma expo_mono_int:
  assumes "0 < x" and "x \<le> 2 ^ n"
  shows "expo x \<le> int n"
proof (rule ccontr)
  assume "\<not> expo x \<le> int n"
  then have "(2::rat) powi (int n + 1) \<le> 2 powi expo x"
    by (intro power_int_increasing) auto
  also have "\<dots> \<le> x" by (rule expo_bounds(1) [OF assms(1)])
  also have "\<dots> \<le> 2 ^ n" by (rule assms(2))
  finally show False by (simp add: power_int_add)
qed

lemma expo_ge:
  assumes "2 ^ n \<le> x"
  shows "int n \<le> expo x"
proof (rule ccontr)
  assume "\<not> int n \<le> expo x"
  then have "(2::rat) powi (expo x + 1) \<le> 2 powi int n"
    by (intro power_int_increasing) auto
  moreover have "0 < x" using assms by (meson less_le_trans zero_less_numeral zero_less_power)
  ultimately show False
    using expo_bounds(2) [of x] assms by simp
qed

lemma ulp_pos [simp]: "0 < ulp p emin x"
  by (simp add: ulp_def)

lemma powi_dvd_int:
  assumes "e \<le> 0"
  shows "\<exists>k. (of_int n :: rat) = of_int k * 2 powi e"
proof -
  have "(of_int n :: rat) = of_int (n * 2 ^ nat (- e)) * 2 powi e"
    using assms by (simp add: power_int_def field_simps)
  then show ?thesis by blast
qed

text \<open>An integer of at most \<open>2 ^ p\<close> is a multiple of the last place of every value below it.\<close>

lemma int_multiple_ulp:
  assumes "0 < x" and "x \<le> of_int n" and "n \<le> 2 ^ p" and "0 < p" and "emin \<le> 0"
  shows "\<exists>k. (of_int n :: rat) = of_int k * ulp p emin x"
proof (cases "max (expo \<bar>x\<bar> - int p + 1) emin \<le> 0")
  case True
  then show ?thesis unfolding ulp_def by (rule powi_dvd_int)
next
  case False
  have n: "of_int n \<le> (2::rat) ^ p"
    using assms(3) by (metis of_int_le_iff of_int_numeral of_int_power)
  have "expo x \<le> int p" using assms(1,2) n by (intro expo_mono_int) linarith+
  with False assms have e: "expo x = int p" by simp
  then have "(2::rat) ^ p \<le> x"
    using expo_bounds(1) [OF assms(1)] by simp
  with n assms(2) have "of_int n = (2::rat) ^ p" by linarith
  also have "\<dots> = of_int (2 ^ (p - 1)) * 2" using assms(4) by (cases p) auto
  finally have "(of_int n :: rat) = of_int (2 ^ (p - 1)) * ulp p emin x"
    using e assms by (simp add: ulp_def)
  then show ?thesis by blast
qed

lemma fl_le_int:
  assumes "x \<le> of_int n" and "0 \<le> n" and "n \<le> 2 ^ p" and "0 < p" and "emin \<le> 0"
  shows "fl p emin x \<le> of_int n"
proof (cases "0 < x")
  case True
  then obtain k where k: "(of_int n :: rat) = of_int k * ulp p emin x"
    using int_multiple_ulp assms by blast
  then have "x / ulp p emin x \<le> of_int k"
    using assms(1) by (simp add: divide_le_eq)
  then have "round_half_even (x / ulp p emin x) \<le> k"
    by (rule round_half_even_le_int)
  then have "fl p emin x \<le> of_int k * ulp p emin x"
    using True by (simp add: fl_def)
  with k show ?thesis by simp
next
  case False
  then have "x / ulp p emin x \<le> of_int 0"
    by (simp add: divide_nonpos_pos)
  then have "round_half_even (x / ulp p emin x) \<le> 0"
    by (rule round_half_even_le_int)
  then have "fl p emin x \<le> 0"
    by (simp add: fl_def mult_nonpos_nonneg less_imp_le)
  with assms(2) show ?thesis by (meson of_int_0_le_iff order_trans)
qed

lemma fl_int:
  assumes "0 \<le> n" and "n \<le> 2 ^ p" and "0 < p" and "emin \<le> 0"
  shows "fl p emin (of_int n) = of_int n"
proof (cases "n = 0")
  case False
  with assms obtain k where k: "(of_int n :: rat) = of_int k * ulp p emin (of_int n)"
    using int_multiple_ulp [of "of_int n" n p emin] by auto
  then have "of_int n / ulp p emin (of_int n) = of_int k"
    by (simp add: divide_eq_eq less_imp_neq [symmetric])
  with k False show ?thesis by (simp add: fl_def)
qed (simp add: fl_def)

lemma fl_nonneg: "0 \<le> x \<Longrightarrow> 0 \<le> fl p emin x"
  using round_half_even_ge_int [of 0 "x / ulp p emin x"]
  by (simp add: fl_def less_imp_le)

lemma fl64_int:
  assumes "0 \<le> n" and "n \<le> 2 ^ 53"
  shows "fl64 (of_int n) = Fin (of_int n)"
proof -
  have "(of_int n :: rat) \<le> of_int (2 ^ 53)"
    using assms(2) by (simp only: of_int_le_iff)
  also have "\<dots> < 2 ^ 1024" by simp
  finally show ?thesis
    using assms by (simp add: fl64_def to_float_def fl_int)
qed

end
