(* ===== verification/Go_Codec.thy ===== *)
theory Go_Codec
  imports Go_Json Go_Float
begin

section \<open>Encoding Go values as JSON\<close>

text \<open>
  The value layer of \<open>encoding/json\<close>: how \<open>json.Marshal\<close> turns the fields of a struct into
  tokens and how \<open>json.Unmarshal\<close> reads them back. A decoder takes the old value of the
  field, because a JSON \<open>null\<close> leaves it as it is. An object's members are decoded in
  order, keys compared without regard to case, unknown keys ignored, and a value of the
  wrong kind is an error (\<open>None\<close>).

  Two leaves are written in a form of their own: a \<open>float64\<close> as its exact decimal value
  (Go writes the shortest one that reads back as the same double) and a \<open>time.Time\<close> as a
  decimal count of nanoseconds in a string (Go writes RFC 3339). Bytes that are not valid
  UTF-8 are copied.
\<close>

subsection \<open>Strings\<close>

definition hex_char :: "nat \<Rightarrow> char" where
  "hex_char n = char_of (if n < 10 then 48 + n else 87 + n)"

definition hex_val :: "char \<Rightarrow> nat" where
  "hex_val c =
     (let b = byte_of c in if b \<le> 57 then b - 48 else if b \<le> 70 then b - 55 else b - 87)"

definition hex4 :: "string \<Rightarrow> nat" where
  "hex4 s = foldl (\<lambda>a c. 16 * a + hex_val c) 0 (take 4 s)"

text \<open>The escapes of Go's encoder, which also protects \<open><\<close>, \<open>>\<close> and \<open>&\<close>.\<close>

definition esc_byte :: "char \<Rightarrow> string" where
  "esc_byte c =
     (if c = DQ \<or> c = BS then [BS, c]
      else if c = CHR 0x08 then [BS, CHR ''b'']
      else if c = CHR 0x0C then [BS, CHR ''f'']
      else if c = NL then [BS, CHR ''n'']
      else if c = CHR 0x0D then [BS, CHR ''r'']
      else if c = CHR 0x09 then [BS, CHR ''t'']
      else if byte_of c < 32 \<or> c \<in> {CHR ''<'', CHR ''>'', CHR ''&''}
      then [BS, CHR ''u'', CHR ''0'', CHR ''0'', hex_char (byte_of c div 16), hex_char (byte_of c mod 16)]
      else [c])"

text \<open>The line separators U+2028 and U+2029, three bytes each in UTF-8, are escaped too.\<close>

definition is_line_sep :: "string \<Rightarrow> bool" where
  "is_line_sep s \<longleftrightarrow> take 3 s = [CHR 0xE2, CHR 0x80, CHR 0xA8] \<or> take 3 s = [CHR 0xE2, CHR 0x80, CHR 0xA9]"

definition line_sep_esc :: "string \<Rightarrow> string" where
  "line_sep_esc s = [BS, CHR ''u'', CHR ''2'', CHR ''0'', CHR ''2'', if take 3 s = [CHR 0xE2, CHR 0x80, CHR 0xA8] then CHR ''8'' else CHR ''9'']"

fun json_quote :: "string \<Rightarrow> string" where
  "json_quote [] = []"
| "json_quote (c # s) =
     (if is_line_sep (c # s) then line_sep_esc (c # s) @ json_quote (drop 2 s)
      else esc_byte c @ json_quote s)"

definition utf8 :: "nat \<Rightarrow> string" where
  "utf8 n =
     (if n < 0x80 then [char_of n]
      else if n < 0x800 then [char_of (0xC0 + n div 64), char_of (0x80 + n mod 64)]
      else if n < 0x10000
      then [char_of (0xE0 + n div 4096), char_of (0x80 + n div 64 mod 64), char_of (0x80 + n mod 64)]
      else [char_of (0xF0 + n div 262144), char_of (0x80 + n div 4096 mod 64),
            char_of (0x80 + n div 64 mod 64), char_of (0x80 + n mod 64)])"

definition simple_esc :: "char \<Rightarrow> char" where
  "simple_esc e =
     (if e = CHR ''b'' then CHR 0x08 else if e = CHR ''f'' then CHR 0x0C else if e = CHR ''n'' then NL
      else if e = CHR ''r'' then CHR 0x0D else if e = CHR ''t'' then CHR 0x09 else e)"

text \<open>
  The text a token stands for. A high surrogate followed by an escaped low surrogate is one
  code point; a surrogate alone is replaced by U+FFFD.
\<close>

function json_unquote :: "string \<Rightarrow> string" where
  "json_unquote s =
     (case unit_len s of
        None \<Rightarrow> []
      | Some n \<Rightarrow>
          if n = 6 then
            (let hi = hex4 (drop 2 s); r = drop 6 s
             in if hi < 0xD800 \<or> 0xE000 \<le> hi then utf8 hi @ json_unquote r
                else let lo = hex4 (drop 2 r)
                in if hi < 0xDC00 \<and> unit_len r = Some 6 \<and> 0xDC00 \<le> lo \<and> lo < 0xE000
                   then utf8 (0x10000 + (hi - 0xD800) * 0x400 + (lo - 0xDC00)) @ json_unquote (drop 6 r)
                   else utf8 0xFFFD @ json_unquote r)
          else if n = 2 then simple_esc (hd (tl s)) # json_unquote (drop 2 s)
          else hd s # json_unquote (tl s))"
  by pat_completeness auto
termination
  by (relation "measure length") (auto dest!: unit_len_bounds)

declare json_unquote.simps [simp del]

lemma hex_char_props [simp]:
  assumes "n < 16"
  shows "is_hex (hex_char n)" and "hex_val (hex_char n) = n"
  using assms by (auto simp: is_hex_def hex_char_def hex_val_def is_digit_def Let_def)

lemma is_hex_lits [simp]: "is_hex CHR ''0''" "is_hex CHR ''2''" "is_hex CHR ''8''" "is_hex CHR ''9''"
  by (simp_all add: is_hex_def is_digit_def byte_of_def)

lemma json_unquote_plain:
  assumes "c \<noteq> BS" "32 \<le> byte_of c"
  shows "json_unquote (c # s) = c # json_unquote s"
  by (subst json_unquote.simps) (simp add: unit_len_intros(3) [OF assms])

lemma json_unquote_esc:
  assumes "e \<in> {DQ, BS, CHR ''/'', CHR ''b'', CHR ''f'', CHR ''n'', CHR ''r'', CHR ''t''}"
  shows "json_unquote (BS # e # s) = simple_esc e # json_unquote s"
  by (subst json_unquote.simps) (simp only: unit_len_intros(2) [OF assms], simp)

lemma json_unquote_hex:
  assumes "length h = 4" "list_all is_hex h" "hex4 h < 0xD800"
  shows "json_unquote (BS # CHR ''u'' # h @ s) = utf8 (hex4 h) @ json_unquote s"
proof -
  have "unit_len (BS # CHR ''u'' # h @ s) = Some 6"
    using assms by (intro unit_len_intros(1)) auto
  moreover have "hex4 (h @ s) = hex4 h" using assms(1) by (simp add: hex4_def)
  ultimately show ?thesis
    using assms by (subst json_unquote.simps) (simp add: Let_def)
qed

text \<open>One escaped byte is one unit, and reads back as the byte.\<close>

lemma esc_byte_cases:
  obtains (plain) "esc_byte c = [c]" "c \<noteq> BS" "c \<noteq> DQ" "32 \<le> byte_of c"
  | (esc) e where "esc_byte c = [BS, e]" "simple_esc e = c"
      "e \<in> {DQ, BS, CHR ''/'', CHR ''b'', CHR ''f'', CHR ''n'', CHR ''r'', CHR ''t''}"
  | (hex) h where "esc_byte c = BS # CHR ''u'' # h" "length h = 4" "list_all is_hex h"
      "hex4 h = byte_of c" "byte_of c < 128"
proof (cases "c \<in> {DQ, BS, CHR 0x08, CHR 0x0C, NL, CHR 0x0D, CHR 0x09}")
  case True
  then show ?thesis
    by (elim insertE) (rule esc, auto simp: esc_byte_def simple_esc_def)+
next
  case False
  show ?thesis
  proof (cases "byte_of c < 32 \<or> c \<in> {CHR ''<'', CHR ''>'', CHR ''&''}")
    case True
    let ?h = "[CHR ''0'', CHR ''0'', hex_char (byte_of c div 16), hex_char (byte_of c mod 16)]"
    have b: "byte_of c < 128" using True by (auto simp: byte_of_def)
    have z: "hex_val CHR ''0'' = 0" by (simp add: hex_val_def byte_of_def)
    have h: "list_all is_hex ?h" "hex4 ?h = byte_of c"
      using b z by (simp_all add: hex4_def)
    show ?thesis
      by (rule hex [of ?h]) (use True False h b in \<open>auto simp: esc_byte_def\<close>)
  next
    case False': False
    with False show ?thesis by (intro plain) (auto simp: esc_byte_def)
  qed
qed

lemma line_sep_cases:
  assumes "is_line_sep s"
  obtains h t where "line_sep_esc s = BS # CHR ''u'' # h" "length h = 4" "list_all is_hex h"
    "hex4 h < 0xD800" "s = utf8 (hex4 h) @ t" "drop 3 s = t"
proof -
  from assms have s: "s = take 3 s @ drop 3 s" by simp
  from assms show ?thesis
  proof (cases "take 3 s = [CHR 0xE2, CHR 0x80, CHR 0xA8]")
    case True
    moreover have "hex4 ''2028'' = 0x2028"
      by (simp add: hex4_def hex_val_def byte_of_def)
    moreover have "utf8 0x2028 = [CHR 0xE2, CHR 0x80, CHR 0xA8]"
      by (simp add: utf8_def flip: byte_of_inj) (simp add: byte_of_def)
    ultimately show ?thesis
      using s by (intro that [of "''2028''" "drop 3 s"]) (auto simp: line_sep_esc_def)
  next
    case False
    with assms have "take 3 s = [CHR 0xE2, CHR 0x80, CHR 0xA9]" by (simp add: is_line_sep_def)
    moreover have "hex4 ''2029'' = 0x2029"
      by (simp add: hex4_def hex_val_def byte_of_def)
    moreover have "utf8 0x2029 = [CHR 0xE2, CHR 0x80, CHR 0xA9]"
      by (simp add: utf8_def flip: byte_of_inj) (simp add: byte_of_def)
    ultimately show ?thesis
      using s False by (intro that [of "''2029''" "drop 3 s"]) (auto simp: line_sep_esc_def)
  qed
qed

theorem json_unquote_quote [codec_simps]: "json_unquote (json_quote s) = s"
proof (induction s rule: json_quote.induct)
  case 1
  then show ?case by (subst json_unquote.simps) (simp add: unit_len_def)
next
  case (2 c s)
  show ?case
  proof (cases "is_line_sep (c # s)")
    case True
    then obtain h t where h: "line_sep_esc (c # s) = BS # CHR ''u'' # h" "length h = 4" "list_all is_hex h"
      "hex4 h < 0xD800" "c # s = utf8 (hex4 h) @ t" "drop 3 (c # s) = t"
      by (rule line_sep_cases)
    have "json_quote (c # s) = BS # CHR ''u'' # h @ json_quote t"
      using True h(1,6) by simp
    then have "json_unquote (json_quote (c # s)) = utf8 (hex4 h) @ json_unquote (json_quote t)"
      using h(2-4) by (simp only: json_unquote_hex)
    also have "json_unquote (json_quote t) = t"
      using "2.IH"(1) [OF True] h(6) by simp
    finally show ?thesis using h(5) by simp
  next
    case False
    note IH = "2.IH"(2) [OF False]
    show ?thesis
    proof (cases c rule: esc_byte_cases)
      case plain
      with False IH show ?thesis by (simp add: json_unquote_plain)
    next
      case (esc e)
      with False IH show ?thesis by (simp add: json_unquote_esc)
    next
      case (hex h)
      then have "utf8 (hex4 h) = [c]" by (simp add: utf8_def)
      with False IH hex show ?thesis by (simp add: json_unquote_hex)
    qed
  qed
qed

lemma scan_str_unit:
  assumes "u \<noteq> []" "hd u \<noteq> DQ" "unit_len (u @ s) = Some (length u)" "scan_str s = Some (k, r)"
  shows "scan_str (u @ s) = Some (u @ k, r)"
  using assms by (subst scan_str.simps) (cases u; simp)

lemma scan_str_hex:
  assumes "length h = 4" "list_all is_hex h" "scan_str s = Some (k, r)"
  shows "scan_str (BS # CHR ''u'' # h @ s) = Some (BS # CHR ''u'' # h @ k, r)"
  using scan_str_unit [of "BS # CHR ''u'' # h" s k r] unit_len_intros(1) [of "h @ s"] assms by simp

lemma scan_str_esc_byte:
  assumes "scan_str s = Some (k, r)"
  shows "scan_str (esc_byte c @ s) = Some (esc_byte c @ k, r)"
proof (cases c rule: esc_byte_cases)
  case plain
  with assms show ?thesis
    using scan_str_unit [of "[c]" s k r] unit_len_intros(3) [of c s] by simp
next
  case (esc e)
  with assms show ?thesis
    using scan_str_unit [of "[BS, e]" s k r] unit_len_intros(2) [of e s] by simp
next
  case (hex h)
  with assms show ?thesis using scan_str_hex [of h s k r] by simp
qed

lemma raw_ok_quote [simp]: "raw_ok (json_quote s)"
  unfolding raw_ok_def
proof (induction s rule: json_quote.induct)
  case 1
  then show ?case by (simp add: scan_str_simps)
next
  case (2 c s)
  show ?case
  proof (cases "is_line_sep (c # s)")
    case True
    then obtain h where "line_sep_esc (c # s) = BS # CHR ''u'' # h" "length h = 4" "list_all is_hex h"
      by (rule line_sep_cases)
    with True 2 show ?thesis by (simp add: scan_str_hex)
  next
    case False
    with 2 show ?thesis by (simp add: scan_str_esc_byte)
  qed
qed

text \<open>A token without escapes is the text it stands for.\<close>

definition plain_char :: "char \<Rightarrow> bool" where
  "plain_char c \<longleftrightarrow> c \<noteq> DQ \<and> c \<noteq> BS \<and> 32 \<le> byte_of c"

lemma plain_char_lits [simp]: "\<not> plain_char NL" "\<not> plain_char CHR 0x0D"
  by (simp_all add: plain_char_def byte_of_def)

lemma plain_raw_ok: "list_all plain_char t \<Longrightarrow> raw_ok t"
  unfolding raw_ok_def
proof (induction t)
  case Nil
  then show ?case by (simp add: scan_str_simps)
next
  case (Cons c t)
  then show ?case
    using scan_str_unit [of "[c]" "t @ [DQ]" t "[]"] unit_len_intros(3) [of c "t @ [DQ]"]
    by (simp add: plain_char_def)
qed

lemma plain_unquote: "list_all plain_char t \<Longrightarrow> json_unquote t = t"
proof (induction t)
  case Nil
  then show ?case by (subst json_unquote.simps) (simp add: unit_len_def)
next
  case (Cons c t)
  then show ?case by (simp add: json_unquote_plain plain_char_def)
qed


subsection \<open>Byte slices\<close>

text \<open>A \<open>[]byte\<close> is encoded in base 64, with padding.\<close>

definition b64_char :: "nat \<Rightarrow> char" where
  "b64_char n = char_of (if n < 26 then 65 + n else if n < 52 then 71 + n
     else if n < 62 then n - 4 else if n = 62 then 43 else 47)"

definition b64_val :: "char \<Rightarrow> nat option" where
  "b64_val c =
     (let b = byte_of c
      in if 65 \<le> b \<and> b \<le> 90 then Some (b - 65) else if 97 \<le> b \<and> b \<le> 122 then Some (b - 71)
         else if 48 \<le> b \<and> b \<le> 57 then Some (b + 4) else if b = 43 then Some 62
         else if b = 47 then Some 63 else None)"

fun b64_enc :: "bytes \<Rightarrow> string" where
  "b64_enc [] = []"
| "b64_enc [a] =
     [b64_char (byte_of a div 4), b64_char (byte_of a mod 4 * 16), CHR ''='', CHR ''='']"
| "b64_enc [a, b] =
     [b64_char (byte_of a div 4), b64_char (byte_of a mod 4 * 16 + byte_of b div 16),
      b64_char (byte_of b mod 16 * 4), CHR ''='']"
| "b64_enc (a # b # c # s) =
     [b64_char (byte_of a div 4), b64_char (byte_of a mod 4 * 16 + byte_of b div 16),
      b64_char (byte_of b mod 16 * 4 + byte_of c div 64), b64_char (byte_of c mod 64)] @ b64_enc s"

fun b64_groups :: "string \<Rightarrow> bytes option" where
  "b64_groups [] = Some []"
| "b64_groups (p # q # r # t # s) =
     (case (b64_val p, b64_val q) of
        (Some a, Some b) \<Rightarrow>
          (let x = char_of (a * 4 + b div 16)
           in case b64_val r of
                None \<Rightarrow> if r = CHR ''='' \<and> t = CHR ''='' \<and> s = [] then Some [x] else None
              | Some c \<Rightarrow>
                  (let y = char_of (b mod 16 * 16 + c div 4)
                   in case b64_val t of
                        None \<Rightarrow> if t = CHR ''='' \<and> s = [] then Some [x, y] else None
                      | Some d \<Rightarrow>
                          map_option (\<lambda>k. x # y # char_of (c mod 4 * 64 + d) # k) (b64_groups s)))
      | _ \<Rightarrow> None)"
| "b64_groups _ = None"

definition b64_dec :: "string \<Rightarrow> bytes option" where
  "b64_dec s = b64_groups (filter (\<lambda>c. c \<noteq> NL \<and> c \<noteq> CHR 0x0D) s)"

lemma b64_val_char [simp]: "n < 64 \<Longrightarrow> b64_val (b64_char n) = Some n"
  by (auto simp: b64_val_def b64_char_def Let_def)

lemma b64_val_pad [simp]: "b64_val CHR ''='' = None"
  by (simp add: b64_val_def byte_of_def)

lemma b64_char_plain [simp]: "n < 64 \<Longrightarrow> plain_char (b64_char n)"
  by (auto simp: plain_char_def b64_char_def byte_of_def simp flip: byte_of_inj)

lemma b64_parts: "byte_of a div 4 < 64" "byte_of a div 16 < 16" "byte_of a div 64 < 4"
  using byte_of_less [of a] by (simp_all add: less_mult_imp_div_less)

lemma pack_bound:
  fixes x y :: nat
  assumes "x < 4" "y < 16"
  shows "x * 16 + y < 64" "y * 4 + x < 64"
  using assms by linarith+

lemma b64_digits:
  "byte_of a div 4 < 64" "byte_of a mod 4 * 16 < 64" "byte_of b mod 16 * 4 < 64"
  "byte_of a mod 4 * 16 + byte_of b div 16 < 64" "byte_of b mod 16 * 4 + byte_of c div 64 < 64"
  "byte_of c mod 64 < 64"
  using pack_bound(1) [of "byte_of a mod 4" 0] pack_bound(2) [of 0 "byte_of b mod 16"]
    pack_bound(1) [OF _ b64_parts(2) [of b], of "byte_of a mod 4"]
    pack_bound(2) [OF b64_parts(3) [of c], of "byte_of b mod 16"]
  by (simp_all add: b64_parts)

lemma pack16: "y < 16 \<Longrightarrow> (x * 16 + y) div 16 = x" "y < 16 \<Longrightarrow> (x * 16 + y) mod 16 = y" for x y :: nat
  by simp_all

lemma pack4: "y < 4 \<Longrightarrow> (x * 4 + y) div 4 = x" "y < 4 \<Longrightarrow> (x * 4 + y) mod 4 = y" for x y :: nat
  by simp_all

lemma b64_join:
  "byte_of a div 4 * 4 + (byte_of a mod 4 * 16 + byte_of b div 16) div 16 = byte_of a"
  "(byte_of a mod 4 * 16 + byte_of b div 16) mod 16 * 16
     + (byte_of b mod 16 * 4 + byte_of c div 64) div 4 = byte_of b"
  "(byte_of b mod 16 * 4 + byte_of c div 64) mod 4 * 64 + byte_of c mod 64 = byte_of c"
  by (simp_all only: pack16 pack4 b64_parts div_mult_mod_eq)

lemma b64_join_short:
  "byte_of a div 4 * 4 + (byte_of a mod 4 * 16) div 16 = byte_of a"
  "(byte_of a mod 4 * 16 + byte_of b div 16) mod 16 * 16 + (byte_of b mod 16 * 4) div 4 = byte_of b"
  by (simp_all only: pack16 b64_parts div_mult_mod_eq nonzero_mult_div_cancel_right
      zero_neq_numeral [symmetric] not_False_eq_True)

lemma b64_enc_plain: "list_all plain_char (b64_enc s)"
  by (induction s rule: b64_enc.induct)
     (simp_all add: b64_digits plain_char_def [of "CHR ''=''"] byte_of_def [of "CHR ''=''"])

lemma b64_groups_enc: "b64_groups (b64_enc s) = Some s"
proof (induction s rule: b64_enc.induct)
  case (4 a b c s)
  then show ?case
    by (simp only: b64_enc.simps append.simps b64_groups.simps b64_val_char b64_digits prod.case
        option.case Let_def b64_join char_of_byte_of option.map)
next
  case (3 a b)
  show ?case
    by (simp only: b64_enc.simps b64_groups.simps b64_val_char b64_val_pad b64_digits prod.case
        option.case Let_def b64_join b64_join_short char_of_byte_of simp_thms if_True)
next
  case (2 a)
  show ?case
    by (simp only: b64_enc.simps b64_groups.simps b64_val_char b64_val_pad b64_digits prod.case
        option.case Let_def b64_join_short char_of_byte_of simp_thms if_True)
qed simp

theorem b64_dec_enc [codec_simps]: "b64_dec (b64_enc s) = Some s"
proof -
  have "c \<noteq> NL \<and> c \<noteq> CHR 0x0D" if "c \<in> set (b64_enc s)" for c
  proof -
    have "plain_char c" using b64_enc_plain [of s] that by (simp add: list_all_iff)
    then show ?thesis by auto
  qed
  then have "filter (\<lambda>c. c \<noteq> NL \<and> c \<noteq> CHR 0x0D) (b64_enc s) = b64_enc s"
    by (intro filter_True) blast
  then show ?thesis by (simp add: b64_dec_def b64_groups_enc)
qed

lemma length_b64_enc: "length (b64_enc s) = 4 * ((length s + 2) div 3)"
proof (induction s rule: b64_enc.induct)
  case (4 a b c s)
  have "(length s + 2 + 3) div 3 = Suc ((length s + 2) div 3)" by simp
  moreover have "length (a # b # c # s) + 2 = length s + 2 + 3" by simp
  ultimately show ?case using 4 by (simp only: b64_enc.simps) simp
qed simp_all


subsection \<open>Numbers\<close>

lemma dec_nat_numch: "list_all is_numch (dec_nat n)"
  using dec_nat_digits [of n] by (auto simp: list_all_iff is_numch_def)

lemma dropWhile_digits:
  assumes "list_all is_digit ds" "r = [] \<or> \<not> is_digit (hd r)"
  shows "dropWhile is_digit (ds @ r) = r" and "takeWhile is_digit (ds @ r) = ds"
proof -
  have "dropWhile is_digit r = r" "takeWhile is_digit r = []" using assms(2) by (cases r; simp)+
  with assms(1) show "dropWhile is_digit (ds @ r) = r" and "takeWhile is_digit (ds @ r) = ds"
    by (simp_all add: list_all_iff)
qed

lemma digit_char_0: "digit_char 0 = CHR ''0''"
  by (simp add: digit_char_def flip: byte_of_inj) (simp add: byte_of_def)

lemma valid_num_nat:
  assumes r: "r = [] \<or> \<not> is_digit (hd r)" and v: "valid_frac r"
  shows "valid_num (dec_nat n @ r)" and "valid_num (CHR ''-'' # dec_nat n @ r)"
proof -
  obtain c t where ct: "dec_nat n = c # t" by (cases "dec_nat n") auto
  then have dig: "is_digit c" "list_all is_digit t" using dec_nat_digits [of n] by auto
  then have "c \<noteq> CHR ''-''" by auto
  moreover have "c = CHR ''0'' \<Longrightarrow> t = []"
    using dec_nat_hd_zero [of n] ct by (auto simp: digit_char_0 dec_nat.simps [of 0])
  ultimately show "valid_num (dec_nat n @ r)" and "valid_num (CHR ''-'' # dec_nat n @ r)"
    using ct dig v dropWhile_digits [OF dig(2) r] by (auto simp: valid_num_def)
qed

lemma valid_num_Itoa:
  assumes "r = [] \<or> \<not> is_digit (hd r)" and "valid_frac r"
  shows "valid_num (Itoa i @ r)"
  using valid_num_nat [OF assms] by (simp add: Itoa_def)

lemma numch_Itoa: "list_all is_numch (Itoa i)"
  by (simp add: Itoa_def dec_nat_numch is_numch_def [of "CHR ''-''"])

lemma wf_Itoa [simp]: "valid_num (Itoa i)" "list_all is_numch (Itoa i)"
  using valid_num_Itoa [of "[]" i] numch_Itoa [of i] by (simp_all add: valid_frac_def)

lemma is_digit_plain: "is_digit c \<Longrightarrow> plain_char c"
  by (auto simp: is_digit_def plain_char_def byte_of_def)

lemma Itoa_plain: "list_all plain_char (Itoa i)"
proof -
  have "list_all plain_char (dec_nat n)" for n
    using dec_nat_digits [of n] by (auto simp: list_all_iff is_digit_plain)
  moreover have "plain_char CHR ''-''" by (simp add: plain_char_def byte_of_def)
  ultimately show ?thesis by (simp add: Itoa_def)
qed

text \<open>The value of a number token.\<close>

definition num_value :: "string \<Rightarrow> rat" where
  "num_value s =
     (let (neg, s1) = (case s of [] \<Rightarrow> (False, []) | c # t \<Rightarrow> if c = CHR ''-'' then (True, t) else (False, s));
          ip = takeWhile is_digit s1; s2 = dropWhile is_digit s1;
          (fp, s3) = (case s2 of [] \<Rightarrow> ([], [])
                      | c # t \<Rightarrow> if c = CHR ''.'' then (takeWhile is_digit t, dropWhile is_digit t) else ([], s2));
          ex = (case s3 of [] \<Rightarrow> 0
                | c # t \<Rightarrow> (case t of [] \<Rightarrow> 0
                    | d # u \<Rightarrow> if d = CHR ''-'' then - int (dec_val u)
                              else if d = CHR ''+'' then int (dec_val u) else int (dec_val t)));
          m = of_nat (dec_val (ip @ fp)) * 10 powi (ex - int (length fp))
      in if neg then - m else m)"

definition float_lit :: "rat \<Rightarrow> string" where
  "float_lit x =
     (let (p, q) = quotient_of x; n = log2 (nat q)
      in Itoa (p * 5 ^ n) @ (if n = 0 then [] else CHR ''e'' # CHR ''-'' # dec_nat n))"

lemma num_value_exp:
  assumes "r = [] \<and> e = 0 \<or> (r = CHR ''e'' # CHR ''-'' # dec_nat e)"
  shows "num_value (Itoa i @ r) = of_int i * 10 powi (- int e)"
proof -
  have r: "r = [] \<or> \<not> is_digit (hd r)"
    using assms by (auto simp: is_digit_def byte_of_def)
  note d = dropWhile_digits [OF dec_nat_digits r]
  have e: "(case r of [] \<Rightarrow> ([], []) | c # t \<Rightarrow> if c = CHR ''.'' then (takeWhile is_digit t, dropWhile is_digit t) else ([], r)) = ([], r)"
    using assms by auto
  have x: "(case r of [] \<Rightarrow> 0
                | c # t \<Rightarrow> (case t of [] \<Rightarrow> 0
                    | d # u \<Rightarrow> if d = CHR ''-'' then - int (dec_val u)
                              else if d = CHR ''+'' then int (dec_val u) else int (dec_val t))) = - int e"
    using assms by auto
  show ?thesis
  proof (cases "i < 0")
    case True
    then show ?thesis by (simp add: num_value_def Itoa_def d e x)
  next
    case False
    obtain c t where ct: "dec_nat (nat i) = c # t" by (cases "dec_nat (nat i)") auto
    then have "c \<noteq> CHR ''-''" using dec_nat_digits [of "nat i"] by auto
    then have "(case dec_nat (nat i) @ r of [] \<Rightarrow> (False, []) | c # t \<Rightarrow> if c = CHR ''-'' then (True, t) else (False, dec_nat (nat i) @ r))
      = (False, dec_nat (nat i) @ r)" using ct by simp
    with False show ?thesis by (simp add: num_value_def Itoa_def d e x)
  qed
qed

lemma log2_power [simp]: "log2 (2 ^ n) = n"
proof (induction n)
  case 0
  then show ?case by (subst log2.simps) simp
next
  case (Suc n)
  have "\<not> (2::nat) * 2 ^ n < 2" by simp
  with Suc show ?case by (subst log2.simps) simp
qed

lemma dvd_power2:
  assumes "0 < q" and "q dvd (2::int) ^ m"
  shows "\<exists>n. q = 2 ^ n"
  using assms
proof (induction m arbitrary: q)
  case 0
  then show ?case by (auto intro: exI [of _ 0])
next
  case (Suc m)
  show ?case
  proof (cases "even q")
    case True
    then obtain r where r: "q = 2 * r" by blast
    with Suc.prems have "0 < r" "r dvd 2 ^ m" by auto
    with Suc.IH obtain n where "r = 2 ^ n" by blast
    with r have "q = 2 ^ Suc n" by simp
    then show ?thesis by blast
  next
    case False
    then have "coprime q 2" by simp
    with Suc.prems have "q dvd 2 ^ m" by (simp add: coprime_dvd_mult_right_iff)
    with Suc show ?thesis by blast
  qed
qed

text \<open>The denominator of a double is a power of two.\<close>

lemma dyadic_denominator:
  assumes "x = of_int k * 2 powi e" and "quotient_of x = (p, q)"
  shows "\<exists>n. q = 2 ^ n"
proof -
  define m where "m = nat (- e)"
  obtain k' where k': "x = of_int k' / 2 ^ m"
  proof (cases "0 \<le> e")
    case True
    then have "x = of_int (k * 2 ^ nat e) / 2 ^ m"
      using assms(1) by (simp add: m_def power_int_def)
    then show thesis by (rule that)
  next
    case False
    then have e: "e = - int m" by (simp add: m_def)
    have "x = of_int k / 2 ^ m"
      unfolding assms(1) e by (simp only: power_int_minus power_int_of_nat divide_inverse)
    then show thesis by (rule that)
  qed
  have q: "0 < q" "x = of_int p / of_int q" "coprime p q"
    using assms(2) by (auto simp: quotient_of_denom_pos quotient_of_div quotient_of_coprime)
  then have "(of_int (p * 2 ^ m) :: rat) = of_int (k' * q)"
    using k' by (simp add: field_simps)
  then have "p * 2 ^ m = k' * q" by (simp only: of_int_eq_iff)
  then have "q dvd p * 2 ^ m" by simp
  with q(3) have "q dvd 2 ^ m" by (simp add: coprime_dvd_mult_right_iff coprime_commute)
  with q(1) show ?thesis by (rule dvd_power2)
qed

lemma is_f64_dyadic:
  assumes "is_f64 (Fin x)"
  shows "\<exists>k e. x = of_int k * 2 powi e"
proof -
  from assms have "x = fl 53 (- 1074) x"
    by (auto simp: fl64_def to_float_def Let_def split: if_splits)
  then show ?thesis
    by (cases "x = 0") (auto simp: fl_def ulp_def intro: exI [of _ 0])
qed

lemma float_lit_value:
  assumes "is_f64 (Fin x)"
  shows "num_value (float_lit x) = x"
proof -
  obtain p q where pq: "quotient_of x = (p, q)" by fastforce
  with is_f64_dyadic [OF assms] obtain n where n: "q = 2 ^ n"
    using dyadic_denominator by blast
  have x: "x = of_int p / of_int q" using pq by (simp add: quotient_of_div)
  have "num_value (float_lit x) = of_int (p * 5 ^ n) * 10 powi (- int n)"
    unfolding float_lit_def pq n
    by (simp add: nat_power_eq num_value_exp del: of_int_mult)
  also have "\<dots> = of_int p * 5 ^ n / 10 ^ n"
    by (simp add: power_int_minus field_simps)
  also have "(10::rat) ^ n = 5 ^ n * 2 ^ n"
    by (simp flip: power_mult_distrib)
  also have "of_int p * 5 ^ n / (5 ^ n * 2 ^ n) = x"
    by (simp add: x n)
  finally show ?thesis .
qed

lemma wf_float_lit [simp]: "valid_num (float_lit x)" "list_all is_numch (float_lit x)"
proof -
  obtain p q where pq: "quotient_of x = (p, q)" by fastforce
  let ?n = "log2 (nat q)"
  let ?r = "if ?n = 0 then [] else CHR ''e'' # CHR ''-'' # dec_nat ?n"
  have "?r = [] \<or> \<not> is_digit (hd ?r)" by (simp add: is_digit_def byte_of_def)
  moreover have "valid_frac ?r"
    by (simp add: valid_frac_def valid_exp_def dec_nat_digits)
  ultimately show "valid_num (float_lit x)"
    using valid_num_Itoa [of ?r "p * 5 ^ ?n"] by (simp add: float_lit_def pq Let_def)
  have "is_numch CHR ''e''" "is_numch CHR ''-''" by (simp_all add: is_numch_def)
  then show "list_all is_numch (float_lit x)"
    by (simp add: float_lit_def pq Let_def numch_Itoa dec_nat_numch)
qed


subsection \<open>Fields\<close>

definition enc_string :: "string \<Rightarrow> json" where
  "enc_string s = JStr (json_quote s)"

definition enc_int :: "int \<Rightarrow> json" where
  "enc_int i = JNum (Itoa i)"

definition enc_bytes :: "bytes \<Rightarrow> json" where
  "enc_bytes b = JStr (b64_enc b)"

definition enc_time :: "time \<Rightarrow> json" where
  "enc_time t = JStr (Itoa t)"

text \<open>Infinities and NaN have no JSON form: \<open>json.Marshal\<close> fails.\<close>

fun enc_float :: "float64 \<Rightarrow> json option" where
  "enc_float (Fin x) = Some (JNum (float_lit x))"
| "enc_float _ = None"

text \<open>
  A nil slice is written as \<open>null\<close>, an empty one as \<open>[]\<close>; a list does not tell them apart and
  the empty list is written as \<open>null\<close>. Both read back as no elements.
\<close>

definition enc_slice :: "('a \<Rightarrow> json) \<Rightarrow> 'a list \<Rightarrow> json" where
  "enc_slice f xs = (if xs = [] then JNull else JArr (map f xs))"

text \<open>
  A \<open>json.RawMessage\<close>: nil is written as \<open>null\<close>; anything else must be a JSON text and is
  written without its white space, \<open><\<close>, \<open>>\<close>, \<open>&\<close> and the line separators escaped.
\<close>

function html_token :: "string \<Rightarrow> string" where
  "html_token s =
     (case unit_len s of
        None \<Rightarrow> []
      | Some n \<Rightarrow>
          if is_line_sep s then line_sep_esc s @ html_token (drop 3 s)
          else if n = 1 then
            (if hd s \<in> {CHR ''<'', CHR ''>'', CHR ''&''} then esc_byte (hd s) else [hd s]) @ html_token (tl s)
          else take n s @ html_token (drop n s))"
  by pat_completeness auto
termination
  by (relation "measure length") (auto dest!: unit_len_bounds)

declare html_token.simps [simp del]

fun html_json :: "json \<Rightarrow> json" where
  "html_json (JStr t) = JStr (html_token t)"
| "html_json (JArr xs) = JArr (map html_json xs)"
| "html_json (JObj ms) = JObj (map (\<lambda>(k, v). (html_token k, html_json v)) ms)"
| "html_json j = j"

definition enc_raw :: "bytes \<Rightarrow> json option" where
  "enc_raw m = (if m = [] then Some JNull else map_option html_json (json_scan m))"

fun dec_string :: "json \<Rightarrow> string \<Rightarrow> string option" where
  "dec_string (JStr t) old = Some (json_unquote t)"
| "dec_string JNull old = Some old"
| "dec_string _ old = None"

fun dec_int :: "json \<Rightarrow> int \<Rightarrow> int option" where
  "dec_int (JNum t) old = ParseInt t"
| "dec_int JNull old = Some old"
| "dec_int _ old = None"

fun dec_bool :: "json \<Rightarrow> bool \<Rightarrow> bool option" where
  "dec_bool (JBool b) old = Some b"
| "dec_bool JNull old = Some old"
| "dec_bool _ old = None"

fun dec_bytes :: "json \<Rightarrow> bytes \<Rightarrow> bytes option" where
  "dec_bytes (JStr t) old = b64_dec (json_unquote t)"
| "dec_bytes JNull old = Some []"
| "dec_bytes _ old = None"

fun dec_time :: "json \<Rightarrow> time \<Rightarrow> time option" where
  "dec_time (JStr t) old = ParseInt t"
| "dec_time JNull old = Some old"
| "dec_time _ old = None"

fun dec_float :: "json \<Rightarrow> float64 \<Rightarrow> float64 option" where
  "dec_float (JNum t) old = (case fl64 (num_value t) of Fin x \<Rightarrow> Some (Fin x) | _ \<Rightarrow> None)"
| "dec_float JNull old = Some old"
| "dec_float _ old = None"

text \<open>The decoded elements of a slice, each from the zero value of the element type.\<close>

fun dec_all :: "(json \<Rightarrow> 'a option) \<Rightarrow> json list \<Rightarrow> 'a list option" where
  "dec_all f [] = Some []"
| "dec_all f (x # xs) =
     (case f x of None \<Rightarrow> None | Some y \<Rightarrow> map_option (\<lambda>ys. y # ys) (dec_all f xs))"

fun dec_slice :: "(json \<Rightarrow> 'a option) \<Rightarrow> json \<Rightarrow> 'a list option" where
  "dec_slice f (JArr xs) = dec_all f xs"
| "dec_slice f JNull = Some []"
| "dec_slice f _ = None"

text \<open>A \<open>json.RawMessage\<close> keeps the text of the value, \<open>null\<close> included.\<close>

definition dec_raw :: "json \<Rightarrow> bytes" where
  "dec_raw j = json_text j"

text \<open>The members of an object, decoded one after the other into the struct.\<close>

fun dec_members :: "(string \<Rightarrow> json \<Rightarrow> 'a \<Rightarrow> 'a option) \<Rightarrow> (string \<times> json) list \<Rightarrow> 'a \<Rightarrow> 'a option" where
  "dec_members f [] a = Some a"
| "dec_members f ((k, v) # ms) a =
     (case f (ToLower (json_unquote k)) v a of None \<Rightarrow> None | Some a' \<Rightarrow> dec_members f ms a')"

fun dec_struct :: "(string \<Rightarrow> json \<Rightarrow> 'a \<Rightarrow> 'a option) \<Rightarrow> json \<Rightarrow> 'a \<Rightarrow> 'a option" where
  "dec_struct f (JObj ms) a = dec_members f ms a"
| "dec_struct f JNull a = Some a"
| "dec_struct f _ a = None"

definition unmarshal :: "(string \<Rightarrow> json \<Rightarrow> 'a \<Rightarrow> 'a option) \<Rightarrow> 'a \<Rightarrow> bytes \<Rightarrow> 'a option" where
  "unmarshal f zero b = (case json_scan b of None \<Rightarrow> None | Some j \<Rightarrow> dec_struct f j zero)"


subsection \<open>What is encoded is well formed and reads back\<close>

lemma raw_ok_cases:
  assumes "raw_ok t"
  obtains (nil) "t = []" | (unit) n where "unit_len t = Some n" "hd t \<noteq> DQ" "raw_ok (drop n t)" "t \<noteq> []"
proof (cases t)
  case (Cons c u)
  from assms have "scan_str (t @ [DQ]) = Some (t, [])" by (simp add: raw_ok_def)
  then show ?thesis
  proof (cases rule: scan_str_cases)
    case quote
    with Cons show ?thesis by simp
  next
    case (unit n k')
    then have n: "0 < n" "n \<le> Suc (length t)" using unit_len_bounds [of "t @ [DQ]" n] by auto
    have "t = take n (t @ [DQ]) @ k'" using unit by simp
    then have "length t = length (take n (t @ [DQ])) + length k'" by (metis length_append)
    then have "n \<le> length t" using n by auto
    then have "unit_len t = Some n" "take n (t @ [DQ]) = take n t" "drop n (t @ [DQ]) = drop n t @ [DQ]"
      using unit(3) unit_len_take [OF unit(3), of "drop n t"] by simp_all
    moreover have "k' = drop n t"
      using \<open>t = take n (t @ [DQ]) @ k'\<close> \<open>n \<le> length t\<close>
      by (metis append_take_drop_id calculation(2) same_append_eq)
    ultimately show ?thesis using unit Cons by (intro that(2) [of n]) (auto simp: raw_ok_def)
  qed
qed simp

lemma raw_ok_append: "raw_ok t \<Longrightarrow> scan_str s = Some (k, r) \<Longrightarrow> scan_str (t @ s) = Some (t @ k, r)"
proof (induction "length t" arbitrary: t rule: less_induct)
  case less
  from less.prems(1) show ?case
  proof (cases rule: raw_ok_cases)
    case nil
    with less show ?thesis by simp
  next
    case (unit n)
    note b = unit_len_bounds [OF unit(1)]
    have "scan_str (drop n t @ s) = Some (drop n t @ k, r)"
      using less unit b by (intro less.hyps) auto
    with unit b scan_str_unit [of "take n t" "drop n t @ s" "drop n t @ k" r]
      unit_len_extend [OF unit(1), of s]
    show ?thesis by (simp add: hd_take flip: append_assoc)
  qed
qed

lemma raw_ok_tl:
  assumes "raw_ok (c # t)" "c \<noteq> BS"
  shows "raw_ok t"
  using assms(1)
proof (cases rule: raw_ok_cases)
  case (unit n)
  from unit(1) assms(2) have "n = 1" by (auto elim: unit_len_cases)
  with unit show ?thesis by simp
qed simp

lemma raw_ok_line_sep:
  assumes "raw_ok t" "is_line_sep t"
  shows "raw_ok (drop 3 t)"
proof -
  have "t = take 3 t @ drop 3 t" by simp
  moreover from assms(2) obtain d where "take 3 t = [CHR 0xE2, CHR 0x80, d]" "d \<noteq> BS"
    by (auto simp: is_line_sep_def)
  ultimately have t: "t = CHR 0xE2 # CHR 0x80 # d # drop 3 t" and d: "d \<noteq> BS" by simp_all
  have "raw_ok (CHR 0xE2 # CHR 0x80 # d # drop 3 t)" using assms(1) t by simp
  then have "raw_ok (CHR 0x80 # d # drop 3 t)" by (rule raw_ok_tl) simp
  then have "raw_ok (d # drop 3 t)" by (rule raw_ok_tl) simp
  then show ?thesis using d by (rule raw_ok_tl)
qed

lemma raw_ok_html [simp]: "raw_ok t \<Longrightarrow> raw_ok (html_token t)"
proof (induction t rule: html_token.induct)
  case (1 t)
  from "1.prems" show ?case
  proof (cases rule: raw_ok_cases)
    case nil
    then show ?thesis by (subst html_token.simps) (simp add: unit_len_def raw_ok_def scan_str_simps)
  next
    case (unit n)
    show ?thesis
    proof (cases "is_line_sep t")
      case True
      then obtain h where h: "line_sep_esc t = BS # CHR ''u'' # h" "length h = 4" "list_all is_hex h"
        by (rule line_sep_cases)
      have "raw_ok (html_token (drop 3 t))"
        using 1 unit True raw_ok_line_sep by blast
      then show ?thesis
        using unit True h by (simp add: html_token.simps [of t] raw_ok_def scan_str_hex)
    next
      case False
      have IH: "n = 1 \<Longrightarrow> raw_ok (html_token (tl t))" "n \<noteq> 1 \<Longrightarrow> raw_ok (html_token (drop n t))"
        using 1 unit False by (auto simp: drop_Suc)
      show ?thesis
      proof (cases "n = 1")
        case True
        then have "raw_ok (html_token (tl t))" by (rule IH(1))
        then have tl: "scan_str (html_token (tl t) @ [DQ]) = Some (html_token (tl t), [])"
          by (simp add: raw_ok_def)
        have "scan_str (hd t # html_token (tl t) @ [DQ]) = Some (hd t # html_token (tl t), [])"
          using unit True tl unit_len_take [OF unit(1), of "html_token (tl t) @ [DQ]"]
            scan_str_unit [of "[hd t]", OF _ _ _ tl] by (cases t) auto
        with unit True False scan_str_esc_byte [OF tl, of "hd t"] show ?thesis
          by (simp add: html_token.simps [of t] raw_ok_def)
      next
        case n: False
        then have "raw_ok (html_token (drop n t))" by (rule IH(2))
        then have "scan_str (html_token (drop n t) @ [DQ]) = Some (html_token (drop n t), [])"
          by (simp add: raw_ok_def)
        with unit n False unit_len_bounds [OF unit(1)]
          unit_len_take [OF unit(1), of "html_token (drop n t) @ [DQ]"]
          scan_str_unit [of "take n t" "html_token (drop n t) @ [DQ]"]
        show ?thesis by (simp add: html_token.simps [of t] raw_ok_def hd_take)
      qed
    qed
  qed
qed

lemma wf_html_json [simp]: "wf_json j \<Longrightarrow> wf_json (html_json j)"
  by (induction j rule: html_json.induct) (auto simp: list_all_iff)

text \<open>Whatever the scanner accepts is well formed.\<close>

lemma numch_takeWhile: "list_all is_numch (takeWhile is_numch s)"
  by (auto simp: list_all_iff dest: set_takeWhileD)

lemma parse_value_wf_step:
  assumes elems: "\<And>s xs r. parse_elems n s = Some (xs, r) \<Longrightarrow> list_all wf_json xs"
    and members: "\<And>s ms r. parse_members n s = Some (ms, r) \<Longrightarrow> list_all (\<lambda>(k, v). raw_ok k \<and> wf_json v) ms"
    and ok: "parse_value (Suc n) s = Some (j, r)"
  shows "wf_json j"
proof -
  from ok obtain c t where s: "skip_ws s = c # t" by (cases "skip_ws s") auto
  show ?thesis
  proof (cases "c = CHR ''['' \<or> c = CHR ''{''")
    case True
    with ok s obtain d u where t: "skip_ws t = d # u" by (cases "skip_ws t") auto
    with True ok s show ?thesis by (auto split: if_splits dest: elems members)
  next
    case False
    with ok s numch_takeWhile [of "c # t"] show ?thesis
      by (auto split: if_splits dest: scan_str_raw_ok simp del: takeWhile.simps dropWhile.simps)
  qed
qed

lemma parse_wf:
  "(\<forall>s j r. parse_value n s = Some (j, r) \<longrightarrow> wf_json j) \<and>
   (\<forall>s xs r. parse_elems n s = Some (xs, r) \<longrightarrow> list_all wf_json xs) \<and>
   (\<forall>s ms r. parse_members n s = Some (ms, r) \<longrightarrow> list_all (\<lambda>(k, v). raw_ok k \<and> wf_json v) ms)"
proof (induction n)
  case 0
  then show ?case by simp
next
  case (Suc n)
  have "wf_json j" if "parse_value (Suc n) s = Some (j, r)" for s j r
    using Suc that by (blast intro: parse_value_wf_step)
  moreover have "list_all wf_json xs" if ok: "parse_elems (Suc n) s = Some (xs, r)" for s xs r
  proof -
    from ok obtain y z d u where z: "parse_value n s = Some (y, z)" "skip_ws z = d # u"
      by (auto split: option.splits list.splits)
    with Suc have "wf_json y" by blast
    moreover have "parse_elems n u = Some (ys, r) \<Longrightarrow> list_all wf_json ys" for ys
      using Suc by blast
    ultimately show ?thesis using ok z by (auto split: if_splits)
  qed
  moreover have "list_all (\<lambda>(k, v). raw_ok k \<and> wf_json v) ms" if ok: "parse_members (Suc n) s = Some (ms, r)" for s ms r
  proof -
    from ok obtain t k z u where t: "skip_ws s = DQ # t" "scan_str t = Some (k, z)" "skip_ws z = CHR '':'' # u"
      by (auto split: option.splits list.splits if_splits)
    with ok obtain y w d v where y: "parse_value n u = Some (y, w)" "skip_ws w = d # v"
      by (auto split: option.splits list.splits if_splits)
    with Suc t have "wf_json y" "raw_ok k" by (blast dest: scan_str_raw_ok)+
    moreover have "parse_members n v = Some (ns, r) \<Longrightarrow> list_all (\<lambda>(k, v). raw_ok k \<and> wf_json v) ns" for ns
      using Suc by blast
    ultimately show ?thesis using ok t y by (auto split: if_splits)
  qed
  ultimately show ?case by blast
qed

lemma json_scan_wf:
  assumes "json_scan s = Some j"
  shows "wf_json j"
proof -
  from assms obtain r where "parse_value (Suc (length s)) s = Some (j, r)"
    by (auto simp: json_scan_def split: option.splits if_splits simp del: parse_value.simps)
  then show ?thesis using parse_wf by blast
qed

lemma wf_enc [simp]:
  "wf_json (enc_string s)" "wf_json (enc_int i)" "wf_json (enc_bytes b)" "wf_json (enc_time t)"
  "enc_float x = Some j \<Longrightarrow> wf_json j"
  "enc_raw m = Some j \<Longrightarrow> wf_json j"
  by (auto simp: enc_string_def enc_int_def enc_bytes_def enc_time_def enc_raw_def
      plain_raw_ok b64_enc_plain Itoa_plain elim!: enc_float.elims dest: json_scan_wf split: if_splits)

lemma wf_enc_slice: "(\<And>x. x \<in> set xs \<Longrightarrow> wf_json (f x)) \<Longrightarrow> wf_json (enc_slice f xs)"
  by (simp add: enc_slice_def list_all_iff)

lemma dec_enc [codec_simps]:
  "dec_string (enc_string s) old = Some s"
  "in_int64 i \<Longrightarrow> dec_int (enc_int i) oi = Some i"
  "dec_bytes (enc_bytes b) ob = Some b"
  "in_int64 t \<Longrightarrow> dec_time (enc_time t) ot = Some t"
  by (simp_all add: enc_string_def enc_int_def enc_bytes_def enc_time_def json_unquote_quote
      plain_unquote b64_enc_plain b64_dec_enc)

lemma dec_enc_float [codec_simps]:
  assumes "enc_float x = Some j" and "is_f64 x"
  shows "dec_float j old = Some x"
  using assms by (cases x) (auto simp: float_lit_value)

lemma dec_all_map:
  assumes "\<And>x. x \<in> set xs \<Longrightarrow> g (f x) = Some x"
  shows "dec_all g (map f xs) = Some xs"
  using assms by (induction xs) auto

lemma dec_enc_slice [codec_simps]:
  assumes "\<And>x. x \<in> set xs \<Longrightarrow> g (f x) = Some x"
  shows "dec_slice g (enc_slice f xs) = Some xs"
  using assms by (simp add: enc_slice_def dec_all_map)

lemma unmarshal_text:
  assumes "wf_json j"
  shows "unmarshal f zero (json_text j) = dec_struct f j zero"
  using assms by (simp add: unmarshal_def json_scan_text)

end
