(* ===== verification/Go_Path.thy ===== *)
theory Go_Path
  imports Go_Strings
begin

section \<open>Lexical path handling\<close>

text \<open>
  The functions of \<open>path/filepath\<close> the program calls, for a platform whose separator is the
  slash: \<open>Clean\<close>, \<open>Join\<close>, \<open>Base\<close> and \<open>Abs\<close>. They work on the text of a path only.
\<close>

abbreviation SL :: char where "SL \<equiv> CHR ''/''"

text \<open>One element of a path, pushed on the reversed stack of the elements kept so far.\<close>

definition clean_step :: "bool \<Rightarrow> string list \<Rightarrow> string \<Rightarrow> string list" where
  "clean_step rooted st w =
     (if w = [] \<or> w = ''.'' then st
      else if w = ''..'' then
        (case st of
           [] \<Rightarrow> if rooted then [] else [w]
         | v # vs \<Rightarrow> if v = ''..'' then w # st else vs)
      else w # st)"

definition Clean :: "string \<Rightarrow> string" where
  "Clean p =
     (let rooted = HasPrefix p [SL];
          ws = rev (foldl (clean_step rooted) [] (Split p SL))
      in if rooted then SL # Join ws [SL] else if ws = [] then ''.'' else Join ws [SL])"

definition path_Join :: "string list \<Rightarrow> string" where
  "path_Join ws = (let vs = filter (\<lambda>w. w \<noteq> []) ws in if vs = [] then [] else Clean (Join vs [SL]))"

definition Base :: "string \<Rightarrow> string" where
  "Base p =
     (if p = [] then ''.''
      else let b = rev (takeWhile (\<lambda>c. c \<noteq> SL) (dropWhile (\<lambda>c. c = SL) (rev p)))
           in if b = [] then [SL] else b)"

text \<open>\<open>Abs\<close> resolves a relative path against the working directory \<open>wd\<close>.\<close>

definition Abs :: "string \<Rightarrow> string \<Rightarrow> string" where
  "Abs wd p = (if HasPrefix p [SL] then Clean p else path_Join [wd, p])"

lemma Base_no_slash: "Base p \<noteq> [SL] \<Longrightarrow> SL \<notin> set (Base p)"
  by (auto simp: Base_def Let_def dest: set_takeWhileD split: if_splits)



subsection \<open>Cleaned rooted paths\<close>

text \<open>An ordinary path element: a name that stands for itself.\<close>

definition ordinary :: "string \<Rightarrow> bool" where
  "ordinary w \<longleftrightarrow> w \<noteq> [] \<and> w \<noteq> ''.'' \<and> w \<noteq> ''..'' \<and> SL \<notin> set w"

lemma Split_append: "Split (d @ sep # b) sep = Split d sep @ Split b sep"
proof (induction d)
  case (Cons c d)
  then show ?case using Split_not_Nil [of d sep] by (cases "Split d sep") simp_all
qed simp

lemma Split_elements: "w \<in> set (Split p sep) \<Longrightarrow> sep \<notin> set w"
  by (induction p arbitrary: w) (auto split: if_splits list.splits)

lemma Split_ordinary: "SL \<notin> set b \<Longrightarrow> Split b SL = [b]"
  by (rule Split_no_sep)

lemma Split_Join: "ws \<noteq> [] \<Longrightarrow> list_all ordinary ws \<Longrightarrow> Split (Join ws [SL]) SL = ws"
proof (induction ws rule: induct_list012)
  case (3 w v ws)
  then show ?case by (simp add: Split_append Split_ordinary ordinary_def)
qed (simp_all add: Split_ordinary ordinary_def)

lemma clean_step_ordinary: "ordinary w \<Longrightarrow> clean_step r st w = w # st"
  by (simp add: clean_step_def ordinary_def)

lemma clean_ordinary: "list_all ordinary ws \<Longrightarrow> foldl (clean_step r) st ws = rev ws @ st"
  by (induction ws arbitrary: st) (simp_all add: clean_step_ordinary)

lemma clean_rooted_ordinary:
  "list_all ordinary st \<Longrightarrow> (\<And>w. w \<in> set ws \<Longrightarrow> SL \<notin> set w) \<Longrightarrow> list_all ordinary (foldl (clean_step True) st ws)"
proof (induction ws arbitrary: st)
  case (Cons w ws)
  have "w \<noteq> [] \<Longrightarrow> w \<noteq> ''.'' \<Longrightarrow> w \<noteq> ''..'' \<Longrightarrow> ordinary w"
    using Cons.prems(2) [of w] by (simp add: ordinary_def)
  then have "list_all ordinary (clean_step True st w)"
    using Cons.prems(1) by (cases st) (auto simp: clean_step_def)
  then show ?case using Cons.IH Cons.prems(2) by simp
qed simp

text \<open>The elements of a rooted path after cleaning.\<close>

definition elements :: "string \<Rightarrow> string list" where
  "elements p = rev (foldl (clean_step True) [] (Split p SL))"

lemma elements_ordinary: "list_all ordinary (elements p)"
  unfolding elements_def list_all_rev by (rule clean_rooted_ordinary) (simp_all add: Split_elements)

lemma Clean_rooted: "HasPrefix p [SL] \<Longrightarrow> Clean p = SL # Join (elements p) [SL]"
  by (simp add: Clean_def Let_def elements_def)

lemma elements_of_clean: "list_all ordinary ws \<Longrightarrow> elements (SL # Join ws [SL]) = ws"
proof (cases "ws = []")
  case True
  then show ?thesis by (simp add: elements_def clean_step_def)
next
  case False
  assume ok: "list_all ordinary ws"
  have "Split (SL # Join ws [SL]) SL = [] # ws" using Split_Join [OF False ok] by simp
  moreover have "clean_step True [] [] = []" by (simp add: clean_step_def)
  ultimately show ?thesis using clean_ordinary [OF ok, of True "[]"] by (simp add: elements_def)
qed

lemma Clean_Clean_rooted: "HasPrefix p [SL] \<Longrightarrow> Clean (Clean p) = Clean p"
proof -
  assume p: "HasPrefix p [SL]"
  have "HasPrefix (SL # Join (elements p) [SL]) [SL]" by (simp add: HasPrefix_def)
  from Clean_rooted [OF this] show ?thesis
    by (simp add: Clean_rooted [OF p] elements_of_clean [OF elements_ordinary])
qed

lemma elements_child: "ordinary b \<Longrightarrow> elements (d @ SL # b) = elements d @ [b]"
proof -
  assume b: "ordinary b"
  then have "Split b SL = [b]" by (intro Split_ordinary) (simp add: ordinary_def)
  with b show ?thesis by (simp add: elements_def Split_append clean_step_ordinary)
qed

lemma Join_snoc: "Join (ws @ [b]) sep = (if ws = [] then b else Join ws sep @ sep @ b)"
  by (induction ws rule: induct_list012) simp_all

text \<open>An ordinary name joined to a rooted directory is a child of that directory, made absolute or not.\<close>

lemma Abs_child:
  assumes "HasPrefix d [SL]" "ordinary b"
  shows "Abs wd (path_Join [d, b]) = (if elements d = [] then SL # b else Clean d @ SL # b)"
proof -
  have d: "HasPrefix (d @ SL # b) [SL]" "d \<noteq> []" using assms(1) by (cases d; simp add: HasPrefix_def)+
  have j: "path_Join [d, b] = Clean (d @ SL # b)"
    using d(2) assms(2) by (simp add: path_Join_def ordinary_def)
  have "HasPrefix (Clean (d @ SL # b)) [SL]" unfolding Clean_rooted [OF d(1)] by (simp add: HasPrefix_def)
  then have "Abs wd (path_Join [d, b]) = Clean (d @ SL # b)"
    by (simp add: Abs_def j Clean_Clean_rooted [OF d(1)])
  then show ?thesis
    by (simp add: Clean_rooted [OF d(1)] Clean_rooted [OF assms(1)] elements_child [OF assms(2)] Join_snoc)
qed

text \<open>The base name of a path that ends in an extension is ordinary.\<close>

lemma Base_ordinary:
  assumes "HasSuffix (ToLower f) (CHR ''.'' # ext)" "ext \<noteq> []" "SL \<notin> set ext" "2 \<le> length ext"
  shows "ordinary (Base f)"
proof -
  let ?n = "Suc (length ext)"
  from assms(1) have n: "?n \<le> length f" and e: "drop (length f - ?n) (map lower_char f) = CHR ''.'' # ext"
    by (simp_all add: HasSuffix_def ToLower_def)
  define a where "a = take (length f - ?n) f"
  define b where "b = drop (length f - ?n) f"
  have f: "f = a @ b" and b: "map lower_char b = CHR ''.'' # ext" "length b = ?n"
    using n e by (simp_all add: a_def b_def drop_map)
  have "lower_char SL = SL" by (simp add: lower_char_def byte_of_def)
  then have "SL \<in> set b \<Longrightarrow> SL \<in> set (CHR ''.'' # ext)" by (metis b(1) image_eqI set_map)
  then have nb: "SL \<notin> set b" using assms(3) by auto
  have "b \<noteq> []" using b(2) by auto
  then have "dropWhile (\<lambda>c. c = SL) (rev f) = rev f"
    using nb f by (cases b rule: rev_cases) auto
  then have base: "Base f = rev (takeWhile (\<lambda>c. c \<noteq> SL) (rev f))"
    using f \<open>b \<noteq> []\<close> nb by (auto simp: Base_def Let_def) (cases b rule: rev_cases; auto)
  have "takeWhile (\<lambda>c. c \<noteq> SL) (rev b @ rev a) = rev b @ takeWhile (\<lambda>c. c \<noteq> SL) (rev a)"
    using nb by (intro takeWhile_append2) auto
  then have "Base f = rev (takeWhile (\<lambda>c. c \<noteq> SL) (rev a)) @ b"
    unfolding base by (subst f) simp
  moreover have "SL \<notin> set (takeWhile (\<lambda>c. c \<noteq> SL) (rev a))" by (auto dest: set_takeWhileD)
  moreover have "3 \<le> length b" using b(2) assms(4) by simp
  ultimately show ?thesis using nb by (auto simp: ordinary_def append_eq_Cons_conv)
qed

end
