(* ===== verification/Kv_Interface.thy ===== *)
theory Kv_Interface
  imports Go_Strings
begin

section \<open>What the registries rely on in the store\<close>

text \<open>
  The controllers use the store through \<open>Get\<close>, \<open>Put\<close>, \<open>Delete\<close> and \<open>Keys\<close> only. The locale
  \<open>kv_store\<close> states the contract they rely on; \<open>Wal_Store\<close> interprets it. A registry keeps
  its objects under a key prefix, each as a JSON text. The locale \<open>table\<close> adds the prefix
  and the codec and proves once what all three registries need: reading back what was
  written, that tables with different prefixes do not touch each other, and what the loop
  that lists a table returns. \<open>list_entries\<close> is that loop, which \<open>ListModels\<close>, \<open>ListNodes\<close>
  and \<open>ListReplicas\<close> share.
\<close>

text \<open>
  The loop over all keys: keys without the prefix are skipped, and so is a key that was
  deleted since the snapshot; the first entry that does not decode ends the loop with an
  error.
\<close>

fun list_entries :: "string \<Rightarrow> (bytes \<Rightarrow> 'a option) \<Rightarrow> string \<Rightarrow> (string \<Rightarrow> bytes option) \<Rightarrow> string list \<Rightarrow> 'a list result" where
  "list_entries pre dec label g [] = Inr []"
| "list_entries pre dec label g (k # ks) =
     (if \<not> HasPrefix k pre then list_entries pre dec label g ks
      else case g k of
        None \<Rightarrow> list_entries pre dec label g ks
      | Some raw \<Rightarrow>
          (case dec raw of
             None \<Rightarrow> Inl (''unmarshal '' @ label @ '' '' @ Quote k @ '': invalid JSON'')
           | Some x \<Rightarrow> (case list_entries pre dec label g ks of Inl e \<Rightarrow> Inl e | Inr xs \<Rightarrow> Inr (x # xs))))"

definition entry_keys :: "string \<Rightarrow> (string \<Rightarrow> bytes option) \<Rightarrow> string list \<Rightarrow> string list" where
  "entry_keys pre g ks = filter (\<lambda>k. HasPrefix k pre \<and> g k \<noteq> None) ks"

lemma list_entries_ok:
  assumes "\<And>k. k \<in> set (entry_keys pre g ks) \<Longrightarrow> dec (the (g k)) \<noteq> None"
  shows "list_entries pre dec label g ks = Inr (map (\<lambda>k. the (dec (the (g k)))) (entry_keys pre g ks))"
  using assms
proof (induction ks)
  case (Cons k ks)
  then have IH: "list_entries pre dec label g ks = Inr (map (\<lambda>k. the (dec (the (g k)))) (entry_keys pre g ks))"
    by (auto simp: entry_keys_def split: if_splits)
  show ?case
  proof (cases "HasPrefix k pre \<and> g k \<noteq> None")
    case True
    then have "k \<in> set (entry_keys pre g (k # ks))" by (simp add: entry_keys_def)
    then have "dec (the (g k)) \<noteq> None" by (rule Cons.prems)
    with True IH show ?thesis by (auto simp: entry_keys_def)
  next
    case False
    with IH show ?thesis by (auto simp: entry_keys_def)
  qed
qed (simp add: entry_keys_def)

lemma list_entries_err:
  assumes "k \<in> set (entry_keys pre g ks)" and "dec (the (g k)) = None"
  shows "\<exists>e. list_entries pre dec label g ks = Inl e"
  using assms by (induction ks) (auto simp: entry_keys_def split: option.splits sum.splits if_splits)

lemma list_entries_Inr_iff:
  "list_entries pre dec label g ks = Inr xs \<longleftrightarrow>
     (\<forall>k \<in> set (entry_keys pre g ks). dec (the (g k)) \<noteq> None) \<and>
     xs = map (\<lambda>k. the (dec (the (g k)))) (entry_keys pre g ks)"
  by (metis Inl_Inr_False Inr_inject list_entries_err list_entries_ok)

text \<open>
  The invariant of a table: every row decodes, and the object it holds carries the
  identifier that the row is stored under.
\<close>

definition rows_ok :: "string \<Rightarrow> (bytes \<Rightarrow> 'a option) \<Rightarrow> ('a \<Rightarrow> string) \<Rightarrow> (string \<Rightarrow> bytes option) \<Rightarrow> bool" where
  "rows_ok pre dec idof g \<longleftrightarrow> (\<forall>i b. g (pre @ i) = Some b \<longrightarrow> (\<exists>x. dec b = Some x \<and> idof x = i))"

lemma rows_okD: "rows_ok pre dec idof g \<Longrightarrow> g (pre @ i) = Some b \<Longrightarrow> \<exists>x. dec b = Some x \<and> idof x = i"
  by (auto simp: rows_ok_def)

lemma rows_ok_cong:
  "(\<And>i. g (pre @ i) = g' (pre @ i)) \<Longrightarrow> rows_ok pre dec idof g = rows_ok pre dec idof g'"
  by (simp add: rows_ok_def)

locale kv_store =
  fixes get :: "string \<Rightarrow> 's \<Rightarrow> bytes option"
    and keys :: "'s \<Rightarrow> string list"
    and put :: "string \<Rightarrow> bytes \<Rightarrow> 's \<Rightarrow> 's"
    and del :: "string \<Rightarrow> 's \<Rightarrow> 's"
    and invar :: "'s \<Rightarrow> bool"
  assumes get_put: "invar s \<Longrightarrow> k \<noteq> [] \<Longrightarrow> get k' (put k v s) = (if k' = k then Some v else get k' s)"
    and get_del: "invar s \<Longrightarrow> k \<noteq> [] \<Longrightarrow> get k' (del k s) = (if k' = k then None else get k' s)"
    and keys_iff: "invar s \<Longrightarrow> k \<in> set (keys s) \<longleftrightarrow> get k s \<noteq> None"
    and keys_distinct: "invar s \<Longrightarrow> distinct (keys s)"
    and invar_put: "invar s \<Longrightarrow> k \<noteq> [] \<Longrightarrow> invar (put k v s)"
    and invar_del: "invar s \<Longrightarrow> k \<noteq> [] \<Longrightarrow> invar (del k s)"
begin

lemma keys_put: "invar s \<Longrightarrow> k \<noteq> [] \<Longrightarrow> set (keys (put k v s)) = insert k (set (keys s))"
  by (auto simp: keys_iff invar_put get_put split: if_splits)

lemma keys_del: "invar s \<Longrightarrow> k \<noteq> [] \<Longrightarrow> set (keys (del k s)) = set (keys s) - {k}"
  by (auto simp: keys_iff invar_del get_del split: if_splits)

lemma put_put_get: "invar s \<Longrightarrow> k \<noteq> [] \<Longrightarrow> get k' (put k v (put k w s)) = get k' (put k v s)"
  by (simp add: get_put invar_put)

end

text \<open>
  \<open>enc\<close> is \<open>json.Marshal\<close>, \<open>None\<close> when it fails; \<open>dec\<close> is \<open>json.Unmarshal\<close> into a zero value;
  \<open>norm x\<close> is what comes back for \<open>x\<close>; \<open>wf\<close> are the values whose numbers fit their types.
\<close>

locale table = kv_store +
  fixes pre :: string
    and enc :: "'a \<Rightarrow> bytes option"
    and dec :: "bytes \<Rightarrow> 'a option"
    and norm :: "'a \<Rightarrow> 'a"
    and wf :: "'a \<Rightarrow> bool"
  assumes pre_ne: "pre \<noteq> []"
    and dec_enc: "wf x \<Longrightarrow> enc x = Some b \<Longrightarrow> dec b = Some (norm x)"
begin

lemma read_own_write:
  assumes "invar s" "wf x" "enc x = Some b"
  shows "map_option dec (get (pre @ i) (put (pre @ i) b s)) = Some (Some (norm x))"
  using assms dec_enc [OF assms(2,3)] by (simp add: get_put pre_ne)

lemma other_row:
  assumes "invar s" "i \<noteq> j"
  shows "get (pre @ i) (put (pre @ j) b s) = get (pre @ i) s"
    and "get (pre @ i) (del (pre @ j) s) = get (pre @ i) s"
  using assms by (simp_all add: get_put get_del pre_ne)

lemma other_table:
  assumes "invar s" "\<not> HasPrefix k pre" 
  shows "get k (put (pre @ j) b s) = get k s" and "get k (del (pre @ j) s) = get k s"
  using assms by (auto simp: get_put get_del pre_ne)

lemma entry_keys_rows:
  assumes "invar s" "set ks = set (keys s)"
  shows "set (entry_keys pre (\<lambda>k. get k s) ks) = {pre @ i | i. get (pre @ i) s \<noteq> None}"
  using assms
  by (auto simp: entry_keys_def keys_iff HasPrefix_def) (metis append_take_drop_id option.distinct(1))

lemma list_rows:
  assumes "invar s" "mset ks = mset (keys s)"
    and "list_entries pre dec label (\<lambda>k. get k s) ks = Inr xs"
  shows "x \<in> set xs \<longleftrightarrow> (\<exists>i b. get (pre @ i) s = Some b \<and> dec b = Some x)"
proof -
  have ks: "set ks = set (keys s)" using assms(2) by (metis mset_eq_setD)
  from assms(3) have xs: "xs = map (\<lambda>k. the (dec (the (get k s)))) (entry_keys pre (\<lambda>k. get k s) ks)"
    and ok: "\<forall>k \<in> set (entry_keys pre (\<lambda>k. get k s) ks). dec (the (get k s)) \<noteq> None"
    by (simp_all add: list_entries_Inr_iff)
  show ?thesis
    using ok unfolding xs set_map entry_keys_rows [OF assms(1) ks]
    by (auto simp: image_iff) (metis option.sel option.distinct(1) option.exhaust)+
qed

lemma rows_ok_put:
  assumes "invar s" "rows_ok pre dec idof (\<lambda>k. get k s)" "dec b = Some x" "idof x = i"
  shows "rows_ok pre dec idof (\<lambda>k. get k (put (pre @ i) b s))"
  using assms by (auto simp: rows_ok_def get_put pre_ne)

lemma rows_ok_del:
  assumes "invar s" "rows_ok pre dec idof (\<lambda>k. get k s)"
  shows "rows_ok pre dec idof (\<lambda>k. get k (del (pre @ i) s))"
  using assms by (auto simp: rows_ok_def get_del pre_ne)

lemma list_total:
  assumes inv: "invar s" and ks: "mset ks = mset (keys s)" and ok: "rows_ok pre dec idof (\<lambda>k. get k s)"
  obtains xs where "list_entries pre dec label (\<lambda>k. get k s) ks = Inr xs" "distinct (map idof xs)"
    "\<And>x. x \<in> set xs \<longleftrightarrow> (\<exists>b. get (pre @ idof x) s = Some b \<and> dec b = Some x)"
proof -
  let ?ek = "entry_keys pre (\<lambda>k. get k s) ks" and ?val = "\<lambda>k. the (dec (the (get k s)))"
  have row: "\<exists>i. k = pre @ i \<and> dec (the (get k s)) = Some (?val k) \<and> idof (?val k) = i" if "k \<in> set ?ek" for k
  proof -
    from that obtain i b where "k = pre @ i" "get (pre @ i) s = Some b"
      using entry_keys_rows [OF inv mset_eq_setD [OF ks]] by auto
    with rows_okD [OF ok] show ?thesis by fastforce
  qed
  then have Inr: "list_entries pre dec label (\<lambda>k. get k s) ks = Inr (map ?val ?ek)"
    by (intro list_entries_ok) (metis option.distinct(1))
  have "map (\<lambda>k. pre @ idof (?val k)) ?ek = ?ek"
    by (rule map_idI) (use row in blast)
  moreover have "distinct ks" using ks keys_distinct [OF inv] by (metis mset_eq_imp_distinct_iff)
  then have "distinct ?ek" by (simp add: entry_keys_def)
  ultimately have "distinct (map (\<lambda>k. pre @ idof (?val k)) ?ek)" by simp
  then have "distinct (map idof (map ?val ?ek))"
    by (auto simp: distinct_map inj_on_def comp_def)
  moreover have "x \<in> set (map ?val ?ek) \<longleftrightarrow> (\<exists>b. get (pre @ idof x) s = Some b \<and> dec b = Some x)" for x
  proof -
    have "idof x = i" if "get (pre @ i) s = Some b" "dec b = Some x" for i b
      using rows_okD [OF ok that(1)] that(2) by auto
    then show ?thesis unfolding list_rows [OF inv ks Inr] by blast
  qed
  ultimately show thesis using Inr that by blast
qed

end

end
