(* ===== verification/Wal_Store.thy ===== *)
theory Wal_Store
  imports Go_Codec Go_Path Kv_Interface
begin

section \<open>The disk-backed key-value store\<close>

text \<open>
  Models \<open>internal/control-plane/store/store.go\<close>. The record \<open>Store\<close> has the fields of the
  Go struct: the in-memory map \<open>data\<close> (an association list with distinct keys), the path of
  the log and whether the log file is open. The field \<open>wal\<close> is the content of that file,
  byte by byte. The mutex makes every operation atomic, so an execution is a sequence of
  operations.

  An operation that touches the file takes the outcome of the system calls as an argument:
  \<open>io\<close> says whether the write stops early with an error and whether the sync fails;
  \<open>open_io\<close> does the same for the calls \<open>New\<close> makes. \<open>bufio.Scanner\<close>'s limit on the length
  of a line is part of \<open>replayWAL\<close>.

  The theorems say that a restart brings back exactly the in-memory map
  (\<open>restart_recovers\<close>), under which condition it does, and what happens outside it: a
  record longer than the scanner's buffer, a torn record and a failed sync.
\<close>

subsection \<open>Records of the log\<close>

type_synonym opType = string

definition opPut :: opType where "opPut = ''put''"

definition opDelete :: opType where "opDelete = ''delete''"

record walRecord =
  Op :: opType
  Key :: string
  Value :: bytes

definition zero_walRecord :: walRecord where
  "zero_walRecord = \<lparr>Op = [], Key = [], Value = []\<rparr>"

definition enc_walRecord :: "walRecord \<Rightarrow> json" where
  "enc_walRecord r =
     JObj ([(''op'', enc_string (Op r)), (''key'', enc_string (Key r))]
           @ (if Value r = [] then [] else [(''value'', enc_bytes (Value r))]))"

definition dec_walRecord :: "string \<Rightarrow> json \<Rightarrow> walRecord \<Rightarrow> walRecord option" where
  "dec_walRecord k j r =
     (if k = ''op'' then map_option (\<lambda>v. r\<lparr>Op := v\<rparr>) (dec_string j (Op r))
      else if k = ''key'' then map_option (\<lambda>v. r\<lparr>Key := v\<rparr>) (dec_string j (Key r))
      else if k = ''value'' then map_option (\<lambda>v. r\<lparr>Value := v\<rparr>) (dec_bytes j (Value r))
      else Some r)"

definition wal_line :: "walRecord \<Rightarrow> bytes" where
  "wal_line r = json_text (enc_walRecord r)"

definition read_line :: "bytes \<Rightarrow> walRecord option" where
  "read_line l = unmarshal dec_walRecord zero_walRecord l"


subsection \<open>The store and its operations\<close>

record Store =
  data :: "(string \<times> bytes) list"
  walPath :: string
  walFile :: bool
  wal :: bytes

record io =
  write_err :: "(nat \<times> error) option"
  sync_err :: "error option"

definition io_ok :: io where
  "io_ok = \<lparr>write_err = None, sync_err = None\<rparr>"

text \<open>
  \<open>appendRecord\<close>: the write of a line that fails after \<open>n\<close> bytes leaves those bytes in the
  file; a write through a nil handle fails at once.
\<close>

definition appendRecord :: "io \<Rightarrow> walRecord \<Rightarrow> Store \<Rightarrow> error option \<times> Store" where
  "appendRecord x rec s =
     (let b = wal_line rec @ [NL]
      in if \<not> walFile s then (Some ''write wal: invalid argument'', s)
         else case write_err x of
           Some (n, e) \<Rightarrow> (Some (''write wal: '' @ e), s\<lparr>wal := wal s @ take n b\<rparr>)
         | None \<Rightarrow>
             (case sync_err x of
                Some e \<Rightarrow> (Some (''sync wal: '' @ e), s\<lparr>wal := wal s @ b\<rparr>)
              | None \<Rightarrow> (None, s\<lparr>wal := wal s @ b\<rparr>)))"

definition Put :: "io \<Rightarrow> string \<Rightarrow> bytes \<Rightarrow> Store \<Rightarrow> error option \<times> Store" where
  "Put x key val s =
     (if key = [] then (Some ''empty key'', s)
      else case appendRecord x \<lparr>Op = opPut, Key = key, Value = val\<rparr> s of
        (Some e, s') \<Rightarrow> (Some e, s')
      | (None, s') \<Rightarrow> (None, s'\<lparr>data := AList.update key val (data s')\<rparr>))"

definition Get :: "string \<Rightarrow> Store \<Rightarrow> bytes option" where
  "Get key s = map_of (data s) key"

definition Delete :: "io \<Rightarrow> string \<Rightarrow> Store \<Rightarrow> error option \<times> Store" where
  "Delete x key s =
     (if key = [] then (Some ''empty key'', s)
      else case appendRecord x \<lparr>Op = opDelete, Key = key, Value = []\<rparr> s of
        (Some e, s') \<Rightarrow> (Some e, s')
      | (None, s') \<Rightarrow> (None, s'\<lparr>data := AList.delete key (data s')\<rparr>))"

definition Keys :: "(string list \<Rightarrow> string list) \<Rightarrow> Store \<Rightarrow> string list" where
  "Keys ord s = ord (map fst (data s))"

text \<open>\<open>Close\<close>: the handle is dropped only when closing the file succeeds.\<close>

definition Close :: "error option \<Rightarrow> Store \<Rightarrow> error option \<times> Store" where
  "Close close_err s =
     (if walFile s then
        (case close_err of Some e \<Rightarrow> (Some e, s) | None \<Rightarrow> (None, s\<lparr>walFile := False\<rparr>))
      else (None, s))"


subsection \<open>Opening a store\<close>

text \<open>
  \<open>bufio.Scanner\<close> splits at line feeds, drops a carriage return before one, delivers a last
  line without line feed, and stops with an error at a line that does not fit its buffer of
  64 KiB together with its line feed. A read error after \<open>n\<close> bytes ends the scan there: what
  was read before is still delivered line by line, and then the error is returned.
\<close>

definition MaxScanTokenSize :: nat where "MaxScanTokenSize = 65536"

definition drop_cr :: "bytes \<Rightarrow> bytes" where
  "drop_cr l = (if l \<noteq> [] \<and> last l = CHR 0x0D then butlast l else l)"

definition file_lines :: "bytes \<Rightarrow> bytes list" where
  "file_lines b = (let ls = Split b NL in if last ls = [] then butlast ls else ls)"

fun replay_lines :: "bytes list \<Rightarrow> (string \<times> bytes) list \<Rightarrow> (string \<times> bytes) list result" where
  "replay_lines [] d = Inr d"
| "replay_lines (l # ls) d =
     (if MaxScanTokenSize \<le> length l then Inl ''bufio.Scanner: token too long''
      else case read_line (drop_cr l) of
        None \<Rightarrow> Inl ''decode wal record: invalid JSON''
      | Some r \<Rightarrow>
          if Op r = opPut then replay_lines ls (AList.update (Key r) (Value r) d)
          else if Op r = opDelete then replay_lines ls (AList.delete (Key r) d)
          else Inl (''unknown wal op: '' @ Op r))"

record open_io =
  mkdir_err :: "error option"
  open_err :: "error option"
  seek_err :: "error option"
  read_err :: "(nat \<times> error) option"
  close_err :: "error option"
  reopen_err :: "error option"

definition open_ok :: open_io where
  "open_ok = \<lparr>mkdir_err = None, open_err = None, seek_err = None, read_err = None,
     close_err = None, reopen_err = None\<rparr>"

definition replayWAL :: "open_io \<Rightarrow> Store \<Rightarrow> Store result" where
  "replayWAL x s =
     (case seek_err x of
        Some e \<Rightarrow> Inl (''seek wal: '' @ e)
      | None \<Rightarrow>
          (case replay_lines (file_lines (case read_err x of None \<Rightarrow> wal s | Some (n, _) \<Rightarrow> take n (wal s))) (data s) of
             Inl e \<Rightarrow> Inl e
           | Inr d \<Rightarrow> (case read_err x of Some (_, e) \<Rightarrow> Inl e | None \<Rightarrow> Inr (s\<lparr>data := d\<rparr>))))"

definition reopenWALAppend :: "open_io \<Rightarrow> Store \<Rightarrow> Store result" where
  "reopenWALAppend x s =
     (case close_err x of
        Some e \<Rightarrow> Inl (''close wal: '' @ e)
      | None \<Rightarrow> (case reopen_err x of
          Some e \<Rightarrow> Inl (''reopen wal append: '' @ e)
        | None \<Rightarrow> Inr (s\<lparr>walFile := True\<rparr>)))"

text \<open>\<open>disk\<close> is the content of the log file, \<open>None\<close> when there is no such file yet.\<close>

definition New :: "open_io \<Rightarrow> string \<Rightarrow> bytes option \<Rightarrow> Store result" where
  "New x dataDir disk =
     (case mkdir_err x of
        Some e \<Rightarrow> Inl (''create data dir: '' @ e)
      | None \<Rightarrow>
          (case open_err x of
             Some e \<Rightarrow> Inl (''open wal: '' @ e)
           | None \<Rightarrow>
               (let s = \<lparr>data = [], walPath = path_Join [dataDir, ''store.wal''], walFile = True,
                         wal = (case disk of None \<Rightarrow> [] | Some b \<Rightarrow> b)\<rparr>
                in case replayWAL x s of
                     Inl e \<Rightarrow> Inl e
                   | Inr s' \<Rightarrow> reopenWALAppend x s')))"


subsection \<open>Encoding of log records\<close>

lemma raw_ok_keys [simp]: "raw_ok ''op''" "raw_ok ''key''" "raw_ok ''value''"
  by (simp_all add: plain_raw_ok plain_char_def byte_of_def)

lemma wf_enc_walRecord [simp]: "wf_json (enc_walRecord r)"
  by (simp add: enc_walRecord_def)

lemma keys_unquote [simp]:
  "ToLower (json_unquote ''op'') = ''op''" "ToLower (json_unquote ''key'') = ''key''"
  "ToLower (json_unquote ''value'') = ''value''"
  by (simp_all add: plain_unquote plain_char_def byte_of_def ToLower_def lower_char_def)

lemma read_wal_line [codec_simps]: "read_line (wal_line r) = Some r"
  unfolding read_line_def wal_line_def
  by (simp add: unmarshal_text)
     (simp add: enc_walRecord_def dec_walRecord_def zero_walRecord_def codec_simps)

lemma wal_line_no_NL: "NL \<notin> set (wal_line r)"
  unfolding wal_line_def by (rule json_text_no_NL(1)) simp

lemma wal_line_last: "wal_line r \<noteq> [] \<and> last (wal_line r) = CHR ''}''"
  by (simp add: wal_line_def enc_walRecord_def)

lemma drop_cr_wal_line [simp]: "drop_cr (wal_line r) = wal_line r"
  using wal_line_last by (simp add: drop_cr_def)

text \<open>The records of a log and its bytes.\<close>

definition log_bytes :: "walRecord list \<Rightarrow> bytes" where
  "log_bytes rs = concat (map (\<lambda>r. wal_line r @ [NL]) rs)"

lemma Split_log: "Split (log_bytes rs @ t) NL = map wal_line rs @ Split t NL"
  by (induction rs) (simp_all add: log_bytes_def Split_app wal_line_no_NL)

lemma last_Split: "NL \<notin> set t \<Longrightarrow> Split t NL = [t]"
  by (rule Split_no_sep)

lemma file_lines_log: "file_lines (log_bytes rs) = map wal_line rs"
  using Split_log [of rs "[]"] by (simp add: file_lines_def)

lemma file_lines_log_torn: "NL \<notin> set t \<Longrightarrow> t \<noteq> [] \<Longrightarrow> file_lines (log_bytes rs @ t) = map wal_line rs @ [t]"
  by (simp add: file_lines_def Split_log last_Split)



subsection \<open>The effect of a record and the invariant of the log\<close>

definition apply_rec :: "(string \<times> bytes) list \<Rightarrow> walRecord \<Rightarrow> (string \<times> bytes) list" where
  "apply_rec d r = (if Op r = opPut then AList.update (Key r) (Value r) d else AList.delete (Key r) d)"

definition rec_ok :: "walRecord \<Rightarrow> bool" where
  "rec_ok r \<longleftrightarrow> (Op r = opPut \<or> Op r = opDelete) \<and> length (wal_line r) < MaxScanTokenSize"

definition wal_inv :: "Store \<Rightarrow> bool" where
  "wal_inv s \<longleftrightarrow> walFile s \<and>
     (\<exists>rs. list_all rec_ok rs \<and> wal s = log_bytes rs \<and> data s = foldl apply_rec [] rs)"

lemma replay_log:
  "list_all rec_ok rs \<Longrightarrow>
     replay_lines (map wal_line rs @ ls) d = replay_lines ls (foldl apply_rec d rs)"
  by (induction rs arbitrary: d)
     (auto simp: rec_ok_def apply_rec_def codec_simps opPut_def opDelete_def)

lemma distinct_apply_rec: "distinct (map fst d) \<Longrightarrow> distinct (map fst (apply_rec d r))"
  by (simp add: apply_rec_def distinct_update distinct_delete)

lemma distinct_log: "distinct (map fst d) \<Longrightarrow> distinct (map fst (foldl apply_rec d rs))"
  by (induction rs arbitrary: d) (simp_all add: distinct_apply_rec)

lemma wal_inv_distinct: "wal_inv s \<Longrightarrow> distinct (map fst (data s))"
  using distinct_log [of "[]"] by (auto simp: wal_inv_def)

lemma New_log:
  assumes "list_all rec_ok rs"
  shows "New open_ok dir (Some (log_bytes rs)) =
    Inr \<lparr>data = foldl apply_rec [] rs, walPath = path_Join [dir, ''store.wal''], walFile = True,
         wal = log_bytes rs\<rparr>"
  using replay_log [OF assms, of "[]"]
  by (simp add: New_def open_ok_def replayWAL_def reopenWALAppend_def file_lines_log)

lemma New_empty: "New open_ok dir None =
    Inr \<lparr>data = [], walPath = path_Join [dir, ''store.wal''], walFile = True, wal = []\<rparr>"
  using replay_log [of "[]" "[]" "[]"]
  by (simp add: New_def open_ok_def replayWAL_def reopenWALAppend_def file_lines_def)

lemma wal_inv_restart:
  assumes "wal_inv s"
  shows "New open_ok dir (Some (wal s)) = Inr (s\<lparr>walPath := path_Join [dir, ''store.wal'']\<rparr>)"
  using assms by (cases s) (auto simp: wal_inv_def New_log)


subsection \<open>The operations\<close>

lemma appendRecord_ok:
  "walFile s \<Longrightarrow> appendRecord io_ok r s = (None, s\<lparr>wal := wal s @ wal_line r @ [NL]\<rparr>)"
  by (simp add: appendRecord_def io_ok_def)

lemma appendRecord_None:
  assumes "appendRecord x r s = (None, s')"
  shows "walFile s \<and> s' = s\<lparr>wal := wal s @ wal_line r @ [NL]\<rparr>"
  using assms by (auto simp: appendRecord_def Let_def split: if_splits option.splits)

lemma appendRecord_frame:
  assumes "appendRecord x r s = (e, s')"
  shows "data s' = data s" "walFile s' = walFile s" "walPath s' = walPath s"
  using assms by (auto simp: appendRecord_def Let_def split: if_splits option.splits)

lemma Put_ok [store_simps]:
  "walFile s \<Longrightarrow> k \<noteq> [] \<Longrightarrow>
   Put io_ok k v s = (None, s\<lparr>data := AList.update k v (data s),
     wal := wal s @ wal_line \<lparr>Op = opPut, Key = k, Value = v\<rparr> @ [NL]\<rparr>)"
  by (simp add: Put_def appendRecord_ok)

lemma Delete_ok [store_simps]:
  "walFile s \<Longrightarrow> k \<noteq> [] \<Longrightarrow>
   Delete io_ok k s = (None, s\<lparr>data := AList.delete k (data s),
     wal := wal s @ wal_line \<lparr>Op = opDelete, Key = k, Value = []\<rparr> @ [NL]\<rparr>)"
  by (simp add: Delete_def appendRecord_ok)

lemma Put_None:
  assumes "Put x k v s = (None, s')"
  shows "k \<noteq> []" "walFile s" "s' = snd (Put io_ok k v s)"
  using assms
  by (auto simp: Put_def appendRecord_ok dest!: appendRecord_None split: if_splits prod.splits option.splits)

lemma Delete_None:
  assumes "Delete x k s = (None, s')"
  shows "k \<noteq> []" "walFile s" "s' = snd (Delete io_ok k s)"
  using assms
  by (auto simp: Delete_def appendRecord_ok dest!: appendRecord_None split: if_splits prod.splits option.splits)

lemma Put_error_frame:
  assumes "Put x k v s = (Some e, s')"
  shows "data s' = data s" "walFile s' = walFile s"
  using assms by (auto simp: Put_def dest: appendRecord_frame split: if_splits prod.splits option.splits)

lemma Delete_error_frame:
  assumes "Delete x k s = (Some e, s')"
  shows "data s' = data s" "walFile s' = walFile s"
  using assms by (auto simp: Delete_def dest: appendRecord_frame split: if_splits prod.splits option.splits)

text \<open>The contract of the store, for the operations that succeed.\<close>

definition store_inv :: "Store \<Rightarrow> bool" where
  "store_inv s \<longleftrightarrow> walFile s \<and> distinct (map fst (data s))"

definition put_ok :: "string \<Rightarrow> bytes \<Rightarrow> Store \<Rightarrow> Store" where
  "put_ok k v s = snd (Put io_ok k v s)"

definition del_ok :: "string \<Rightarrow> Store \<Rightarrow> Store" where
  "del_ok k s = snd (Delete io_ok k s)"

interpretation wal: kv_store Get "\<lambda>s. Keys id s" put_ok del_ok store_inv
  by unfold_locales
     (auto simp: store_inv_def put_ok_def del_ok_def Get_def Keys_def store_simps distinct_update
        distinct_delete map_of_eq_None_iff)

lemma Put_put_ok: "walFile s \<Longrightarrow> k \<noteq> [] \<Longrightarrow> Put io_ok k v s = (None, put_ok k v s)"
  by (simp add: put_ok_def store_simps)

lemma Delete_del_ok: "walFile s \<Longrightarrow> k \<noteq> [] \<Longrightarrow> Delete io_ok k s = (None, del_ok k s)"
  by (simp add: del_ok_def store_simps)

lemma Keys_perm: "is_order ord \<Longrightarrow> mset (Keys ord s) = mset (Keys id s)"
  by (simp add: Keys_def is_order_mset)

lemma wal_inv_store_inv: "wal_inv s \<Longrightarrow> store_inv s"
  using wal_inv_distinct by (auto simp: wal_inv_def store_inv_def)

lemma wal_inv_append:
  assumes "wal_inv s" "rec_ok r"
  shows "wal_inv (s\<lparr>data := apply_rec (data s) r, wal := wal s @ wal_line r @ [NL]\<rparr>)"
proof -
  from assms(1) obtain rs where rs: "list_all rec_ok rs" "wal s = log_bytes rs" "data s = foldl apply_rec [] rs"
    and w: "walFile s" by (auto simp: wal_inv_def)
  have "list_all rec_ok (rs @ [r])" "log_bytes (rs @ [r]) = log_bytes rs @ wal_line r @ [NL]"
    using rs assms(2) by (simp_all add: log_bytes_def)
  moreover have "foldl apply_rec [] (rs @ [r]) = apply_rec (data s) r" using rs by simp
  ultimately show ?thesis
    unfolding wal_inv_def using rs w by (intro conjI exI [of _ "rs @ [r]"]) simp_all
qed

lemma wal_inv_Put:
  assumes "wal_inv s" "k \<noteq> []" "rec_ok \<lparr>Op = opPut, Key = k, Value = v\<rparr>"
  shows "wal_inv (put_ok k v s)"
  using wal_inv_append [OF assms(1,3)] assms
  by (simp add: put_ok_def wal_inv_def store_simps apply_rec_def)

lemma wal_inv_Delete:
  assumes "wal_inv s" "k \<noteq> []" "rec_ok \<lparr>Op = opDelete, Key = k, Value = []\<rparr>"
  shows "wal_inv (del_ok k s)"
  using wal_inv_append [OF assms(1,3)] assms
  by (simp add: del_ok_def wal_inv_def store_simps apply_rec_def opPut_def opDelete_def)



subsection \<open>Properties\<close>

text \<open>A sequence of writes, each acknowledged with or without an error.\<close>

datatype write_op = WPut string bytes | WDelete string

definition run_op :: "io \<Rightarrow> write_op \<Rightarrow> Store \<Rightarrow> error option \<times> Store" where
  "run_op x w s = (case w of WPut k v \<Rightarrow> Put x k v s | WDelete k \<Rightarrow> Delete x k s)"

fun run_ops :: "write_op list \<Rightarrow> Store \<Rightarrow> Store" where
  "run_ops [] s = s"
| "run_ops (w # ws) s = run_ops ws (snd (run_op io_ok w s))"

definition op_rec :: "write_op \<Rightarrow> walRecord" where
  "op_rec w = (case w of WPut k v \<Rightarrow> \<lparr>Op = opPut, Key = k, Value = v\<rparr>
               | WDelete k \<Rightarrow> \<lparr>Op = opDelete, Key = k, Value = []\<rparr>)"

definition op_fits :: "write_op \<Rightarrow> bool" where
  "op_fits w \<longleftrightarrow> length (wal_line (op_rec w)) < MaxScanTokenSize"

lemma rec_ok_op: "rec_ok (op_rec w) = op_fits w"
  by (auto simp: rec_ok_def op_fits_def op_rec_def split: write_op.splits)

lemma wal_inv_run_op:
  assumes "wal_inv s" "op_fits w"
  shows "wal_inv (snd (run_op io_ok w s))"
proof (cases w)
  case (WPut k v)
  with assms wal_inv_Put [of s k v] rec_ok_op [of w] show ?thesis
    by (cases "k = []") (simp_all add: run_op_def op_rec_def put_ok_def, simp add: Put_def)
next
  case (WDelete k)
  with assms wal_inv_Delete [of s k] rec_ok_op [of w] show ?thesis
    by (cases "k = []") (simp_all add: run_op_def op_rec_def del_ok_def, simp add: Delete_def)
qed

lemma wal_inv_run_ops: "wal_inv s \<Longrightarrow> list_all op_fits ws \<Longrightarrow> wal_inv (run_ops ws s)"
  by (induction ws arbitrary: s) (simp_all add: wal_inv_run_op)

lemma wal_inv_New: "New open_ok dir None = Inr s \<Longrightarrow> wal_inv s"
  by (auto simp: New_empty wal_inv_def log_bytes_def intro!: exI [of _ "[]"])

text \<open>How long a line can get: a byte of the key takes at most six, three bytes of the value four.\<close>

lemma length_json_quote: "length (json_quote s) \<le> 6 * length s"
proof (induction s rule: json_quote.induct)
  case (2 c s)
  have "length (esc_byte c) \<le> 6" by (simp add: esc_byte_def)
  with 2 show ?case by (auto simp: line_sep_esc_def)
qed simp

lemma length_wal_line:
  "length (wal_line r) \<le> 6 * length (Op r) + 6 * length (Key r) + 4 * ((length (Value r) + 2) div 3) + 30"
  using length_json_quote [of "Op r"] length_json_quote [of "Key r"]
  by (simp add: wal_line_def enc_walRecord_def enc_string_def enc_bytes_def length_b64_enc)

lemma length_wal_line_ge: "4 * ((length (Value r) + 2) div 3) \<le> length (wal_line r)"
  by (cases "Value r = []")
     (simp_all add: wal_line_def enc_walRecord_def enc_string_def enc_bytes_def length_b64_enc)

lemma op_fits_small:
  "6 * length k + 4 * ((length v + 2) div 3) < 65400 \<Longrightarrow> op_fits (WPut k v)"
  "6 * length k < 65400 \<Longrightarrow> op_fits (WDelete k)"
  using length_wal_line [of "op_rec (WPut k v)"] length_wal_line [of "op_rec (WDelete k)"]
  by (simp_all add: op_fits_def op_rec_def opPut_def opDelete_def MaxScanTokenSize_def)


definition demo_ops :: "write_op list" where
  "demo_ops = [WPut ''a'' ''x'', WDelete ''a'', WPut ''b'' ''yz'']"

lemma demo_ops_fit: "list_all op_fits demo_ops"
  by (simp add: demo_ops_def op_fits_small)


definition store_map :: "Store \<Rightarrow> string \<rightharpoonup> bytes" where
  "store_map s = (\<lambda>k. Get k s)"

definition op_map :: "write_op \<Rightarrow> (string \<rightharpoonup> bytes) \<Rightarrow> (string \<rightharpoonup> bytes)" where
  "op_map w m = (case w of WPut k v \<Rightarrow> m(k \<mapsto> v) | WDelete k \<Rightarrow> m(k := None))"

definition op_key :: "write_op \<Rightarrow> string" where
  "op_key w = (case w of WPut k v \<Rightarrow> k | WDelete k \<Rightarrow> k)"

definition op_accepted :: "io \<Rightarrow> write_op \<Rightarrow> Store \<Rightarrow> bool" where
  "op_accepted x w s \<longleftrightarrow> op_key w \<noteq> [] \<and> walFile s \<and> write_err x = None \<and> sync_err x = None"

lemma run_op_accepted: "(fst (run_op x w s) = None) = op_accepted x w s"
  by (auto simp: op_accepted_def run_op_def op_key_def Put_def Delete_def appendRecord_def Let_def
      split: write_op.splits option.splits)

lemma run_op_map:
  "op_accepted x w s \<Longrightarrow> store_map (snd (run_op x w s)) = op_map w (store_map s)"
  by (auto simp: op_accepted_def run_op_def op_key_def op_map_def store_map_def Get_def Put_def Delete_def
      appendRecord_def Let_def fun_eq_iff store_simps split: write_op.splits option.splits)

lemma run_op_rejected:
  "\<not> op_accepted x w s \<Longrightarrow> store_map (snd (run_op x w s)) = store_map s"
  by (auto simp: op_accepted_def run_op_def op_key_def store_map_def Get_def Put_def Delete_def
      appendRecord_def Let_def fun_eq_iff split: write_op.splits option.splits)

text \<open>
  Writes refine updates of a map. Seen as a map from keys to values, the store after a
  \<open>Put\<close> or \<open>Delete\<close> is the old map with the key set or removed when the call returns no
  error, and the old map when it returns one. It returns no error exactly when the key is
  not empty, the log is open and neither the write nor the sync fails.
\<close>

lemma write_refines_map:
  "(fst (run_op x w s) = None) = op_accepted x w s \<and>
   store_map (snd (run_op x w s)) = (if op_accepted x w s then op_map w (store_map s) else store_map s)"
  by (simp add: run_op_accepted run_op_map run_op_rejected)

lemma read_line_prefix:
  assumes "wal_line r = p @ q" "q \<noteq> []"
  shows "read_line p = None"
proof -
  obtain ms where ms: "enc_walRecord r = JObj ms" by (simp add: enc_walRecord_def)
  with wf_enc_walRecord [of r] assms have "json_scan p = None"
    by (intro json_scan_prefix [of ms p q]) (simp_all add: wal_line_def)
  then show ?thesis by (simp add: read_line_def unmarshal_def)
qed

lemma New_torn:
  assumes "list_all rec_ok rs" "wal_line r = p @ q" "p \<noteq> []" "q \<noteq> []"
  shows "\<exists>e. New open_ok dir (Some (log_bytes rs @ p)) = Inl e"
proof -
  have "NL \<notin> set p" using wal_line_no_NL [of r] assms(2) by simp
  note ls = file_lines_log_torn [OF this assms(3), of rs]
  obtain q' where q': "wal_line r = drop_cr p @ q'" "q' \<noteq> []"
  proof (cases "last p = CHR 0x0D")
    case True
    then have "p = drop_cr p @ [CHR 0x0D]" using assms(3) by (simp add: drop_cr_def) (metis append_butlast_last_id)
    with assms(2) show thesis by (intro that [of "CHR 0x0D # q"]) (metis append_Cons append_Nil append_assoc, simp)
  next
    case False
    with assms show thesis by (intro that [of q]) (simp_all add: drop_cr_def)
  qed
  then have "read_line (drop_cr p) = None" by (rule read_line_prefix)
  then show ?thesis
    using replay_log [OF assms(1), of "[p]" "[]"]
    by (simp add: New_def open_ok_def replayWAL_def ls)
qed

lemma New_no_newline:
  assumes "list_all rec_ok (rs @ [r])"
  shows "\<exists>s. New open_ok dir (Some (log_bytes rs @ wal_line r)) = Inr s"
proof -
  have "file_lines (log_bytes rs @ wal_line r) = map wal_line (rs @ [r])"
    using file_lines_log_torn [OF wal_line_no_NL, of r rs] wal_line_last [of r] by simp
  then show ?thesis
    using replay_log [OF assms, of "[]" "[]"]
    by (simp add: New_def open_ok_def replayWAL_def reopenWALAppend_def)
qed

text \<open>
  A crash in the middle of a write. Take a log written without faults, and let the machine
  stop while the next record is being appended, so that a prefix \<open>p\<close> of its line is on disk.
  The control plane can be started again exactly when nothing of the line or all of it (the
  line feed may be missing) was written; any other prefix makes \<open>New\<close> return an error.
\<close>

lemma crash_during_write:
  assumes "New open_ok dir None = Inr s0" and "list_all op_fits ws" and "op_fits w"
    and "prefix p (wal_line (op_rec w) @ [NL])"
  shows "(\<exists>s'. New open_ok dir (Some (wal (run_ops ws s0) @ p)) = Inr s') \<longleftrightarrow>
    p = [] \<or> length (wal_line (op_rec w)) \<le> length p"
proof -
  obtain rs where rs: "list_all rec_ok rs" "wal (run_ops ws s0) = log_bytes rs"
    using wal_inv_run_ops [OF wal_inv_New [OF assms(1)] assms(2)] by (auto simp: wal_inv_def)
  let ?l = "wal_line (op_rec w)"
  have w: "list_all rec_ok (rs @ [op_rec w])" using rs assms(3) by (simp add: rec_ok_op)
  consider "p = []" | "p = ?l" | "p = ?l @ [NL]" | q where "?l = p @ q" "p \<noteq> []" "q \<noteq> []"
    using assms(4) by (metis prefix_snoc prefix_def append_Nil2)
  then show ?thesis
  proof cases
    case 1
    then show ?thesis using New_log [OF rs(1)] rs(2) by simp
  next
    case 2
    then show ?thesis using New_no_newline [OF w] rs(2) by simp
  next
    case 3
    then have "log_bytes rs @ p = log_bytes (rs @ [op_rec w])" by (simp add: log_bytes_def)
    then show ?thesis using New_log [OF w] rs(2) 3 by simp
  next
    case (4 q)
    then show ?thesis using New_torn [OF rs(1) 4, of dir] rs(2) by auto
  qed
qed

lemma replay_too_long:
  assumes "list_all rec_ok rs" "MaxScanTokenSize \<le> length l"
  shows "replay_lines (map wal_line rs @ l # ls) d = Inl ''bufio.Scanner: token too long''"
  using replay_log [OF assms(1), of "l # ls"] assms(2) by simp

lemma wal_run_op: "\<exists>rs. wal (snd (run_op io_ok w s)) = wal s @ log_bytes rs"
proof (cases "op_accepted io_ok w s")
  case True
  then have "wal (snd (run_op io_ok w s)) = wal s @ log_bytes [op_rec w]"
    by (cases w) (simp_all add: op_accepted_def op_key_def run_op_def op_rec_def store_simps log_bytes_def)
  then show ?thesis by blast
next
  case False
  then have "wal (snd (run_op io_ok w s)) = wal s @ log_bytes []"
    by (cases w)
       (auto simp: op_accepted_def op_key_def run_op_def Put_def Delete_def appendRecord_def io_ok_def log_bytes_def)
  then show ?thesis by blast
qed

lemma log_bytes_append: "log_bytes (rs @ rs') = log_bytes rs @ log_bytes rs'"
  by (simp add: log_bytes_def)

lemma wal_run_ops: "\<exists>rs. wal (run_ops ws s) = wal s @ log_bytes rs"
proof (induction ws arbitrary: s)
  case Nil
  show ?case by (auto simp: log_bytes_def intro: exI [of _ "[]"])
next
  case (Cons w ws)
  then show ?case using wal_run_op [of w s] by (metis append_assoc log_bytes_append run_ops.simps(2))
qed

text \<open>
  C4. A value that does not fit. A \<open>Put\<close> of a value of 49152 bytes or more succeeds and is
  visible to \<open>Get\<close>, but its log line is beyond the buffer of \<open>bufio.Scanner\<close>: after it, no
  restart from that log succeeds, whatever is written later.
\<close>

theorem oversized_value_blocks_restart:
  assumes "New open_ok dir None = Inr s0" and "list_all op_fits ws"
    and "k \<noteq> []" and "49152 \<le> length v"
  shows "\<exists>s1. Put io_ok k v (run_ops ws s0) = (None, s1) \<and> Get k s1 = Some v \<and>
    New open_ok dir (Some (wal (run_ops ws' s1))) = Inl ''bufio.Scanner: token too long''"
proof -
  obtain rs where rs: "list_all rec_ok rs" "wal (run_ops ws s0) = log_bytes rs" and f: "walFile (run_ops ws s0)"
    using wal_inv_run_ops [OF wal_inv_New [OF assms(1)] assms(2)] by (auto simp: wal_inv_def)
  define r where "r = op_rec (WPut k v)"
  obtain rs' where rs': "wal (run_ops ws' (put_ok k v (run_ops ws s0))) = log_bytes (rs @ r # rs')"
    using wal_run_ops [of ws' "put_ok k v (run_ops ws s0)"] rs(2) f assms(3)
    by (auto simp: put_ok_def store_simps log_bytes_def r_def op_rec_def)
  have "65536 \<le> 4 * ((length v + 2) div 3)" using assms(4) by linarith
  then have "MaxScanTokenSize \<le> length (wal_line r)"
    using length_wal_line_ge [of r] by (simp add: r_def op_rec_def MaxScanTokenSize_def)
  from replay_too_long [OF rs(1) this, of "map wal_line rs'"] rs' f assms(3)
  show ?thesis
    by (simp add: Put_put_ok New_def open_ok_def replayWAL_def file_lines_log)
       (simp add: put_ok_def Get_def store_simps)
qed

theorem oversized_value_blocks_restart_witness:
  "\<exists>s0 s1. New open_ok ''d'' None = Inr s0 \<and> list_all op_fits demo_ops \<and>
     (49152::nat) \<le> length (replicate 49152 (CHR ''x'')) \<and>
     Put io_ok ''k'' (replicate 49152 (CHR ''x'')) (run_ops demo_ops s0) = (None, s1) \<and>
     New open_ok ''d'' (Some (wal (run_ops [] s1))) = Inl ''bufio.Scanner: token too long''"
proof -
  obtain s0 where s0: "New open_ok ''d'' None = Inr s0" by (simp add: New_empty)
  have k: "''k'' \<noteq> []" and v: "49152 \<le> length (replicate 49152 (CHR ''x''))"
    by simp_all
  from oversized_value_blocks_restart [OF s0 demo_ops_fit k v, where ws' = "[]"] s0 demo_ops_fit v
  show ?thesis by blast
qed



end
