(* ===== verification/Wal_Durability.thy ===== *)
theory Wal_Durability
  imports Wal_Store
begin

section \<open>Durability of the log under faults\<close>

text \<open>
  What a restart finds when writes and syncs failed before it. The log is seen as a sequence of
  chunks: a complete line, or a prefix of a line that a failed write left behind. The lemmas show
  that a prefix with anything after it makes the line it is on unreadable, whatever the prefix
  and what follows: the parser is led through the broken text. So either the restart is
  refused, or every line is a record that some call wrote.
\<close>

subsection \<open>Text after a broken record\<close>

text \<open>
  The text that follows a break starts like a record, or like several beginnings of one: braces
  and a quote, after which comes the letter of the first key or another brace.
\<close>

definition jam :: "string \<Rightarrow> bool" where
  "jam u \<longleftrightarrow> (\<exists>k y. u = replicate (Suc k) (CHR ''{'') @ y \<and>
     (y = [] \<or> (\<exists>x. y = DQ # x \<and> (x = [] \<or> hd x \<in> {CHR ''o'', CHR ''{''}))))"

text \<open>A rest of the input on which neither an object nor a pair of it can go on.\<close>

definition stuck :: "string \<Rightarrow> bool" where
  "stuck r \<longleftrightarrow> r = [] \<or> hd r \<in> {CHR ''o'', CHR ''{''}"

lemma jam_stuck: "jam u \<Longrightarrow> stuck u"
  by (auto simp: jam_def stuck_def)

lemma jam_not_Nil: "jam u \<Longrightarrow> u \<noteq> []"
  by (auto simp: jam_def)

lemma jam_hd: "jam u \<Longrightarrow> \<exists>t. u = CHR ''{'' # t"
  by (auto simp: jam_def)

lemma stuck_skip: "stuck r \<Longrightarrow> skip_ws r = [] \<or> (\<exists>c t. skip_ws r = c # t \<and> c \<in> {CHR ''o'', CHR ''{''})"
  by (cases r) (auto simp: stuck_def skip_ws_def is_ws_def)

lemma scan_jam: "jam u \<Longrightarrow> scan_str u = None \<or> (\<exists>k r. scan_str u = Some (k, r) \<and> stuck r)"
proof -
  have "scan_str (replicate k (CHR ''{'') @ y) = map_option (\<lambda>(w, r). (replicate k (CHR ''{'') @ w, r)) (scan_str y)" for k y
  proof (induction k)
    case (Suc k)
    have "unit_len (CHR ''{'' # replicate k (CHR ''{'') @ y) = Some 1" by (simp add: unit_len_def byte_of_def)
    with Suc show ?case by (simp add: scan_str_simps option.map_comp comp_def split_def)
  qed (simp add: option.map_ident)
  note rep = this
  assume "jam u"
  then obtain k y where u: "u = replicate (Suc k) (CHR ''{'') @ y"
    "y = [] \<or> (\<exists>x. y = DQ # x \<and> (x = [] \<or> hd x \<in> {CHR ''o'', CHR ''{''}))"
    unfolding jam_def by (elim exE conjE) (rule that)
  show ?thesis unfolding u(1) rep using u(2) by (auto simp: scan_str_simps stuck_def)
qed

text \<open>A string token that breaks off and goes on with such a text.\<close>

lemma scan_torn:
  assumes "jam u"
  shows "scan_str (p @ q @ [DQ]) = Some (p @ q, []) \<Longrightarrow>
    scan_str (p @ u) = None \<or> (\<exists>k r. scan_str (p @ u) = Some (k, r) \<and> stuck r)"
proof (induction p rule: length_induct)
  case (1 p)
  show ?case
  proof (cases "p = []")
    case True
    then show ?thesis using scan_jam [OF assms] by simp
  next
    case False
    from "1.prems" obtain n k' where n: "hd (p @ q @ [DQ]) \<noteq> DQ" "unit_len (p @ q @ [DQ]) = Some n"
      "scan_str (drop n (p @ q @ [DQ])) = Some (k', [])" "p @ q = take n (p @ q @ [DQ]) @ k'"
      using False by (cases rule: scan_str_cases) auto
    have hd: "hd (p @ u) \<noteq> DQ" "p @ u \<noteq> []" using False n(1) by simp_all
    show ?thesis
    proof (cases "n \<le> length p")
      case True
      then have t: "take n (p @ q @ [DQ]) = take n p" by simp
      have "unit_len (take n p @ drop n p @ u) = Some n" using unit_len_take [OF n(2)] unfolding t .
      then have u: "unit_len (p @ u) = Some n" by (simp flip: append_assoc)
      have "k' = drop n p @ q"
        using n(4) unfolding t by (metis append_assoc append_take_drop_id same_append_eq)
      then have "scan_str (drop n p @ q @ [DQ]) = Some (drop n p @ q, [])" using n(3) True by simp
      moreover have "length (drop n p) < length p" using unit_len_bounds [OF n(2)] False by simp
      ultimately have "scan_str (drop n p @ u) = None \<or> (\<exists>k r. scan_str (drop n p @ u) = Some (k, r) \<and> stuck r)"
        using "1.IH" by blast
      with hd u True show ?thesis by (subst (1 2) scan_str.simps) auto
    next
      case False
      obtain x where x: "u = CHR ''{'' # x" using jam_hd [OF assms] by blast
      have "unit_len (p @ u) = None"
        using n(2)
      proof (cases rule: unit_len_cases)
        case (hex v)
        then consider "p = [BS]" | h where "p = BS # CHR ''u'' # h" "length h < 4"
          using False \<open>p \<noteq> []\<close> by (cases p; cases "tl p") auto
        then show ?thesis
        proof cases
          case (2 h)
          then have "CHR ''{'' \<in> set (take 4 (h @ CHR ''{'' # x))" by (simp add: take_Cons')
          moreover have "\<not> is_hex (CHR ''{'')" by (simp add: is_hex_def is_digit_def byte_of_def)
          ultimately show ?thesis using 2 by (auto simp: unit_len_def list_all_iff x)
        qed (simp add: unit_len_def x)
      next
        case (esc e v)
        then have "p = [BS]" using False \<open>p \<noteq> []\<close> by (cases p; cases "tl p") auto
        then show ?thesis by (simp add: unit_len_def x)
      next
        case (plain c t)
        then show ?thesis using False \<open>p \<noteq> []\<close> by (cases p) auto
      qed
      with hd show ?thesis by (subst (1) scan_str.simps) simp
    qed
  qed
qed


text \<open>How the parser of the pairs of an object fails on such a rest.\<close>

definition stops :: "string \<Rightarrow> bool" where
  "stops z \<longleftrightarrow> (\<forall>m v r. parse_value m z = Some (v, r) \<longrightarrow> stuck r)"

lemma key_stuck:
  assumes "scan_str s = None \<or> (\<exists>k r. scan_str s = Some (k, r) \<and> stuck r)"
  shows "parse_members n (DQ # s) = None"
proof (cases n)
  case (Suc m)
  show ?thesis using assms
  proof (elim disjE exE conjE)
    fix k r assume "scan_str s = Some (k, r)" "stuck r"
    then show ?thesis using stuck_skip [of r] by (auto simp: Suc skip_ws_Cons)
  qed (simp add: Suc skip_ws_Cons)
qed simp

lemma value_stuck:
  assumes "scan_str s = Some (k, CHR '':'' # z)" and "stops z"
  shows "parse_members n (DQ # s) = None"
proof (cases n)
  case (Suc m)
  show ?thesis
  proof (cases "parse_value m z")
    case None
    with assms(1) show ?thesis by (simp add: Suc skip_ws_Cons)
  next
    case (Some vr)
    then obtain v r where vr: "parse_value m z = Some (v, r)" by (cases vr) auto
    with assms(2) have "stuck r" by (auto simp: stops_def)
    with assms(1) vr stuck_skip [of r] show ?thesis by (auto simp: Suc skip_ws_Cons)
  qed
qed simp

lemma rest_stuck:
  assumes "scan_str s = Some (k, CHR '':'' # DQ # z)" "scan_str z = Some (v, CHR '','' # w)" "\<And>n. parse_members n w = None"
  shows "parse_members n (DQ # s) = None"
proof (cases n)
  case (Suc m)
  show ?thesis
  proof (cases m)
    case 0
    then show ?thesis using assms(1) by (simp add: Suc skip_ws_Cons)
  next
    case (Suc m')
    then have "parse_value m (DQ # z) = Some (JStr v, CHR '','' # w)"
      using assms(2) by (simp add: skip_ws_Cons)
    with assms(1,3) show ?thesis unfolding \<open>n = Suc m\<close> parse_members.simps(2)
      by (simp add: skip_ws_Cons del: parse_value.simps parse_members.simps)
  qed
qed simp

lemma string_stops:
  assumes "scan_str z = None \<or> (\<exists>k r. scan_str z = Some (k, r) \<and> stuck r)"
  shows "stops (DQ # z)"
proof -
  have "stuck r" if "parse_value m (DQ # z) = Some (v, r)" for m v r
    using that assms by (cases m) (auto simp: skip_ws_Cons)
  then show ?thesis by (simp add: stops_def)
qed

lemma cut_append:
  assumes "a @ b = t @ t'"
  obtains (inside) q where "a = t @ q" | (beyond) c where "t = a @ c" "c \<noteq> []" "b = c @ t'"
proof -
  from assms obtain us where "a = t @ us \<or> (a @ us = t \<and> b = us @ t')"
    by (auto simp: append_eq_append_conv2)
  then consider "a = t @ us" | "a @ us = t" "b = us @ t'" by blast
  then show thesis
  proof cases
    case 2
    then show thesis by (cases "us = []") (use inside [of "[]"] beyond [of us] in auto)
  qed (rule inside)
qed

definition flat_members :: "(string \<times> json) list \<Rightarrow> bool" where
  "flat_members ms \<longleftrightarrow> list_all (\<lambda>(k, v). raw_ok k \<and> (\<exists>x. v = JStr x \<and> raw_ok x)) ms"

lemma members_torn:
  assumes "jam u" and "stops u"
  shows "flat_members ms \<Longrightarrow> ms \<noteq> [] \<Longrightarrow> members_text ms @ ''}'' = t @ t' \<Longrightarrow> t' \<noteq> [] \<Longrightarrow>
    parse_members n (t @ u) = None"
proof (induction ms arbitrary: t n)
  case (Cons m ms)
  from Cons.prems(1) obtain k x where m: "m = (k, JStr x)" "raw_ok k" "raw_ok x" and ms: "flat_members ms"
    by (auto simp: flat_members_def)
  define tl where "tl = (if ms = [] then ''}'' else CHR '','' # members_text ms @ ''}'')"
  have whole: "DQ # k @ DQ # CHR '':'' # DQ # x @ DQ # tl = t @ t'"
    using Cons.prems(3) by (auto simp: m tl_def)
  obtain u' where u': "u = CHR ''{'' # u'" using jam_hd [OF assms(1)] by blast
  have stuck_u: "stuck u" by (rule jam_stuck [OF assms(1)])
  show ?case
  proof (cases t)
    case Nil
    then show ?thesis using u' by (cases n) (simp_all add: skip_ws_Cons)
  next
    case t: (Cons c t1)
    have c: "c = DQ" using whole t by simp
    have t1: "k @ (DQ # CHR '':'' # DQ # x @ DQ # tl) = t1 @ t'" using whole unfolding t c by simp
    from t1 show ?thesis
    proof (cases rule: cut_append)
      case (inside q)
      have "scan_str (t1 @ u) = None \<or> (\<exists>k r. scan_str (t1 @ u) = Some (k, r) \<and> stuck r)"
        using scan_torn [OF assms(1), of t1 q] m(2) by (simp add: inside raw_ok_def)
      then show ?thesis unfolding t c append_Cons by (rule key_stuck)
    next
      case (beyond t2)
      then obtain t3 where t3: "t1 = k @ DQ # t3" "CHR '':'' # DQ # x @ DQ # tl = t3 @ t'" by (cases t2) auto
      have key: "scan_str (t1 @ u) = Some (k, t3 @ u)" using raw_ok_scan [OF m(2)] by (simp add: t3)
      show ?thesis
      proof (cases t3)
        case Nil
        with key stuck_u show ?thesis unfolding t c append_Cons by (intro key_stuck) simp
      next
        case t4: (Cons d t4)
        have d: "d = CHR '':''" using t3(2) t4 by simp
        have v: "DQ # x @ DQ # tl = t4 @ t'" using t3(2) unfolding t4 d by simp
        have key': "scan_str (t1 @ u) = Some (k, CHR '':'' # t4 @ u)" using key by (simp add: t4 d)
        show ?thesis
        proof (cases t4)
          case Nil
          with key' assms(2) show ?thesis unfolding t c append_Cons by (intro value_stuck) simp_all
        next
          case t5: (Cons e t5)
          have e: "e = DQ" using v t5 by simp
          have x: "x @ (DQ # tl) = t5 @ t'" using v unfolding t5 e by simp
          from x show ?thesis
          proof (cases rule: cut_append)
            case (inside q)
            have "scan_str (t5 @ u) = None \<or> (\<exists>k r. scan_str (t5 @ u) = Some (k, r) \<and> stuck r)"
              using scan_torn [OF assms(1), of t5 q] m(3) by (simp add: inside raw_ok_def)
            then have "stops (t4 @ u)" unfolding t5 e append_Cons by (rule string_stops)
            with key' show ?thesis unfolding t c append_Cons by (rule value_stuck)
          next
            case (beyond t6)
            then obtain t7 where t7: "t5 = x @ DQ # t7" "tl = t7 @ t'" by (cases t6) auto
            have val: "scan_str (t5 @ u) = Some (x, t7 @ u)" using raw_ok_scan [OF m(3)] by (simp add: t7)
            show ?thesis
            proof (cases t7)
              case Nil
              with val stuck_u have "stops (t4 @ u)" unfolding t5 e append_Cons by (intro string_stops) simp
              with key' show ?thesis unfolding t c append_Cons by (rule value_stuck)
            next
              case t8: (Cons f t8)
              with t7(2) Cons.prems(4) have ne: "ms \<noteq> []" and f: "f = CHR '',''" "members_text ms @ ''}'' = t8 @ t'"
                by (auto simp: tl_def split: if_splits)
              have "parse_members n (t8 @ u) = None" for n
                by (rule Cons.IH [OF ms ne f(2) Cons.prems(4)])
              with key' val show ?thesis unfolding t c t5 e t8 f(1) append_Cons by (intro rest_stuck)
            qed
          qed
        qed
      qed
    qed
  qed
qed simp


subsection \<open>Broken lines\<close>

text \<open>A record that breaks off after \<open>n\<close> bytes.\<close>

lemma enc_walRecord_flat:
  obtains v ms where "enc_walRecord r = JObj ((''op'', JStr v) # ms)" "flat_members ((''op'', JStr v) # ms)"
proof -
  obtain ms where ms: "enc_walRecord r = JObj ((''op'', enc_string (Op r)) # ms)"
    "flat_members ((''op'', enc_string (Op r)) # ms)"
    using wf_enc_walRecord [of r]
    by (cases "Value r = []") (auto simp: enc_walRecord_def flat_members_def enc_string_def enc_bytes_def)
  obtain v where "enc_string (Op r) = JStr v" by (simp add: enc_string_def)
  with ms show thesis by (intro that [of v ms]) simp_all
qed

lemma wal_line_no_CR: "CHR 0x0D \<notin> set (wal_line r)"
proof -
  have "CHR 0x0D \<notin> set t" if "raw_ok t" for t
    using scan_str_no_control [of "t @ [DQ]" t "[]" "CHR 0x0D"] that by (auto simp: raw_ok_def byte_of_def)
  then have "flat_members ms \<Longrightarrow> CHR 0x0D \<notin> set (members_text ms)" for ms
    by (induction ms) (auto simp: flat_members_def split: if_splits)
  moreover obtain v ms where "enc_walRecord r = JObj ((''op'', JStr v) # ms)"
    "flat_members ((''op'', JStr v) # ms)" by (rule enc_walRecord_flat)
  ultimately show ?thesis by (force simp: wal_line_def simp del: members_text.simps)
qed

lemma wal_line_start: "\<exists>t. wal_line r = CHR ''{'' # DQ # CHR ''o'' # t"
proof -
  obtain v ms where "enc_walRecord r = JObj ((''op'', JStr v) # ms)" by (rule enc_walRecord_flat)
  then show ?thesis by (simp add: wal_line_def)
qed

definition broken :: "string \<Rightarrow> bool" where
  "broken u \<longleftrightarrow> jam u \<and> stops u \<and> CHR 0x0D \<notin> set u"

lemma jam_prefix:
  assumes "wal_line r = f @ q" and "f \<noteq> []" and "u = [] \<or> jam u"
  shows "jam (f @ u)"
proof -
  obtain t where t: "wal_line r = CHR ''{'' # DQ # CHR ''o'' # t" using wal_line_start by blast
  consider "f = [CHR ''{'']" | "f = [CHR ''{'', DQ]" | t' where "f = CHR ''{'' # DQ # CHR ''o'' # t'"
    using assms(1,2) unfolding t by (auto simp: Cons_eq_append_conv)
  then show ?thesis
  proof cases
    case 1
    from assms(3) show ?thesis
    proof
      assume "jam u"
      then obtain k y where "u = replicate (Suc k) (CHR ''{'') @ y"
        "y = [] \<or> (\<exists>x. y = DQ # x \<and> (x = [] \<or> hd x \<in> {CHR ''o'', CHR ''{''}))"
        unfolding jam_def by (elim exE conjE) (rule that)
      then show ?thesis unfolding jam_def 1 by (intro exI [of _ "Suc k"] exI [of _ y]) simp
    qed (simp add: jam_def 1 exI [of _ 0])
  next
    case 2
    have "u = [] \<or> hd u \<in> {CHR ''o'', CHR ''{''}" using assms(3) jam_hd [of u] by auto
    then show ?thesis unfolding jam_def 2 by (intro exI [of _ 0] exI [of _ "DQ # u"]) auto
  next
    case (3 t')
    then show ?thesis unfolding jam_def by (intro exI [of _ 0] exI [of _ "DQ # CHR ''o'' # t' @ u"]) auto
  qed
qed

lemma parse_line:
  assumes "delim u" and "parse_value m (wal_line r @ u) = Some (v, w)"
  shows "v = enc_walRecord r \<and> w = u"
proof -
  let ?j = "enc_walRecord r"
  have "parse_value (jfuel ?j) (wal_line r @ u) = Some (?j, u)"
    unfolding wal_line_def by (rule parse_text(1)) (simp_all add: assms(1))
  then have "parse_value (max m (jfuel ?j)) (wal_line r @ u) = Some (?j, u)"
    by (rule parse_value_fuel) simp
  moreover have "parse_value (max m (jfuel ?j)) (wal_line r @ u) = Some (v, w)"
    using assms(2) by (rule parse_value_fuel) simp
  ultimately show ?thesis by simp
qed

lemma parse_torn:
  assumes "wal_line r = f @ q" and "f \<noteq> []" and "q \<noteq> []" and "u = [] \<or> jam u \<and> stops u"
  shows "parse_value m (f @ u) = None"
proof (cases m)
  case (Suc n)
  obtain v ms where ms: "enc_walRecord r = JObj ((''op'', JStr v) # ms)" "flat_members ((''op'', JStr v) # ms)"
    by (rule enc_walRecord_flat)
  show ?thesis
  proof (cases "u = []")
    case True
    show ?thesis
    proof (rule ccontr)
      assume "parse_value m (f @ u) \<noteq> None"
      then obtain j w where j: "parse_value m f = Some (j, w)" using True by auto
      obtain t where "f = CHR ''{'' # t" using assms(1,2) wal_line_start [of r] by (cases f) auto
      with j have "\<not> is_JNum j" by (cases m) (auto simp: skip_ws_Cons split: list.splits if_splits)
      with j have "parse_value m (wal_line r) = Some (j, w @ q)"
        unfolding assms(1) using parse_extend by blast
      then show False using parse_line [of "[]" m r j "w @ q"] assms(3) by simp
    qed
  next
    case False
    with assms(4) have u: "jam u" "stops u" by simp_all
    obtain t where f: "f = CHR ''{'' # t" using assms(1,2) wal_line_start [of r] by (cases f) auto
    have "parse_members n (t @ u) = None"
    proof (rule members_torn [OF u ms(2)])
      show "members_text ((''op'', JStr v) # ms) @ ''}'' = t @ q"
        using assms(1) by (simp add: wal_line_def ms(1) f)
    qed (use assms(3) in simp_all)
    moreover obtain d y where "t @ u = d # y" "d \<in> {DQ, CHR ''{''}"
    proof (cases t)
      case Nil
      then show thesis using jam_hd [OF u(1)] that by auto
    next
      case (Cons d y)
      then have "d = DQ" using assms(1) wal_line_start [of r] f by auto
      then show thesis using Cons that by auto
    qed
    ultimately show ?thesis by (auto simp: Suc f skip_ws_Cons)
  qed
qed simp

lemma broken_prefix:
  assumes "wal_line r = f @ q" and "f \<noteq> []" and "u = [] \<or> broken u"
  shows "broken (f @ u)"
proof -
  have "CHR 0x0D \<notin> set f" using wal_line_no_CR [of r] assms(1) by simp
  moreover have "stuck w" if w: "parse_value m (f @ u) = Some (v, w)" for m v w
  proof (cases "q = []")
    case True
    have "delim u" using assms(3) jam_hd [of u] by (auto simp: broken_def is_numch_def is_digit_def byte_of_def)
    from parse_line [OF this, of m r v w] w True assms(1) have "w = u" by simp
    then show ?thesis using assms(3) jam_stuck by (auto simp: broken_def stuck_def)
  next
    case False
    with parse_torn [OF assms(1,2) False, of u m] assms(3) w show ?thesis by (auto simp: broken_def)
  qed
  ultimately show ?thesis
    using jam_prefix [OF assms(1,2), of u] assms(3) by (auto simp: broken_def stops_def)
qed

text \<open>A line on which a broken record is followed by anything that was written after it.\<close>

lemma read_broken:
  assumes "wal_line r = f @ q" and "f \<noteq> []" and "broken u"
  shows "read_line (drop_cr (f @ u)) = None"
proof -
  have u: "u \<noteq> []" "jam u" "stops u" using assms(3) jam_not_Nil by (auto simp: broken_def)
  have "last (f @ u) \<noteq> CHR 0x0D"
    using broken_prefix [OF assms(1,2), of u] assms(2,3) by (metis append_is_Nil_conv broken_def last_in_set)
  then have cr: "drop_cr (f @ u) = f @ u" by (simp add: drop_cr_def)
  have "json_scan (f @ u) = None"
  proof (cases "parse_value (Suc (length (f @ u))) (f @ u)")
    case (Some x)
    then obtain v w where v: "parse_value (Suc (length (f @ u))) (f @ u) = Some (v, w)" by (cases x) auto
    with parse_torn [OF assms(1,2), of u "Suc (length (f @ u))"] u have q: "q = []" by force
    have "delim u" using jam_hd [OF u(2)] by (auto simp: is_numch_def is_digit_def byte_of_def)
    from parse_line [OF this, of "Suc (length (f @ u))" r v w] v q assms(1) have "w = u" by simp
    with v u jam_hd [OF u(2)] show ?thesis
      by (auto simp: json_scan_def skip_ws_Cons simp del: parse_value.simps)
  qed (simp add: json_scan_def del: parse_value.simps)
  then show ?thesis by (simp add: read_line_def unmarshal_def cr)
qed


subsection \<open>A log of whole and broken records\<close>

text \<open>Each chunk is a record and the number of bytes of its line that reached the file.\<close>

type_synonym chunk = "walRecord \<times> nat"

definition chunk_bytes :: "chunk list \<Rightarrow> bytes" where
  "chunk_bytes cs = concat (map (\<lambda>(r, n). take n (wal_line r @ [NL])) cs)"

text \<open>A chunk is whole when at most the line feed is missing.\<close>

definition whole :: "chunk \<Rightarrow> bool" where
  "whole c \<longleftrightarrow> length (wal_line (fst c)) \<le> snd c"

lemma chunk_bytes_simps [simp]:
  "chunk_bytes [] = []"
  "chunk_bytes ((r, n) # cs) = take n (wal_line r @ [NL]) @ chunk_bytes cs"
  "chunk_bytes (cs @ ds) = chunk_bytes cs @ chunk_bytes ds"
  by (simp_all add: chunk_bytes_def)

lemma chunk_cases:
  obtains (none) "n = 0" "\<not> whole (r, n)" "take n (wal_line r @ [NL]) = []"
  | (broken) f q where "take n (wal_line r @ [NL]) = f" "f \<noteq> []" "wal_line r = f @ q" "whole (r, n) \<longleftrightarrow> q = []"
  | (full) "take n (wal_line r @ [NL]) = wal_line r @ [NL]" "whole (r, n)"
proof -
  have l: "wal_line r \<noteq> []" using wal_line_last by simp
  consider "n = 0" | "0 < n" "n \<le> length (wal_line r)" | "length (wal_line r) < n" by linarith
  then show thesis
  proof cases
    case 1
    with l show thesis by (intro none) (simp_all add: whole_def)
  next
    case 2
    then show thesis
      using l by (intro broken [of "take n (wal_line r)" "drop n (wal_line r)"]) (auto simp: whole_def)
  qed (auto intro!: full simp: whole_def)
qed

lemma Split_prefix:
  "NL \<notin> set f \<Longrightarrow> Split (f @ s) NL = (f @ hd (Split s NL)) # tl (Split s NL)"
proof (induction f)
  case Nil
  show ?case by (simp add: hd_Cons_tl)
next
  case (Cons c f)
  then show ?case by (auto simp del: Split.simps(1))
qed

lemma hd_Split_broken:
  "chunk_bytes cs \<noteq> [] \<Longrightarrow> broken (hd (Split (chunk_bytes cs) NL))"
proof (induction cs)
  case (Cons c cs)
  obtain r n where c: "c = (r, n)" by (cases c)
  show ?case
  proof (cases rule: chunk_cases [of n r])
    case none
    with Cons show ?thesis by (simp add: c)
  next
    case (broken f q)
    have nl: "NL \<notin> set f" using wal_line_no_NL [of r] broken(3) by simp
    have "hd (Split (chunk_bytes cs) NL) = [] \<or> broken (hd (Split (chunk_bytes cs) NL))"
      using Cons.IH by (cases "chunk_bytes cs = []") simp_all
    from broken_prefix [OF broken(3,2) this] show ?thesis
      unfolding c chunk_bytes_simps broken(1) Split_prefix [OF nl] by simp
  next
    case full
    have "broken (wal_line r @ [])" by (rule broken_prefix [of r "wal_line r" "[]"]) (use wal_line_last in simp_all)
    then show ?thesis unfolding c chunk_bytes_simps full(1) by (simp add: Split_app wal_line_no_NL)
  qed
qed simp

lemma file_lines_app: "NL \<notin> set l \<Longrightarrow> file_lines (l @ NL # b) = l # file_lines b"
  by (simp add: file_lines_def Split_app Let_def)

text \<open>The replay at a broken record: the last one of the log, and one with text after it.\<close>

lemma replay_last_broken:
  assumes "wal_line r = f @ q" and "f \<noteq> []"
  shows "replay_lines (file_lines f) d =
    (if MaxScanTokenSize \<le> length f then Inl ''bufio.Scanner: token too long''
     else if q = [] then replay_lines [wal_line r] d
     else Inl ''decode wal record: invalid JSON'')"
proof -
  have nl: "NL \<notin> set f" and cr: "CHR 0x0D \<notin> set f"
    using wal_line_no_NL [of r] wal_line_no_CR [of r] assms(1) by simp_all
  have "file_lines f = [f]" using assms(2) nl by (simp add: file_lines_def last_Split)
  moreover have "drop_cr f = f" using cr assms(2) by (metis drop_cr_def last_in_set)
  ultimately show ?thesis using assms(1) read_line_prefix [OF assms(1)] by auto
qed

lemma replay_broken:
  assumes "wal_line r = f @ q" and "f \<noteq> []" and "chunk_bytes cs \<noteq> []"
  shows "\<exists>e. replay_lines (file_lines (f @ chunk_bytes cs)) d = Inl e"
proof -
  let ?u = "hd (Split (chunk_bytes cs) NL)"
  have nl: "NL \<notin> set f" using wal_line_no_NL [of r] assms(1) by simp
  have "read_line (drop_cr (f @ ?u)) = None"
    by (rule read_broken [OF assms(1,2) hd_Split_broken [OF assms(3)]])
  moreover have "\<exists>ls. file_lines (f @ chunk_bytes cs) = (f @ ?u) # ls"
    using assms(2) by (simp add: file_lines_def Split_prefix [OF nl] Let_def)
  ultimately show ?thesis by auto
qed

lemma no_bytes_not_whole: "chunk_bytes cs = [] \<Longrightarrow> filter whole cs = []"
  using wal_line_last by (auto simp: chunk_bytes_def whole_def filter_empty_conv)

text \<open>A log that can be replayed holds whole records only, and the replay applies them all.\<close>

lemma replay_chunks:
  "replay_lines (file_lines (chunk_bytes cs)) d = Inr d' \<Longrightarrow>
     d' = foldl apply_rec d (map fst (filter whole cs))"
proof (induction cs arbitrary: d)
  case Nil
  then show ?case by (simp add: file_lines_def)
next
  case (Cons c cs)
  obtain r n where c: "c = (r, n)" by (cases c)
  show ?case
  proof (cases rule: chunk_cases [of n r])
    case none
    with Cons show ?thesis by (simp add: c)
  next
    case full
    have "replay_lines (file_lines (chunk_bytes cs)) (apply_rec d r) = Inr d'"
      using Cons.prems unfolding c chunk_bytes_simps full(1)
      by (auto simp: file_lines_app wal_line_no_NL codec_simps apply_rec_def opPut_def opDelete_def
          split: if_splits)
    with Cons.IH full show ?thesis by (simp add: c)
  next
    case (broken f q)
    have bytes: "chunk_bytes (c # cs) = f @ chunk_bytes cs" unfolding c chunk_bytes_simps broken(1) ..
    show ?thesis
    proof (cases "chunk_bytes cs = []")
      case True
      with Cons.prems bytes replay_last_broken [OF broken(3,2), of d]
      have "q = []" "replay_lines [wal_line r] d = Inr d'" by (auto split: if_splits)
      with True broken(4) no_bytes_not_whole show ?thesis
        by (auto simp: c codec_simps apply_rec_def opPut_def opDelete_def split: if_splits)
    next
      case False
      with Cons.prems bytes replay_broken [OF broken(3,2) False, of d] show ?thesis by auto
    qed
  qed
qed

text \<open>
  When it can be replayed: every piece that reached the file is a complete line, but the line
  feed may be missing after the last one.
\<close>

fun undamaged :: "chunk list \<Rightarrow> bool" where
  "undamaged [] \<longleftrightarrow> True"
| "undamaged ((r, n) # cs) \<longleftrightarrow>
     (if n = 0 then undamaged cs
      else if length (wal_line r) < n then undamaged cs
      else n = length (wal_line r) \<and> list_all (\<lambda>(r, n). n = 0) cs)"

lemma no_bytes: "chunk_bytes cs = [] \<longleftrightarrow> list_all (\<lambda>(r, n). n = 0) cs"
  by (induction cs) auto

lemma replay_undamaged:
  "list_all (\<lambda>(r, n). rec_ok r) cs \<Longrightarrow>
     (\<exists>d'. replay_lines (file_lines (chunk_bytes cs)) d = Inr d') \<longleftrightarrow> undamaged cs"
proof (induction cs arbitrary: d)
  case Nil
  then show ?case by (simp add: file_lines_def)
next
  case (Cons c cs)
  obtain r n where c: "c = (r, n)" by (cases c)
  with Cons.prems have ok: "rec_ok r" and oks: "list_all (\<lambda>(r, n). rec_ok r) cs" by simp_all
  note IH = Cons.IH [OF oks]
  consider "n = 0" | "0 < n" "n \<le> length (wal_line r)" | "length (wal_line r) < n" by linarith
  then show ?case
  proof cases
    case 1
    with IH show ?thesis by (simp add: c)
  next
    case 2
    then have p: "wal_line r = take n (wal_line r) @ drop n (wal_line r)" "take n (wal_line r) \<noteq> []"
      by auto
    have bytes: "chunk_bytes (c # cs) = take n (wal_line r) @ chunk_bytes cs" using 2 by (simp add: c)
    show ?thesis
    proof (cases "chunk_bytes cs = []")
      case True
      then have "undamaged (c # cs) \<longleftrightarrow> drop n (wal_line r) = []" using 2 no_bytes by (auto simp: c)
      moreover have "\<exists>d'. replay_lines [wal_line r] d = Inr d'"
        using replay_log [of "[r]" "[]" d] ok by simp
      moreover have "\<not> MaxScanTokenSize \<le> length (take n (wal_line r))" using ok 2 by (simp add: rec_ok_def)
      ultimately show ?thesis
        unfolding bytes True append_Nil2 replay_last_broken [OF p] by auto
    next
      case False
      then have "\<not> undamaged (c # cs)" using 2 no_bytes by (auto simp: c)
      with replay_broken [OF p False, of d] show ?thesis unfolding bytes by auto
    qed
  next
    case 3
    then have "chunk_bytes (c # cs) = wal_line r @ NL # chunk_bytes cs" by (simp add: c)
    then have "replay_lines (file_lines (chunk_bytes (c # cs))) d =
        replay_lines (file_lines (chunk_bytes cs)) (apply_rec d r)"
      using replay_log [of "[r]" "file_lines (chunk_bytes cs)" d] ok
      by (simp add: file_lines_app wal_line_no_NL)
    moreover have "undamaged (c # cs) = undamaged cs" using 3 by (auto simp: c)
    ultimately show ?thesis using IH by (simp only:)
  qed
qed


subsection \<open>Histories with faults and restarts\<close>

text \<open>
  What happens to a store over its lifetimes: calls, each with its I/O outcome, and restarts,
  each with the outcomes of the calls \<open>New\<close> makes. A crash in the middle of a write is a write
  that fails after some bytes, followed by a restart. While the process is down, because \<open>New\<close>
  failed, there are no calls. The history lists the writes, each with the number of bytes it
  added to the log and whether the caller got no error.
\<close>

datatype event = Write io write_op | Restart open_io

type_synonym process = "Store + bytes"

type_synonym history = "(write_op \<times> nat \<times> bool) list"

definition disk :: "process \<Rightarrow> bytes" where
  "disk p = (case p of Inl s \<Rightarrow> wal s | Inr b \<Rightarrow> b)"

fun event_step :: "string \<Rightarrow> event \<Rightarrow> process \<Rightarrow> history \<times> process" where
  "event_step dir (Write x w) (Inl s) =
     (case run_op x w s of (e, s') \<Rightarrow> ([(w, length (wal s') - length (wal s), e = None)], Inl s'))"
| "event_step dir (Write x w) (Inr b) = ([], Inr b)"
| "event_step dir (Restart x) p =
     ([], case New x dir (Some (disk p)) of Inl _ \<Rightarrow> Inr (disk p) | Inr s \<Rightarrow> Inl s)"

fun run_events :: "string \<Rightarrow> event list \<Rightarrow> process \<Rightarrow> history \<times> process" where
  "run_events dir [] p = ([], p)"
| "run_events dir (e # es) p =
     (case event_step dir e p of (h, p') \<Rightarrow>
        case run_events dir es p' of (h', p'') \<Rightarrow> (h @ h', p''))"

definition attempted :: "history \<Rightarrow> write_op list" where
  "attempted h = map fst h"

definition acknowledged :: "history \<Rightarrow> write_op list" where
  "acknowledged h = map fst (filter (snd \<circ> snd) h)"

definition pieces :: "history \<Rightarrow> chunk list" where
  "pieces h = map (\<lambda>(w, n, a). (op_rec w, n)) h"

definition acks_whole :: "history \<Rightarrow> bool" where
  "acks_whole h \<longleftrightarrow> list_all (\<lambda>(w, n, a). a \<longrightarrow> whole (op_rec w, n)) h"

lemma pieces_append: "pieces (h @ h') = pieces h @ pieces h'"
  by (simp add: pieces_def)

lemma appendRecord_piece:
  "\<exists>n. wal (snd (appendRecord x r s)) = wal s @ take n (wal_line r @ [NL]) \<and>
     (fst (appendRecord x r s) = None \<longrightarrow> whole (r, n))"
proof -
  consider "\<not> walFile s" | "walFile s" "write_err x = None" | n e where "walFile s" "write_err x = Some (n, e)"
    by (cases "write_err x") auto
  then show ?thesis
  proof cases
    case 1
    then show ?thesis by (intro exI [of _ 0]) (simp add: appendRecord_def)
  next
    case 2
    then show ?thesis
      by (intro exI [of _ "Suc (length (wal_line r))"])
         (auto simp: appendRecord_def whole_def Let_def split: option.splits)
  next
    case (3 n e)
    then show ?thesis by (intro exI [of _ n]) (simp add: appendRecord_def)
  qed
qed

lemma run_op_piece:
  assumes "run_op x w s = (e, s')"
  shows "wal s' = wal s @ chunk_bytes [(op_rec w, length (wal s') - length (wal s))]"
    and "e = None \<Longrightarrow> whole (op_rec w, length (wal s') - length (wal s))"
proof -
  let ?l = "wal_line (op_rec w) @ [NL]"
  have "\<exists>n. wal s' = wal s @ take n ?l \<and> (e = None \<longrightarrow> whole (op_rec w, n))"
  proof (cases "op_key w = []")
    case True
    then show ?thesis using assms
      by (intro exI [of _ 0]) (auto simp: run_op_def op_key_def Put_def Delete_def split: write_op.splits)
  next
    case False
    have "wal s' = wal (snd (appendRecord x (op_rec w) s)) \<and> e = fst (appendRecord x (op_rec w) s)"
      using False assms
      by (cases w) (auto simp: run_op_def op_rec_def op_key_def Put_def Delete_def split: prod.splits option.splits)
    then show ?thesis using appendRecord_piece [of x "op_rec w" s] by simp
  qed
  then obtain n where n: "wal s' = wal s @ take n ?l" "e = None \<longrightarrow> whole (op_rec w, n)"
    by (elim exE conjE) (rule that)
  then have "length (wal s') - length (wal s) = min n (length ?l)" by simp
  moreover have "take (min n (length ?l)) ?l = take n ?l" by (metis length_take take_all_iff take_take nat_le_linear min_def)
  ultimately show "wal s' = wal s @ chunk_bytes [(op_rec w, length (wal s') - length (wal s))]"
    and "e = None \<Longrightarrow> whole (op_rec w, length (wal s') - length (wal s))"
    using n by (simp_all add: whole_def del: take_append)
qed

lemma New_Inr:
  assumes "New x dir (Some b) = Inr s"
  shows "wal s = b" "replay_lines (file_lines b) [] = Inr (data s)"
  using assms
  by (auto simp: New_def replayWAL_def reopenWALAppend_def Let_def split: option.splits sum.splits)

lemma New_replay:
  "(\<exists>s. New open_ok dir (Some b) = Inr s) \<longleftrightarrow> (\<exists>d. replay_lines (file_lines b) [] = Inr d)"
  by (auto simp: New_def open_ok_def replayWAL_def reopenWALAppend_def split: sum.splits)

lemma event_pieces:
  assumes "event_step dir e p = (h, p')"
  shows "disk p' = disk p @ chunk_bytes (pieces h) \<and> acks_whole h"
proof (cases e)
  case (Write x w)
  show ?thesis
  proof (cases p)
    case (Inl s)
    obtain err s' where run: "run_op x w s = (err, s')" by fastforce
    moreover have "h = [(w, length (wal s') - length (wal s), err = None)]" "p' = Inl s'"
      using assms run by (simp_all add: Write Inl)
    ultimately show ?thesis
      using run_op_piece [OF run] by (simp add: Inl disk_def pieces_def acks_whole_def del: chunk_bytes_simps)
  next
    case (Inr b)
    then show ?thesis using assms by (auto simp: Write pieces_def acks_whole_def)
  qed
next
  case (Restart x)
  then show ?thesis using assms New_Inr(1) [of x dir "disk p"]
    by (auto simp: pieces_def acks_whole_def disk_def split: sum.splits)
qed

lemma run_events_pieces:
  "run_events dir es p = (h, p') \<Longrightarrow> disk p' = disk p @ chunk_bytes (pieces h) \<and> acks_whole h"
proof (induction es arbitrary: p h)
  case Nil
  then show ?case by (simp add: pieces_def acks_whole_def)
next
  case (Cons e es)
  then obtain h1 p1 h2 where e: "event_step dir e p = (h1, p1)" and es: "run_events dir es p1 = (h2, p')"
    and h: "h = h1 @ h2" by (auto split: prod.splits)
  from event_pieces [OF e] Cons.IH [OF es] show ?case
    by (simp add: h pieces_append acks_whole_def)
qed

text \<open>The writes whose records are whole: the acknowledged ones, and some of the others.\<close>

definition kept :: "history \<Rightarrow> write_op list" where
  "kept h = map fst (filter (\<lambda>(w, n, a). whole (op_rec w, n)) h)"

lemma kept_pieces: "map fst (filter whole (pieces h)) = map op_rec (kept h)"
  by (induction h) (auto simp: kept_def pieces_def)

lemma kept_append: "kept (h @ h') = kept h @ kept h'"
  by (simp add: kept_def)

lemma kept_nths:
  assumes "acks_whole h"
  obtains A where "{i. i < length h \<and> snd (snd (h ! i))} \<subseteq> A" "kept h = map fst (nths h A)"
proof
  let ?P = "\<lambda>(w, n, a). whole (op_rec w, n)"
  show "kept h = map fst (nths h {i. i < length h \<and> ?P (h ! i)})"
    by (simp add: kept_def filter_eq_nths)
  show "{i. i < length h \<and> snd (snd (h ! i))} \<subseteq> {i. i < length h \<and> ?P (h ! i)}"
    using assms by (auto simp: acks_whole_def list_all_length split_def)
qed

lemma foldl_op_map:
  "map_of (foldl apply_rec d (map op_rec ws)) = foldl (\<lambda>m w. op_map w m) (map_of d) ws"
proof (induction ws arbitrary: d)
  case (Cons w ws)
  have "map_of (apply_rec d (op_rec w)) = op_map w (map_of d)"
    by (auto simp: apply_rec_def op_rec_def op_map_def opPut_def opDelete_def update_conv' delete_conv'
        restrict_map_def split: write_op.splits)
  with Cons show ?case by simp
qed simp

text \<open>What a store holds that opens after a history.\<close>

lemma New_history:
  assumes "New y dir None = Inr s0" and "run_events dir es (Inl s0) = (h, p)"
  shows "disk p = chunk_bytes (pieces h)" and "acks_whole h"
    and "New x dir (Some (disk p)) = Inr s' \<Longrightarrow> store_map s' = foldl (\<lambda>m w. op_map w m) Map.empty (kept h)"
proof -
  have "wal s0 = []" using assms(1)
    by (auto simp: New_def replayWAL_def reopenWALAppend_def Let_def split: option.splits sum.splits)
  then show d: "disk p = chunk_bytes (pieces h)" and "acks_whole h"
    using run_events_pieces [OF assms(2)] by (simp_all add: disk_def)
  assume "New x dir (Some (disk p)) = Inr s'"
  then have "data s' = foldl apply_rec [] (map op_rec (kept h))"
    unfolding d kept_pieces [symmetric] by (intro replay_chunks New_Inr(2))
  then show "store_map s' = foldl (\<lambda>m w. op_map w m) Map.empty (kept h)"
    by (simp add: store_map_def Get_def foldl_op_map)
qed


text \<open>A write that fails at once, a restart, a sync that fails, and two acknowledged writes.\<close>

definition demo_faults :: "event list" where
  "demo_faults =
     [Write io_ok (WPut ''a'' ''x''), Write (io_ok\<lparr>write_err := Some (0, ''ENOSPC'')\<rparr>) (WPut ''a'' ''y''),
      Restart open_ok, Write (io_ok\<lparr>sync_err := Some ''EIO''\<rparr>) (WDelete ''a''), Write io_ok (WPut ''b'' ''z'')]"



text \<open>A write that stops just before its line feed, followed by a write that is acknowledged.\<close>

definition demo_glued :: "event list" where
  "demo_glued =
     [Write (io_ok\<lparr>write_err := Some (length (wal_line (op_rec (WPut ''a'' ''x''))), ''ENOSPC'')\<rparr>) (WPut ''a'' ''x''),
      Write io_ok (WPut ''b'' ''z'')]"


end
