(* ===== verification/Store_Types.thy ===== *)
theory Store_Types
  imports Wal_Store
begin

section \<open>The objects the control plane stores\<close>

text \<open>
  Models \<open>internal/common/constants\<close> and the structs of \<open>internal/control-plane/store\<close>
  (\<open>model_info.go\<close>, \<open>node_info.go\<close>, \<open>replica_info.go\<close>) with their JSON form. A named string
  type of Go is a HOL string: its constants are definitions, and any other string is a
  value of the type too, the empty one being the zero value. Every field of a struct is a
  field of the record, with a prefix because Go structs share field names.

  \<open>marshal_ModelInfo\<close>, \<open>marshal_NodeInfo\<close> and \<open>marshal_ReplicaInfo\<close> are \<open>json.Marshal\<close>, which
  fails for an input format that is not a JSON text and for a \<open>TOPS\<close> value that is not
  finite; the round-trip lemmas say what reads back. For a model that is
  the model itself up to the text of its input format (\<open>norm_ModelInfo\<close>): without
  one it comes back with the four bytes of \<open>null\<close>.
\<close>

subsection \<open>Constants\<close>

type_synonym ModelType = string

definition ModelTypeVisionTransformer :: ModelType where "ModelTypeVisionTransformer = ''vision_transformer''"
definition ModelTypeCNN :: ModelType where "ModelTypeCNN = ''cnn''"
definition ModelTypeMLP :: ModelType where "ModelTypeMLP = ''mlp''"
definition ModelTypeLargeLanguageModel :: ModelType where "ModelTypeLargeLanguageModel = ''large_language_model''"
definition ModelTypeDecisionTree :: ModelType where "ModelTypeDecisionTree = ''decision_tree''"
definition ModelTypeLinear :: ModelType where "ModelTypeLinear = ''linear''"

lemmas ModelType_defs = ModelTypeVisionTransformer_def ModelTypeCNN_def ModelTypeMLP_def ModelTypeLargeLanguageModel_def ModelTypeDecisionTree_def ModelTypeLinear_def

type_synonym ModelReplicaStatus = string

definition ModelReplicaStatusUnknown :: ModelReplicaStatus where "ModelReplicaStatusUnknown = ''unknown''"
definition ModelReplicaStatusPending :: ModelReplicaStatus where "ModelReplicaStatusPending = ''pending''"
definition ModelReplicaStatusRunning :: ModelReplicaStatus where "ModelReplicaStatusRunning = ''running''"
definition ModelReplicaStatusFailed :: ModelReplicaStatus where "ModelReplicaStatusFailed = ''failed''"

lemmas ModelReplicaStatus_defs = ModelReplicaStatusUnknown_def ModelReplicaStatusPending_def ModelReplicaStatusRunning_def ModelReplicaStatusFailed_def

type_synonym ModelStatus = string

definition ModelStatusPending :: ModelStatus where "ModelStatusPending = ''pending''"
definition ModelStatusRunning :: ModelStatus where "ModelStatusRunning = ''running''"
definition ModelStatusPartialRunning :: ModelStatus where "ModelStatusPartialRunning = ''partial_running''"
definition ModelStatusFailed :: ModelStatus where "ModelStatusFailed = ''failed''"

lemmas ModelStatus_defs = ModelStatusPending_def ModelStatusRunning_def ModelStatusPartialRunning_def ModelStatusFailed_def

type_synonym MemoryType = string

definition MemoryTypeUnknown :: MemoryType where "MemoryTypeUnknown = ''unknown''"
definition MemoryTypeDDR3 :: MemoryType where "MemoryTypeDDR3 = ''ddr3''"
definition MemoryTypeDDR4 :: MemoryType where "MemoryTypeDDR4 = ''ddr4''"
definition MemoryTypeDDR5 :: MemoryType where "MemoryTypeDDR5 = ''ddr5''"
definition MemoryTypeLPDDR3 :: MemoryType where "MemoryTypeLPDDR3 = ''lpddr3''"
definition MemoryTypeLPDDR4 :: MemoryType where "MemoryTypeLPDDR4 = ''lpddr4''"
definition MemoryTypeLPDDR4X :: MemoryType where "MemoryTypeLPDDR4X = ''lpddr4x''"
definition MemoryTypeLPDDR5 :: MemoryType where "MemoryTypeLPDDR5 = ''lpddr5''"
definition MemoryTypeLPDDR5X :: MemoryType where "MemoryTypeLPDDR5X = ''lpddr5x''"

lemmas MemoryType_defs = MemoryTypeUnknown_def MemoryTypeDDR3_def MemoryTypeDDR4_def MemoryTypeDDR5_def MemoryTypeLPDDR3_def MemoryTypeLPDDR4_def MemoryTypeLPDDR4X_def MemoryTypeLPDDR5_def MemoryTypeLPDDR5X_def

type_synonym ComputeDeviceType = string

definition ComputeDeviceCPU :: ComputeDeviceType where "ComputeDeviceCPU = ''cpu''"
definition ComputeDeviceGPU :: ComputeDeviceType where "ComputeDeviceGPU = ''gpu''"
definition ComputeDeviceNPU :: ComputeDeviceType where "ComputeDeviceNPU = ''npu''"
definition ComputeDeviceTPU :: ComputeDeviceType where "ComputeDeviceTPU = ''tpu''"
definition ComputeDeviceDSP :: ComputeDeviceType where "ComputeDeviceDSP = ''dsp''"
definition ComputeDeviceVPU :: ComputeDeviceType where "ComputeDeviceVPU = ''vpu''"
definition ComputeDeviceFPGA :: ComputeDeviceType where "ComputeDeviceFPGA = ''fpga''"
definition ComputeDeviceIntegratedGPU :: ComputeDeviceType where "ComputeDeviceIntegratedGPU = ''integrated_gpu''"

lemmas ComputeDeviceType_defs = ComputeDeviceCPU_def ComputeDeviceGPU_def ComputeDeviceNPU_def ComputeDeviceTPU_def ComputeDeviceDSP_def ComputeDeviceVPU_def ComputeDeviceFPGA_def ComputeDeviceIntegratedGPU_def

type_synonym Status = string

definition StatusUnknown :: Status where "StatusUnknown = ''unknown''"
definition StatusOnline :: Status where "StatusOnline = ''online''"
definition StatusOffline :: Status where "StatusOffline = ''offline''"
definition StatusError :: Status where "StatusError = ''error''"

lemmas Status_defs = StatusUnknown_def StatusOnline_def StatusOffline_def StatusError_def

subsection \<open>Structs and their zero values\<close>

record ModelInfo =
  m_ID :: string
  m_Name :: string
  m_Namespace :: string
  m_Version :: string
  m_FilePath :: string
  m_ModelType :: ModelType
  m_ModelSize :: int
  m_Replicas :: int
  m_ActiveReplicas :: int
  m_ReplicaIDs :: "string list"
  m_InputFormat :: bytes

definition zero_ModelInfo :: ModelInfo where
  "zero_ModelInfo = \<lparr>m_ID = [], m_Name = [], m_Namespace = [], m_Version = [], m_FilePath = [], m_ModelType = [], m_ModelSize = 0, m_Replicas = 0, m_ActiveReplicas = 0, m_ReplicaIDs = [], m_InputFormat = []\<rparr>"

record ReplicaInfo =
  r_ID :: string
  r_ModelID :: string
  r_Name :: string
  r_Status :: ModelReplicaStatus
  r_ErrorCode :: int
  r_ErrorMessage :: string
  r_LastHeartbeat :: time

definition zero_ReplicaInfo :: ReplicaInfo where
  "zero_ReplicaInfo = \<lparr>r_ID = [], r_ModelID = [], r_Name = [], r_Status = [], r_ErrorCode = 0, r_ErrorMessage = [], r_LastHeartbeat = zero_time\<rparr>"

record MemoryInfo =
  mem_Total :: int
  mem_Free :: int
  mem_Used :: int
  mem_Type :: MemoryType

definition zero_MemoryInfo :: MemoryInfo where
  "zero_MemoryInfo = \<lparr>mem_Total = 0, mem_Free = 0, mem_Used = 0, mem_Type = []\<rparr>"

record StorageInfo =
  sto_Total :: int
  sto_Free :: int
  sto_Used :: int

definition zero_StorageInfo :: StorageInfo where
  "zero_StorageInfo = \<lparr>sto_Total = 0, sto_Free = 0, sto_Used = 0\<rparr>"

record ComputeDevice =
  cd_Type :: ComputeDeviceType
  cd_Vendor :: string
  cd_Model :: string
  cd_Memory :: int
  cd_ComputeUnits :: int
  cd_TOPS :: float64
  cd_PowerDraw :: int
  cd_IsAvailable :: bool

definition zero_ComputeDevice :: ComputeDevice where
  "zero_ComputeDevice = \<lparr>cd_Type = [], cd_Vendor = [], cd_Model = [], cd_Memory = 0, cd_ComputeUnits = 0, cd_TOPS = Fin 0, cd_PowerDraw = 0, cd_IsAvailable = False\<rparr>"

record ResourceCapabilities =
  rc_Memory :: MemoryInfo
  rc_Storage :: StorageInfo
  rc_ComputeDevices :: "ComputeDevice list"

definition zero_ResourceCapabilities :: ResourceCapabilities where
  "zero_ResourceCapabilities = \<lparr>rc_Memory = zero_MemoryInfo, rc_Storage = zero_StorageInfo, rc_ComputeDevices = []\<rparr>"

record NodeMetadata =
  md_OSType :: string
  md_AgentVersion :: string
  md_Hostname :: string

definition zero_NodeMetadata :: NodeMetadata where
  "zero_NodeMetadata = \<lparr>md_OSType = [], md_AgentVersion = [], md_Hostname = []\<rparr>"

record NodeInfo =
  n_ID :: string
  n_Name :: string
  n_IP :: string
  n_Port :: int
  n_Metadata :: NodeMetadata
  n_ResourceCapabilities :: ResourceCapabilities
  n_Status :: Status
  n_AssignedModels :: "string list"
  n_RegisteredAt :: time
  n_UpdatedAt :: time
  n_LastHeartbeat :: time
  n_LastActivity :: time

definition zero_NodeInfo :: NodeInfo where
  "zero_NodeInfo = \<lparr>n_ID = [], n_Name = [], n_IP = [], n_Port = 0, n_Metadata = zero_NodeMetadata, n_ResourceCapabilities = zero_ResourceCapabilities, n_Status = [], n_AssignedModels = [], n_RegisteredAt = zero_time, n_UpdatedAt = zero_time, n_LastHeartbeat = zero_time, n_LastActivity = zero_time\<rparr>"

subsection \<open>JSON\<close>

definition enc_ModelInfo :: "ModelInfo \<Rightarrow> json option" where
  "enc_ModelInfo x = map_option (\<lambda>fmt. JObj [
     (''id'', enc_string (m_ID x)),
     (''name'', enc_string (m_Name x)),
     (''namespace'', enc_string (m_Namespace x)),
     (''version'', enc_string (m_Version x)),
     (''file_path'', enc_string (m_FilePath x)),
     (''model_type'', enc_string (m_ModelType x)),
     (''model_size'', enc_int (m_ModelSize x)),
     (''replicas'', enc_int (m_Replicas x)),
     (''active_replicas'', enc_int (m_ActiveReplicas x)),
     (''replica_ids'', enc_slice enc_string (m_ReplicaIDs x)),
     (''input_format'', fmt)])
     (enc_raw (m_InputFormat x))"

definition enc_ReplicaInfo :: "ReplicaInfo \<Rightarrow> json" where
  "enc_ReplicaInfo x = JObj [
     (''id'', enc_string (r_ID x)),
     (''model_id'', enc_string (r_ModelID x)),
     (''name'', enc_string (r_Name x)),
     (''status'', enc_string (r_Status x)),
     (''error_code'', enc_int (r_ErrorCode x)),
     (''error_message'', enc_string (r_ErrorMessage x)),
     (''last_heartbeat'', enc_time (r_LastHeartbeat x))]"

definition enc_MemoryInfo :: "MemoryInfo \<Rightarrow> json" where
  "enc_MemoryInfo x = JObj [
     (''total'', enc_int (mem_Total x)),
     (''free'', enc_int (mem_Free x)),
     (''used'', enc_int (mem_Used x)),
     (''type'', enc_string (mem_Type x))]"

definition enc_StorageInfo :: "StorageInfo \<Rightarrow> json" where
  "enc_StorageInfo x = JObj [
     (''total'', enc_int (sto_Total x)),
     (''free'', enc_int (sto_Free x)),
     (''used'', enc_int (sto_Used x))]"

text \<open>\<open>power_draw_watts\<close> is left out when it is zero.\<close>

definition enc_ComputeDevice :: "ComputeDevice \<Rightarrow> json option" where
  "enc_ComputeDevice x = map_option (\<lambda>tops. JObj ([
     (''type'', enc_string (cd_Type x)),
     (''vendor'', enc_string (cd_Vendor x)),
     (''model'', enc_string (cd_Model x)),
     (''memory_mb'', enc_int (cd_Memory x)),
     (''compute_units'', enc_int (cd_ComputeUnits x)),
     (''tops'', tops)]
     @ (if cd_PowerDraw x = 0 then [] else [(''power_draw_watts'', enc_int (cd_PowerDraw x))])
     @ [(''is_available'', JBool (cd_IsAvailable x))]))
     (enc_float (cd_TOPS x))"

fun enc_ComputeDevices :: "ComputeDevice list \<Rightarrow> json list option" where
  "enc_ComputeDevices [] = Some []"
| "enc_ComputeDevices (d # ds) =
     (case enc_ComputeDevice d of None \<Rightarrow> None | Some j \<Rightarrow> map_option (\<lambda>js. j # js) (enc_ComputeDevices ds))"

definition enc_ResourceCapabilities :: "ResourceCapabilities \<Rightarrow> json option" where
  "enc_ResourceCapabilities x = map_option (\<lambda>devs. JObj [
     (''memory'', enc_MemoryInfo (rc_Memory x)),
     (''storage'', enc_StorageInfo (rc_Storage x)),
     (''compute_devices'', enc_slice id devs)])
     (enc_ComputeDevices (rc_ComputeDevices x))"

definition enc_NodeMetadata :: "NodeMetadata \<Rightarrow> json" where
  "enc_NodeMetadata x = JObj [
     (''os_type'', enc_string (md_OSType x)),
     (''agent_version'', enc_string (md_AgentVersion x)),
     (''hostname'', enc_string (md_Hostname x))]"

definition enc_NodeInfo :: "NodeInfo \<Rightarrow> json option" where
  "enc_NodeInfo x = map_option (\<lambda>caps. JObj [
     (''id'', enc_string (n_ID x)),
     (''name'', enc_string (n_Name x)),
     (''ip'', enc_string (n_IP x)),
     (''port'', enc_int (n_Port x)),
     (''metadata'', enc_NodeMetadata (n_Metadata x)),
     (''resource_capabilities'', caps),
     (''status'', enc_string (n_Status x)),
     (''assigned_models'', enc_slice enc_string (n_AssignedModels x)),
     (''registered_at'', enc_time (n_RegisteredAt x)),
     (''updated_at'', enc_time (n_UpdatedAt x)),
     (''last_heartbeat'', enc_time (n_LastHeartbeat x)),
     (''last_activity'', enc_time (n_LastActivity x))])
     (enc_ResourceCapabilities (n_ResourceCapabilities x))"

definition dec_ModelInfo :: "string \<Rightarrow> json \<Rightarrow> ModelInfo \<Rightarrow> ModelInfo option" where
  "dec_ModelInfo k j x =
     (if k = ''id'' then map_option (\<lambda>v. x\<lparr>m_ID := v\<rparr>) (dec_string j (m_ID x))
      else if k = ''name'' then map_option (\<lambda>v. x\<lparr>m_Name := v\<rparr>) (dec_string j (m_Name x))
      else if k = ''namespace'' then map_option (\<lambda>v. x\<lparr>m_Namespace := v\<rparr>) (dec_string j (m_Namespace x))
      else if k = ''version'' then map_option (\<lambda>v. x\<lparr>m_Version := v\<rparr>) (dec_string j (m_Version x))
      else if k = ''file_path'' then map_option (\<lambda>v. x\<lparr>m_FilePath := v\<rparr>) (dec_string j (m_FilePath x))
      else if k = ''model_type'' then map_option (\<lambda>v. x\<lparr>m_ModelType := v\<rparr>) (dec_string j (m_ModelType x))
      else if k = ''model_size'' then map_option (\<lambda>v. x\<lparr>m_ModelSize := v\<rparr>) (dec_int j (m_ModelSize x))
      else if k = ''replicas'' then map_option (\<lambda>v. x\<lparr>m_Replicas := v\<rparr>) (dec_int j (m_Replicas x))
      else if k = ''active_replicas'' then map_option (\<lambda>v. x\<lparr>m_ActiveReplicas := v\<rparr>) (dec_int j (m_ActiveReplicas x))
      else if k = ''replica_ids'' then map_option (\<lambda>v. x\<lparr>m_ReplicaIDs := v\<rparr>) (dec_slice (\<lambda>j. dec_string j []) j)
      else if k = ''input_format'' then map_option (\<lambda>v. x\<lparr>m_InputFormat := v\<rparr>) (Some (dec_raw j))
      else Some x)"

definition dec_ReplicaInfo :: "string \<Rightarrow> json \<Rightarrow> ReplicaInfo \<Rightarrow> ReplicaInfo option" where
  "dec_ReplicaInfo k j x =
     (if k = ''id'' then map_option (\<lambda>v. x\<lparr>r_ID := v\<rparr>) (dec_string j (r_ID x))
      else if k = ''model_id'' then map_option (\<lambda>v. x\<lparr>r_ModelID := v\<rparr>) (dec_string j (r_ModelID x))
      else if k = ''name'' then map_option (\<lambda>v. x\<lparr>r_Name := v\<rparr>) (dec_string j (r_Name x))
      else if k = ''status'' then map_option (\<lambda>v. x\<lparr>r_Status := v\<rparr>) (dec_string j (r_Status x))
      else if k = ''error_code'' then map_option (\<lambda>v. x\<lparr>r_ErrorCode := v\<rparr>) (dec_int j (r_ErrorCode x))
      else if k = ''error_message'' then map_option (\<lambda>v. x\<lparr>r_ErrorMessage := v\<rparr>) (dec_string j (r_ErrorMessage x))
      else if k = ''last_heartbeat'' then map_option (\<lambda>v. x\<lparr>r_LastHeartbeat := v\<rparr>) (dec_time j (r_LastHeartbeat x))
      else Some x)"

definition dec_MemoryInfo :: "string \<Rightarrow> json \<Rightarrow> MemoryInfo \<Rightarrow> MemoryInfo option" where
  "dec_MemoryInfo k j x =
     (if k = ''total'' then map_option (\<lambda>v. x\<lparr>mem_Total := v\<rparr>) (dec_int j (mem_Total x))
      else if k = ''free'' then map_option (\<lambda>v. x\<lparr>mem_Free := v\<rparr>) (dec_int j (mem_Free x))
      else if k = ''used'' then map_option (\<lambda>v. x\<lparr>mem_Used := v\<rparr>) (dec_int j (mem_Used x))
      else if k = ''type'' then map_option (\<lambda>v. x\<lparr>mem_Type := v\<rparr>) (dec_string j (mem_Type x))
      else Some x)"

definition dec_StorageInfo :: "string \<Rightarrow> json \<Rightarrow> StorageInfo \<Rightarrow> StorageInfo option" where
  "dec_StorageInfo k j x =
     (if k = ''total'' then map_option (\<lambda>v. x\<lparr>sto_Total := v\<rparr>) (dec_int j (sto_Total x))
      else if k = ''free'' then map_option (\<lambda>v. x\<lparr>sto_Free := v\<rparr>) (dec_int j (sto_Free x))
      else if k = ''used'' then map_option (\<lambda>v. x\<lparr>sto_Used := v\<rparr>) (dec_int j (sto_Used x))
      else Some x)"

definition dec_ComputeDevice :: "string \<Rightarrow> json \<Rightarrow> ComputeDevice \<Rightarrow> ComputeDevice option" where
  "dec_ComputeDevice k j x =
     (if k = ''type'' then map_option (\<lambda>v. x\<lparr>cd_Type := v\<rparr>) (dec_string j (cd_Type x))
      else if k = ''vendor'' then map_option (\<lambda>v. x\<lparr>cd_Vendor := v\<rparr>) (dec_string j (cd_Vendor x))
      else if k = ''model'' then map_option (\<lambda>v. x\<lparr>cd_Model := v\<rparr>) (dec_string j (cd_Model x))
      else if k = ''memory_mb'' then map_option (\<lambda>v. x\<lparr>cd_Memory := v\<rparr>) (dec_int j (cd_Memory x))
      else if k = ''compute_units'' then map_option (\<lambda>v. x\<lparr>cd_ComputeUnits := v\<rparr>) (dec_int j (cd_ComputeUnits x))
      else if k = ''tops'' then map_option (\<lambda>v. x\<lparr>cd_TOPS := v\<rparr>) (dec_float j (cd_TOPS x))
      else if k = ''power_draw_watts'' then map_option (\<lambda>v. x\<lparr>cd_PowerDraw := v\<rparr>) (dec_int j (cd_PowerDraw x))
      else if k = ''is_available'' then map_option (\<lambda>v. x\<lparr>cd_IsAvailable := v\<rparr>) (dec_bool j (cd_IsAvailable x))
      else Some x)"

definition dec_ResourceCapabilities :: "string \<Rightarrow> json \<Rightarrow> ResourceCapabilities \<Rightarrow> ResourceCapabilities option" where
  "dec_ResourceCapabilities k j x =
     (if k = ''memory'' then map_option (\<lambda>v. x\<lparr>rc_Memory := v\<rparr>) (dec_struct dec_MemoryInfo j (rc_Memory x))
      else if k = ''storage'' then map_option (\<lambda>v. x\<lparr>rc_Storage := v\<rparr>) (dec_struct dec_StorageInfo j (rc_Storage x))
      else if k = ''compute_devices'' then map_option (\<lambda>v. x\<lparr>rc_ComputeDevices := v\<rparr>) (dec_slice (\<lambda>j. dec_struct dec_ComputeDevice j zero_ComputeDevice) j)
      else Some x)"

definition dec_NodeMetadata :: "string \<Rightarrow> json \<Rightarrow> NodeMetadata \<Rightarrow> NodeMetadata option" where
  "dec_NodeMetadata k j x =
     (if k = ''os_type'' then map_option (\<lambda>v. x\<lparr>md_OSType := v\<rparr>) (dec_string j (md_OSType x))
      else if k = ''agent_version'' then map_option (\<lambda>v. x\<lparr>md_AgentVersion := v\<rparr>) (dec_string j (md_AgentVersion x))
      else if k = ''hostname'' then map_option (\<lambda>v. x\<lparr>md_Hostname := v\<rparr>) (dec_string j (md_Hostname x))
      else Some x)"

definition dec_NodeInfo :: "string \<Rightarrow> json \<Rightarrow> NodeInfo \<Rightarrow> NodeInfo option" where
  "dec_NodeInfo k j x =
     (if k = ''id'' then map_option (\<lambda>v. x\<lparr>n_ID := v\<rparr>) (dec_string j (n_ID x))
      else if k = ''name'' then map_option (\<lambda>v. x\<lparr>n_Name := v\<rparr>) (dec_string j (n_Name x))
      else if k = ''ip'' then map_option (\<lambda>v. x\<lparr>n_IP := v\<rparr>) (dec_string j (n_IP x))
      else if k = ''port'' then map_option (\<lambda>v. x\<lparr>n_Port := v\<rparr>) (dec_int j (n_Port x))
      else if k = ''metadata'' then map_option (\<lambda>v. x\<lparr>n_Metadata := v\<rparr>) (dec_struct dec_NodeMetadata j (n_Metadata x))
      else if k = ''resource_capabilities'' then map_option (\<lambda>v. x\<lparr>n_ResourceCapabilities := v\<rparr>) (dec_struct dec_ResourceCapabilities j (n_ResourceCapabilities x))
      else if k = ''status'' then map_option (\<lambda>v. x\<lparr>n_Status := v\<rparr>) (dec_string j (n_Status x))
      else if k = ''assigned_models'' then map_option (\<lambda>v. x\<lparr>n_AssignedModels := v\<rparr>) (dec_slice (\<lambda>j. dec_string j []) j)
      else if k = ''registered_at'' then map_option (\<lambda>v. x\<lparr>n_RegisteredAt := v\<rparr>) (dec_time j (n_RegisteredAt x))
      else if k = ''updated_at'' then map_option (\<lambda>v. x\<lparr>n_UpdatedAt := v\<rparr>) (dec_time j (n_UpdatedAt x))
      else if k = ''last_heartbeat'' then map_option (\<lambda>v. x\<lparr>n_LastHeartbeat := v\<rparr>) (dec_time j (n_LastHeartbeat x))
      else if k = ''last_activity'' then map_option (\<lambda>v. x\<lparr>n_LastActivity := v\<rparr>) (dec_time j (n_LastActivity x))
      else Some x)"

definition marshal_ModelInfo :: "ModelInfo \<Rightarrow> bytes option" where
  "marshal_ModelInfo x = map_option json_text (enc_ModelInfo x)"

definition marshal_NodeInfo :: "NodeInfo \<Rightarrow> bytes option" where
  "marshal_NodeInfo x = map_option json_text (enc_NodeInfo x)"

definition marshal_ReplicaInfo :: "ReplicaInfo \<Rightarrow> bytes option" where
  "marshal_ReplicaInfo x = Some (json_text (enc_ReplicaInfo x))"

definition unmarshal_ModelInfo :: "bytes \<Rightarrow> ModelInfo option" where
  "unmarshal_ModelInfo b = unmarshal dec_ModelInfo zero_ModelInfo b"

definition unmarshal_ReplicaInfo :: "bytes \<Rightarrow> ReplicaInfo option" where
  "unmarshal_ReplicaInfo b = unmarshal dec_ReplicaInfo zero_ReplicaInfo b"

definition unmarshal_NodeInfo :: "bytes \<Rightarrow> NodeInfo option" where
  "unmarshal_NodeInfo b = unmarshal dec_NodeInfo zero_NodeInfo b"


subsection \<open>Round trips\<close>

lemma struct_keys_raw_ok [simp]:
  "raw_ok ''active_replicas''"
  "raw_ok ''agent_version''"
  "raw_ok ''assigned_models''"
  "raw_ok ''compute_devices''"
  "raw_ok ''compute_units''"
  "raw_ok ''error_code''"
  "raw_ok ''error_message''"
  "raw_ok ''file_path''"
  "raw_ok ''free''"
  "raw_ok ''hostname''"
  "raw_ok ''id''"
  "raw_ok ''input_format''"
  "raw_ok ''ip''"
  "raw_ok ''is_available''"
  "raw_ok ''last_activity''"
  "raw_ok ''last_heartbeat''"
  "raw_ok ''memory''"
  "raw_ok ''memory_mb''"
  "raw_ok ''metadata''"
  "raw_ok ''model''"
  "raw_ok ''model_id''"
  "raw_ok ''model_size''"
  "raw_ok ''model_type''"
  "raw_ok ''name''"
  "raw_ok ''namespace''"
  "raw_ok ''os_type''"
  "raw_ok ''port''"
  "raw_ok ''power_draw_watts''"
  "raw_ok ''registered_at''"
  "raw_ok ''replica_ids''"
  "raw_ok ''replicas''"
  "raw_ok ''resource_capabilities''"
  "raw_ok ''status''"
  "raw_ok ''storage''"
  "raw_ok ''tops''"
  "raw_ok ''total''"
  "raw_ok ''type''"
  "raw_ok ''updated_at''"
  "raw_ok ''used''"
  "raw_ok ''vendor''"
  "raw_ok ''version''"
  by (simp_all add: plain_raw_ok plain_char_def byte_of_def)

lemma struct_keys_unquote [simp]:
  "ToLower (json_unquote ''active_replicas'') = ''active_replicas''"
  "ToLower (json_unquote ''agent_version'') = ''agent_version''"
  "ToLower (json_unquote ''assigned_models'') = ''assigned_models''"
  "ToLower (json_unquote ''compute_devices'') = ''compute_devices''"
  "ToLower (json_unquote ''compute_units'') = ''compute_units''"
  "ToLower (json_unquote ''error_code'') = ''error_code''"
  "ToLower (json_unquote ''error_message'') = ''error_message''"
  "ToLower (json_unquote ''file_path'') = ''file_path''"
  "ToLower (json_unquote ''free'') = ''free''"
  "ToLower (json_unquote ''hostname'') = ''hostname''"
  "ToLower (json_unquote ''id'') = ''id''"
  "ToLower (json_unquote ''input_format'') = ''input_format''"
  "ToLower (json_unquote ''ip'') = ''ip''"
  "ToLower (json_unquote ''is_available'') = ''is_available''"
  "ToLower (json_unquote ''last_activity'') = ''last_activity''"
  "ToLower (json_unquote ''last_heartbeat'') = ''last_heartbeat''"
  "ToLower (json_unquote ''memory'') = ''memory''"
  "ToLower (json_unquote ''memory_mb'') = ''memory_mb''"
  "ToLower (json_unquote ''metadata'') = ''metadata''"
  "ToLower (json_unquote ''model'') = ''model''"
  "ToLower (json_unquote ''model_id'') = ''model_id''"
  "ToLower (json_unquote ''model_size'') = ''model_size''"
  "ToLower (json_unquote ''model_type'') = ''model_type''"
  "ToLower (json_unquote ''name'') = ''name''"
  "ToLower (json_unquote ''namespace'') = ''namespace''"
  "ToLower (json_unquote ''os_type'') = ''os_type''"
  "ToLower (json_unquote ''port'') = ''port''"
  "ToLower (json_unquote ''power_draw_watts'') = ''power_draw_watts''"
  "ToLower (json_unquote ''registered_at'') = ''registered_at''"
  "ToLower (json_unquote ''replica_ids'') = ''replica_ids''"
  "ToLower (json_unquote ''replicas'') = ''replicas''"
  "ToLower (json_unquote ''resource_capabilities'') = ''resource_capabilities''"
  "ToLower (json_unquote ''status'') = ''status''"
  "ToLower (json_unquote ''storage'') = ''storage''"
  "ToLower (json_unquote ''tops'') = ''tops''"
  "ToLower (json_unquote ''total'') = ''total''"
  "ToLower (json_unquote ''type'') = ''type''"
  "ToLower (json_unquote ''updated_at'') = ''updated_at''"
  "ToLower (json_unquote ''used'') = ''used''"
  "ToLower (json_unquote ''vendor'') = ''vendor''"
  "ToLower (json_unquote ''version'') = ''version''"
  by (simp_all add: plain_unquote plain_char_def byte_of_def ToLower_def lower_char_def)

definition wf_ModelInfo :: "ModelInfo \<Rightarrow> bool" where
  "wf_ModelInfo x \<longleftrightarrow> in_int64 (m_ModelSize x) \<and> in_int64 (m_Replicas x) \<and> in_int64 (m_ActiveReplicas x)"

definition norm_ModelInfo :: "ModelInfo \<Rightarrow> ModelInfo" where
  "norm_ModelInfo x =
     x\<lparr>m_InputFormat := (case enc_raw (m_InputFormat x) of None \<Rightarrow> [] | Some j \<Rightarrow> json_text j)\<rparr>"

definition wf_ReplicaInfo :: "ReplicaInfo \<Rightarrow> bool" where
  "wf_ReplicaInfo x \<longleftrightarrow> in_int64 (r_ErrorCode x) \<and> in_int64 (r_LastHeartbeat x)"

definition wf_ComputeDevice :: "ComputeDevice \<Rightarrow> bool" where
  "wf_ComputeDevice x \<longleftrightarrow> in_int64 (cd_Memory x) \<and> in_int64 (cd_ComputeUnits x) \<and> is_f64 (cd_TOPS x) \<and>
     in_int64 (cd_PowerDraw x)"

definition wf_MemoryInfo :: "MemoryInfo \<Rightarrow> bool" where
  "wf_MemoryInfo x \<longleftrightarrow> in_int64 (mem_Total x) \<and> in_int64 (mem_Free x) \<and> in_int64 (mem_Used x)"

definition wf_StorageInfo :: "StorageInfo \<Rightarrow> bool" where
  "wf_StorageInfo x \<longleftrightarrow> in_int64 (sto_Total x) \<and> in_int64 (sto_Free x) \<and> in_int64 (sto_Used x)"

definition wf_ResourceCapabilities :: "ResourceCapabilities \<Rightarrow> bool" where
  "wf_ResourceCapabilities x \<longleftrightarrow> wf_MemoryInfo (rc_Memory x) \<and> wf_StorageInfo (rc_Storage x) \<and>
     list_all wf_ComputeDevice (rc_ComputeDevices x)"

definition wf_NodeInfo :: "NodeInfo \<Rightarrow> bool" where
  "wf_NodeInfo x \<longleftrightarrow> in_int64 (n_Port x) \<and> wf_ResourceCapabilities (n_ResourceCapabilities x) \<and>
     in_int64 (n_RegisteredAt x) \<and> in_int64 (n_UpdatedAt x) \<and> in_int64 (n_LastHeartbeat x) \<and>
     in_int64 (n_LastActivity x)"

lemma wf_enc_strings [simp]: "wf_json (enc_slice enc_string xs)"
  by (rule wf_enc_slice) simp

lemma dec_enc_strings [codec_simps]: "dec_slice (\<lambda>j. dec_string j []) (enc_slice enc_string xs) = Some xs"
  by (rule dec_enc_slice) (simp add: codec_simps)

lemma dec_bool_JBool [codec_simps]: "dec_bool (JBool b) old = Some b"
  by simp

lemma wf_enc_ModelInfo: "enc_ModelInfo x = Some j \<Longrightarrow> wf_json j"
  by (auto simp: enc_ModelInfo_def)

lemma enc_ModelInfo_ok [simp]: "enc_ModelInfo x = None \<longleftrightarrow> enc_raw (m_InputFormat x) = None"
  by (simp add: enc_ModelInfo_def)

lemma dec_enc_ModelInfo:
  assumes "wf_ModelInfo x" "enc_ModelInfo x = Some j"
  shows "dec_struct dec_ModelInfo j zero_ModelInfo = Some (norm_ModelInfo x)"
  using assms
  by (auto simp: enc_ModelInfo_def dec_ModelInfo_def zero_ModelInfo_def norm_ModelInfo_def
      wf_ModelInfo_def dec_raw_def codec_simps)

theorem unmarshal_marshal_ModelInfo:
  "wf_ModelInfo x \<Longrightarrow> marshal_ModelInfo x = Some b \<Longrightarrow> unmarshal_ModelInfo b = Some (norm_ModelInfo x)"
  by (auto simp: marshal_ModelInfo_def unmarshal_ModelInfo_def unmarshal_text wf_enc_ModelInfo dec_enc_ModelInfo)

lemma wf_enc_ReplicaInfo [simp]: "wf_json (enc_ReplicaInfo x)"
  by (simp add: enc_ReplicaInfo_def)

theorem unmarshal_marshal_ReplicaInfo:
  "wf_ReplicaInfo x \<Longrightarrow> marshal_ReplicaInfo x = Some b \<Longrightarrow> unmarshal_ReplicaInfo b = Some x"
  by (auto simp: marshal_ReplicaInfo_def unmarshal_ReplicaInfo_def unmarshal_text)
     (simp add: enc_ReplicaInfo_def dec_ReplicaInfo_def zero_ReplicaInfo_def wf_ReplicaInfo_def codec_simps)

lemma wf_enc_ComputeDevice: "enc_ComputeDevice x = Some j \<Longrightarrow> wf_json j"
  by (auto simp: enc_ComputeDevice_def)

lemma dec_enc_ComputeDevice:
  assumes "wf_ComputeDevice x" "enc_ComputeDevice x = Some j"
  shows "dec_struct dec_ComputeDevice j zero_ComputeDevice = Some x"
  using assms
  by (auto simp: enc_ComputeDevice_def dec_ComputeDevice_def zero_ComputeDevice_def wf_ComputeDevice_def
      codec_simps)

lemma wf_enc_ComputeDevices: "enc_ComputeDevices xs = Some js \<Longrightarrow> list_all wf_json js"
  by (induction xs arbitrary: js) (auto simp: wf_enc_ComputeDevice split: option.splits)

lemma dec_enc_ComputeDevices:
  assumes "list_all wf_ComputeDevice xs" "enc_ComputeDevices xs = Some js"
  shows "dec_slice (\<lambda>j. dec_struct dec_ComputeDevice j zero_ComputeDevice) (enc_slice id js) = Some xs"
proof -
  have "dec_all (\<lambda>j. dec_struct dec_ComputeDevice j zero_ComputeDevice) js = Some xs"
    using assms by (induction xs arbitrary: js) (auto simp: dec_enc_ComputeDevice split: option.splits)
  then show ?thesis by (cases js) (simp_all add: enc_slice_def)
qed

lemma wf_enc_Info [simp]:
  "wf_json (enc_MemoryInfo m)" "wf_json (enc_StorageInfo s)" "wf_json (enc_NodeMetadata d)"
  by (simp_all add: enc_MemoryInfo_def enc_StorageInfo_def enc_NodeMetadata_def)

lemma dec_enc_Info [codec_simps]:
  "wf_MemoryInfo m \<Longrightarrow> dec_struct dec_MemoryInfo (enc_MemoryInfo m) om = Some m"
  "wf_StorageInfo s \<Longrightarrow> dec_struct dec_StorageInfo (enc_StorageInfo s) os = Some s"
  "dec_struct dec_NodeMetadata (enc_NodeMetadata d) od = Some d"
  by (simp_all add: enc_MemoryInfo_def dec_MemoryInfo_def wf_MemoryInfo_def
      enc_StorageInfo_def dec_StorageInfo_def wf_StorageInfo_def
      enc_NodeMetadata_def dec_NodeMetadata_def codec_simps)

lemma wf_enc_ResourceCapabilities: "enc_ResourceCapabilities x = Some j \<Longrightarrow> wf_json j"
  by (auto simp: enc_ResourceCapabilities_def enc_slice_def dest: wf_enc_ComputeDevices)

lemma dec_enc_ResourceCapabilities [codec_simps]:
  assumes "enc_ResourceCapabilities x = Some j" "wf_ResourceCapabilities x"
  shows "dec_struct dec_ResourceCapabilities j old = Some x"
  using assms
  by (auto simp: enc_ResourceCapabilities_def dec_ResourceCapabilities_def wf_ResourceCapabilities_def
      dec_enc_ComputeDevices codec_simps)

lemma wf_enc_NodeInfo: "enc_NodeInfo x = Some j \<Longrightarrow> wf_json j"
  by (auto simp: enc_NodeInfo_def wf_enc_ResourceCapabilities)

lemma dec_enc_NodeInfo:
  assumes "wf_NodeInfo x" "enc_NodeInfo x = Some j"
  shows "dec_struct dec_NodeInfo j zero_NodeInfo = Some x"
  using assms
  by (auto simp: enc_NodeInfo_def dec_NodeInfo_def zero_NodeInfo_def wf_NodeInfo_def codec_simps)

theorem unmarshal_marshal_NodeInfo:
  "wf_NodeInfo x \<Longrightarrow> marshal_NodeInfo x = Some b \<Longrightarrow> unmarshal_NodeInfo b = Some x"
  by (auto simp: marshal_NodeInfo_def unmarshal_NodeInfo_def unmarshal_text wf_enc_NodeInfo dec_enc_NodeInfo)

text \<open>Which values can be stored at all: those whose numbers have a JSON form.\<close>

lemma marshal_NodeInfo_None:
  "marshal_NodeInfo x = None \<longleftrightarrow>
     (\<exists>d \<in> set (rc_ComputeDevices (n_ResourceCapabilities x)). \<forall>r. cd_TOPS d \<noteq> Fin r)"
proof -
  have "enc_ComputeDevices ds = None \<longleftrightarrow> (\<exists>d \<in> set ds. \<forall>r. cd_TOPS d \<noteq> Fin r)" for ds
    by (induction ds) (auto simp: enc_ComputeDevice_def split: option.splits elim!: enc_float.elims)
  then show ?thesis
    by (simp add: marshal_NodeInfo_def enc_NodeInfo_def enc_ResourceCapabilities_def)
qed

lemma marshal_ModelInfo_None:
  "marshal_ModelInfo x = None \<longleftrightarrow> m_InputFormat x \<noteq> [] \<and> json_scan (m_InputFormat x) = None"
  by (auto simp: marshal_ModelInfo_def enc_raw_def)

end
