(* ===== verification/Replica_Manager.thy ===== *)
theory Replica_Manager
  imports Store_Types
begin

section \<open>The replica table\<close>

text \<open>
  Models \<open>internal/control-plane/scheduler/replica/replica_manager.go\<close>: the rows
  \<open>replica:<id>\<close> of the store. A lookup returns \<open>Inr None\<close> where the code returns
  \<open>(zero, false, nil)\<close>. The interpretation \<open>replicas\<close> of the \<open>table\<close> interface gives the
  lemmas on reading, writing and listing.
\<close>

definition replica_prefix :: string where "replica_prefix = ''replica:''"

lemma replica_prefix_ne [simp]: "replica_prefix \<noteq> []"
  by (simp add: replica_prefix_def)

definition CreateReplica :: "io \<Rightarrow> string \<Rightarrow> ReplicaInfo \<Rightarrow> Store \<Rightarrow> error option \<times> Store" where
  "CreateReplica x replicaID info s =
     (if replicaID = [] then (Some ''replicaID cannot be empty'', s)
      else if r_ID info \<noteq> [] \<and> r_ID info \<noteq> replicaID
      then (Some (''replica info ID '' @ Quote (r_ID info) @ '' does not match replicaID '' @ Quote replicaID), s)
      else
        (let info = (if r_ID info = [] then info\<lparr>r_ID := replicaID\<rparr> else info) in
         case marshal_ReplicaInfo info of
           None \<Rightarrow> (Some ''marshal replica info: unsupported value'', s)
         | Some b \<Rightarrow> Put x (replica_prefix @ replicaID) b s))"

definition GetReplicaByID :: "string \<Rightarrow> Store \<Rightarrow> ReplicaInfo option result" where
  "GetReplicaByID replicaID s =
     (if replicaID = [] then Inl ''replicaID cannot be empty''
      else case Get (replica_prefix @ replicaID) s of
        None \<Rightarrow> Inr None
      | Some raw \<Rightarrow>
          (case unmarshal_ReplicaInfo raw of
             None \<Rightarrow> Inl ''unmarshal replica info: invalid JSON''
           | Some info \<Rightarrow> Inr (Some info)))"

definition UpdateReplicaInfo :: "io \<Rightarrow> string \<Rightarrow> ReplicaInfo \<Rightarrow> Store \<Rightarrow> error option \<times> Store" where
  "UpdateReplicaInfo x replicaID info s =
     (if replicaID = [] then (Some ''replicaID cannot be empty'', s)
      else if r_ID info \<noteq> [] \<and> r_ID info \<noteq> replicaID
      then (Some (''replica info ID '' @ Quote (r_ID info) @ '' does not match replicaID '' @ Quote replicaID), s)
      else
        (case marshal_ReplicaInfo (info\<lparr>r_ID := replicaID\<rparr>) of
           None \<Rightarrow> (Some ''marshal replica info: unsupported value'', s)
         | Some b \<Rightarrow> Put x (replica_prefix @ replicaID) b s))"

definition DeleteReplica :: "io \<Rightarrow> string \<Rightarrow> Store \<Rightarrow> error option \<times> Store" where
  "DeleteReplica x replicaID s =
     (if replicaID = [] then (Some ''replicaID cannot be empty'', s)
      else Delete x (replica_prefix @ replicaID) s)"

definition ListReplicas :: "(string list \<Rightarrow> string list) \<Rightarrow> Store \<Rightarrow> ReplicaInfo list result" where
  "ListReplicas ord s =
     list_entries replica_prefix unmarshal_ReplicaInfo ''replica'' (\<lambda>k. Get k s) (Keys ord s)"

definition ListReplicasByModelID :: "(string list \<Rightarrow> string list) \<Rightarrow> string \<Rightarrow> Store \<Rightarrow> ReplicaInfo list result" where
  "ListReplicasByModelID ord modelID s =
     (if modelID = [] then Inl ''modelID cannot be empty''
      else case ListReplicas ord s of
        Inl e \<Rightarrow> Inl e
      | Inr allReplicas \<Rightarrow> Inr (filter (\<lambda>r. r_ModelID r = modelID) allReplicas))"


subsection \<open>The table\<close>

interpretation replicas: table Get "\<lambda>s. Keys id s" put_ok del_ok store_inv
  replica_prefix marshal_ReplicaInfo unmarshal_ReplicaInfo "\<lambda>x. x" wf_ReplicaInfo
  by unfold_locales (simp_all add: unmarshal_marshal_ReplicaInfo)

definition replica_rows_ok :: "Store \<Rightarrow> bool" where
  "replica_rows_ok s \<longleftrightarrow> rows_ok replica_prefix unmarshal_ReplicaInfo r_ID (\<lambda>k. Get k s)"

definition replica_at :: "Store \<Rightarrow> string \<rightharpoonup> ReplicaInfo" where
  "replica_at s i = Option.bind (Get (replica_prefix @ i) s) unmarshal_ReplicaInfo"

lemma replica_at_ID: "replica_rows_ok s \<Longrightarrow> replica_at s i = Some r \<Longrightarrow> r_ID r = i"
  by (auto simp: replica_at_def replica_rows_ok_def bind_eq_Some_conv dest: rows_okD)

lemma replica_rows_ok_cong:
  "(\<And>i. Get (replica_prefix @ i) s = Get (replica_prefix @ i) s') \<Longrightarrow> replica_rows_ok s = replica_rows_ok s'"
  unfolding replica_rows_ok_def by (rule rows_ok_cong) simp

lemma GetReplicaByID_at:
  assumes "replica_rows_ok s" "i \<noteq> []"
  shows "GetReplicaByID i s = Inr (replica_at s i)"
  using assms
  by (auto simp: GetReplicaByID_def replica_at_def replica_rows_ok_def split: option.splits dest!: rows_okD)

lemma marshal_ReplicaInfo_total: "\<exists>b. marshal_ReplicaInfo r = Some b"
  by (simp add: marshal_ReplicaInfo_def)

lemma replica_put:
  assumes "store_inv s" "wf_ReplicaInfo r" "marshal_ReplicaInfo r = Some b"
  shows "replica_at (put_ok (replica_prefix @ i) b s) = (replica_at s)(i \<mapsto> r)"
  using assms replicas.read_own_write [OF assms] 
  by (auto simp: replica_at_def fun_eq_iff replicas.other_row bind_eq_Some_conv)

lemma replica_rows_ok_put:
  assumes "store_inv s" "replica_rows_ok s" "wf_ReplicaInfo r" "r_ID r = i" "marshal_ReplicaInfo r = Some b"
  shows "replica_rows_ok (put_ok (replica_prefix @ i) b s)"
  using assms replicas.rows_ok_put [of s r_ID b r i] unmarshal_marshal_ReplicaInfo [OF assms(3,5)]
  by (simp add: replica_rows_ok_def)

text \<open>
  A write that returns no error is the write of the fault-free run; the lemmas on faultless
  writes carry over to every execution.
\<close>

lemma UpdateReplicaInfo_None:
  assumes "UpdateReplicaInfo x i r s = (None, s')"
  shows "i \<noteq> []" "r_ID r = [] \<or> r_ID r = i"
    "\<exists>b. marshal_ReplicaInfo (r\<lparr>r_ID := i\<rparr>) = Some b \<and> s' = put_ok (replica_prefix @ i) b s \<and> walFile s"
  using assms
  by (auto simp: UpdateReplicaInfo_def put_ok_def dest: Put_None split: if_splits option.splits)

lemma CreateReplica_None:
  assumes "CreateReplica x i r s = (None, s')"
  shows "UpdateReplicaInfo x i r s = (None, s')"
  using assms
  by (auto simp: CreateReplica_def UpdateReplicaInfo_def Let_def split: if_splits option.splits)

lemma UpdateReplicaInfo_error_frame:
  assumes "UpdateReplicaInfo x i r s = (Some e, s')"
  shows "data s' = data s \<and> walFile s' = walFile s"
  using assms
  by (auto simp: UpdateReplicaInfo_def dest: Put_error_frame split: if_splits option.splits)

lemma UpdateReplicaInfo_at:
  assumes "store_inv s" "wf_ReplicaInfo r" "UpdateReplicaInfo x i r s = (None, s')"
  shows "replica_at s' = (replica_at s)(i \<mapsto> r\<lparr>r_ID := i\<rparr>)" "store_inv s'"
    "\<not> HasPrefix k replica_prefix \<Longrightarrow> Get k s' = Get k s"
    "replica_rows_ok s \<Longrightarrow> replica_rows_ok s'"
proof -
  from UpdateReplicaInfo_None [OF assms(3)] obtain b where i: "i \<noteq> []"
    and b: "marshal_ReplicaInfo (r\<lparr>r_ID := i\<rparr>) = Some b" "s' = put_ok (replica_prefix @ i) b s" by blast
  have wf: "wf_ReplicaInfo (r\<lparr>r_ID := i\<rparr>)" using assms(2) by (simp add: wf_ReplicaInfo_def)
  show "replica_at s' = (replica_at s)(i \<mapsto> r\<lparr>r_ID := i\<rparr>)"
    unfolding b(2) by (rule replica_put [OF assms(1) wf b(1)])
  show "store_inv s'" using wal.invar_put [OF assms(1)] b(2) by simp
  show "\<not> HasPrefix k replica_prefix \<Longrightarrow> Get k s' = Get k s"
    using replicas.other_table [OF assms(1)] b(2) by simp
  show "replica_rows_ok s \<Longrightarrow> replica_rows_ok s'"
    unfolding b(2) by (rule replica_rows_ok_put [OF assms(1) _ wf _ b(1)]) simp_all
qed

lemma ListReplicas_total:
  assumes "store_inv s" "replica_rows_ok s" "is_order ord"
  obtains rs where "ListReplicas ord s = Inr rs" "distinct (map r_ID rs)"
    "\<And>r. r \<in> set rs \<longleftrightarrow> replica_at s (r_ID r) = Some r"
proof -
  from assms replicas.list_total [OF assms(1) Keys_perm [OF assms(3)], of r_ID "''replica''"]
  obtain rs where rs: "ListReplicas ord s = Inr rs" "distinct (map r_ID rs)"
    "\<And>r. r \<in> set rs \<longleftrightarrow> (\<exists>b. Get (replica_prefix @ r_ID r) s = Some b \<and> unmarshal_ReplicaInfo b = Some r)"
    by (auto simp: replica_rows_ok_def ListReplicas_def)
  from rs(1,2) show thesis by (rule that) (simp add: rs(3) replica_at_def bind_eq_Some_conv)
qed

lemma ListReplicasByModelID_total:
  assumes "store_inv s" "replica_rows_ok s" "is_order ord" "m \<noteq> []"
  obtains rs where "ListReplicasByModelID ord m s = Inr rs" "distinct (map r_ID rs)"
    "\<And>r. r \<in> set rs \<longleftrightarrow> replica_at s (r_ID r) = Some r \<and> r_ModelID r = m"
proof -
  from ListReplicas_total [OF assms(1-3)] obtain rs where rs: "ListReplicas ord s = Inr rs" "distinct (map r_ID rs)"
    "\<And>r. r \<in> set rs \<longleftrightarrow> replica_at s (r_ID r) = Some r" by blast
  with assms(4) have "ListReplicasByModelID ord m s = Inr (filter (\<lambda>r. r_ModelID r = m) rs)"
    by (simp add: ListReplicasByModelID_def)
  moreover have "distinct (map r_ID (filter (\<lambda>r. r_ModelID r = m) rs))"
    using rs(2) by (rule distinct_map_filter)
  ultimately show thesis by (rule that) (auto simp: rs(3))
qed

end
