(* ===== verification/Node_Registry.thy ===== *)
theory Node_Registry
  imports Replica_Manager
begin

section \<open>The node registry\<close>

text \<open>
  Models \<open>internal/control-plane/controller/registry/node_registry.go\<close>: the rows
  \<open>node:<id>\<close> of the store. \<open>time.Now()\<close> is the parameter \<open>now\<close> of the operations that
  read the clock. \<open>node_at s\<close> is the registry as a map from identifiers to nodes; the lemmas
  say what every operation does to that map.
\<close>

definition node_prefix :: string where "node_prefix = ''node:''"

lemma node_prefix_ne [simp]: "node_prefix \<noteq> []"
  by (simp add: node_prefix_def)

text \<open>The identifier and the times of a node that is registered.\<close>

definition stamp :: "time \<Rightarrow> string \<Rightarrow> NodeInfo \<Rightarrow> NodeInfo" where
  "stamp now nodeID nodeInfo =
     (let nodeInfo = (if n_ID nodeInfo = [] then nodeInfo\<lparr>n_ID := nodeID\<rparr> else nodeInfo);
          nodeInfo = (if IsZero (n_RegisteredAt nodeInfo) then nodeInfo\<lparr>n_RegisteredAt := now\<rparr> else nodeInfo);
          nodeInfo = nodeInfo\<lparr>n_UpdatedAt := now\<rparr>
      in if IsZero (n_LastActivity nodeInfo) then nodeInfo\<lparr>n_LastActivity := now\<rparr> else nodeInfo)"

definition RegisterNode :: "io \<Rightarrow> time \<Rightarrow> string \<Rightarrow> NodeInfo \<Rightarrow> Store \<Rightarrow> error option \<times> Store" where
  "RegisterNode x now nodeID nodeInfo s =
     (if nodeID = [] then (Some ''nodeID cannot be empty'', s)
      else case marshal_NodeInfo (stamp now nodeID nodeInfo) of
        None \<Rightarrow> (Some ''marshal node info: unsupported value'', s)
      | Some b \<Rightarrow> Put x (node_prefix @ nodeID) b s)"

definition DeRegisterNode :: "io \<Rightarrow> string \<Rightarrow> Store \<Rightarrow> error option \<times> Store" where
  "DeRegisterNode x nodeID s =
     (if nodeID = [] then (Some ''nodeID cannot be empty'', s)
      else Delete x (node_prefix @ nodeID) s)"

definition GetNodeByID :: "string \<Rightarrow> Store \<Rightarrow> NodeInfo option result" where
  "GetNodeByID nodeID s =
     (if nodeID = [] then Inl ''nodeID cannot be empty''
      else case Get (node_prefix @ nodeID) s of
        None \<Rightarrow> Inr None
      | Some raw \<Rightarrow>
          (case unmarshal_NodeInfo raw of
             None \<Rightarrow> Inl ''unmarshal node info: invalid JSON''
           | Some info \<Rightarrow> Inr (Some info)))"

text \<open>\<open>UpdateNodeInfo\<close> keeps the times of the stored node where the new value has none.\<close>

definition keep_times :: "NodeInfo \<Rightarrow> NodeInfo \<Rightarrow> NodeInfo" where
  "keep_times existing info =
     (let info = (if IsZero (n_RegisteredAt info) then info\<lparr>n_RegisteredAt := n_RegisteredAt existing\<rparr> else info);
          info = (if IsZero (n_LastHeartbeat info) then info\<lparr>n_LastHeartbeat := n_LastHeartbeat existing\<rparr> else info)
      in if IsZero (n_LastActivity info) then info\<lparr>n_LastActivity := n_LastActivity existing\<rparr> else info)"

definition UpdateNodeInfo :: "io \<Rightarrow> time \<Rightarrow> string \<Rightarrow> NodeInfo \<Rightarrow> Store \<Rightarrow> error option \<times> Store" where
  "UpdateNodeInfo x now nodeID info s =
     (if nodeID = [] then (Some ''nodeID cannot be empty'', s)
      else if n_ID info \<noteq> [] \<and> n_ID info \<noteq> nodeID
      then (Some (''node info ID '' @ Quote (n_ID info) @ '' does not match nodeID '' @ Quote nodeID), s)
      else
        (let info = info\<lparr>n_ID := nodeID\<rparr> in
         case GetNodeByID nodeID s of
           Inl e \<Rightarrow> (Some e, s)
         | Inr found \<Rightarrow>
             (let info = (case found of Some existing \<Rightarrow> keep_times existing info | None \<Rightarrow> info);
                  info = info\<lparr>n_UpdatedAt := now\<rparr>;
                  info = (if IsZero (n_LastActivity info) then info\<lparr>n_LastActivity := now\<rparr> else info)
              in case marshal_NodeInfo info of
                   None \<Rightarrow> (Some ''marshal node info: unsupported value'', s)
                 | Some b \<Rightarrow> Put x (node_prefix @ nodeID) b s)))"

definition getNodeRaw :: "string \<Rightarrow> Store \<Rightarrow> bytes option result" where
  "getNodeRaw nodeID s =
     (if nodeID = [] then Inl ''nodeID cannot be empty'' else Inr (Get (node_prefix @ nodeID) s))"

definition set_status :: "time \<Rightarrow> Status \<Rightarrow> NodeInfo \<Rightarrow> NodeInfo" where
  "set_status now status info =
     (let info = info\<lparr>n_Status := status, n_UpdatedAt := now, n_LastHeartbeat := now\<rparr>
      in if IsZero (n_LastActivity info) then info\<lparr>n_LastActivity := now\<rparr> else info)"

definition UpdateNodeStatus :: "io \<Rightarrow> time \<Rightarrow> string \<Rightarrow> Status \<Rightarrow> Store \<Rightarrow> error option \<times> Store" where
  "UpdateNodeStatus x now nodeID status s =
     (if nodeID = [] then (Some ''nodeID cannot be empty'', s)
      else case getNodeRaw nodeID s of
        Inl e \<Rightarrow> (Some e, s)
      | Inr None \<Rightarrow> (Some (''node '' @ Quote nodeID @ '' not found''), s)
      | Inr (Some raw) \<Rightarrow>
          (case unmarshal_NodeInfo raw of
             None \<Rightarrow> (Some ''unmarshal node info: invalid JSON'', s)
           | Some info \<Rightarrow>
               (case marshal_NodeInfo (set_status now status info) of
                  None \<Rightarrow> (Some ''marshal updated node info: unsupported value'', s)
                | Some b \<Rightarrow> Put x (node_prefix @ nodeID) b s)))"

definition ListNodes :: "(string list \<Rightarrow> string list) \<Rightarrow> Store \<Rightarrow> NodeInfo list result" where
  "ListNodes ord s =
     list_entries node_prefix unmarshal_NodeInfo ''node'' (\<lambda>k. Get k s) (Keys ord s)"

definition ListNodesByStatuses :: "(string list \<Rightarrow> string list) \<Rightarrow> Status list \<Rightarrow> Store \<Rightarrow> NodeInfo list result" where
  "ListNodesByStatuses ord statuses s =
     (case ListNodes ord s of
        Inl e \<Rightarrow> Inl e
      | Inr nodes \<Rightarrow> Inr (filter (\<lambda>node. n_Status node \<in> set statuses) nodes))"


subsection \<open>The table\<close>

interpretation nodes: table Get "\<lambda>s. Keys id s" put_ok del_ok store_inv
  node_prefix marshal_NodeInfo unmarshal_NodeInfo "\<lambda>x. x" wf_NodeInfo
  by unfold_locales (simp_all add: unmarshal_marshal_NodeInfo)

definition node_rows_ok :: "Store \<Rightarrow> bool" where
  "node_rows_ok s \<longleftrightarrow> rows_ok node_prefix unmarshal_NodeInfo n_ID (\<lambda>k. Get k s)"

definition node_at :: "Store \<Rightarrow> string \<rightharpoonup> NodeInfo" where
  "node_at s i = Option.bind (Get (node_prefix @ i) s) unmarshal_NodeInfo"

lemma prefixes_disjoint [simp]:
  "\<not> HasPrefix (node_prefix @ i) replica_prefix" "\<not> HasPrefix (replica_prefix @ i) node_prefix"
  by (simp_all add: HasPrefix_def node_prefix_def replica_prefix_def)

lemma node_at_ID: "node_rows_ok s \<Longrightarrow> node_at s i = Some n \<Longrightarrow> n_ID n = i"
  by (auto simp: node_at_def node_rows_ok_def bind_eq_Some_conv dest: rows_okD)

lemma node_view_cong:
  assumes "\<And>i. Get (node_prefix @ i) s' = Get (node_prefix @ i) s"
  shows "node_at s' = node_at s" "node_rows_ok s' = node_rows_ok s"
  using assms by (simp_all add: node_at_def fun_eq_iff node_rows_ok_def rows_ok_def)

lemma replica_view_cong:
  assumes "\<And>i. Get (replica_prefix @ i) s' = Get (replica_prefix @ i) s"
  shows "replica_at s' = replica_at s" "replica_rows_ok s' = replica_rows_ok s"
  using assms by (simp_all add: replica_at_def fun_eq_iff replica_rows_ok_def rows_ok_def)

lemma GetNodeByID_at:
  assumes "node_rows_ok s" "i \<noteq> []"
  shows "GetNodeByID i s = Inr (node_at s i)"
  using assms
  by (auto simp: GetNodeByID_def node_at_def node_rows_ok_def split: option.splits dest!: rows_okD)

text \<open>What every write of a node does to the two tables.\<close>

lemma node_put:
  assumes "store_inv s" "wf_NodeInfo n" "marshal_NodeInfo n = Some b"
  shows "node_at (put_ok (node_prefix @ i) b s) = (node_at s)(i \<mapsto> n)"
    and "replica_at (put_ok (node_prefix @ i) b s) = replica_at s"
    and "replica_rows_ok (put_ok (node_prefix @ i) b s) = replica_rows_ok s"
    and "n_ID n = i \<Longrightarrow> node_rows_ok s \<Longrightarrow> node_rows_ok (put_ok (node_prefix @ i) b s)"
    and "store_inv (put_ok (node_prefix @ i) b s)"
proof -
  show "node_at (put_ok (node_prefix @ i) b s) = (node_at s)(i \<mapsto> n)"
    using nodes.read_own_write [OF assms]
    by (auto simp: node_at_def fun_eq_iff nodes.other_row [OF assms(1)] bind_eq_Some_conv)
  show "replica_at (put_ok (node_prefix @ i) b s) = replica_at s"
    "replica_rows_ok (put_ok (node_prefix @ i) b s) = replica_rows_ok s"
    by (rule replica_view_cong, simp add: nodes.other_table [OF assms(1)])+
  show "store_inv (put_ok (node_prefix @ i) b s)" using wal.invar_put [OF assms(1)] by simp
  show "node_rows_ok (put_ok (node_prefix @ i) b s)" if "n_ID n = i" "node_rows_ok s"
    using that nodes.rows_ok_put [OF assms(1), of n_ID b n i] unmarshal_marshal_NodeInfo [OF assms(2,3)]
    by (simp add: node_rows_ok_def)
qed

lemma ListNodes_total:
  assumes "store_inv s" "node_rows_ok s" "is_order ord"
  obtains ns where "ListNodes ord s = Inr ns" "distinct (map n_ID ns)"
    "\<And>n. n \<in> set ns \<longleftrightarrow> node_at s (n_ID n) = Some n"
proof -
  from assms nodes.list_total [OF assms(1) Keys_perm [OF assms(3)], of n_ID "''node''"]
  obtain ns where ns: "ListNodes ord s = Inr ns" "distinct (map n_ID ns)"
    "\<And>n. n \<in> set ns \<longleftrightarrow> (\<exists>b. Get (node_prefix @ n_ID n) s = Some b \<and> unmarshal_NodeInfo b = Some n)"
    by (auto simp: node_rows_ok_def ListNodes_def)
  from ns(1,2) show thesis by (rule that) (simp add: ns(3) node_at_def bind_eq_Some_conv)
qed

lemma ListNodesByStatuses_total:
  assumes "store_inv s" "node_rows_ok s" "is_order ord"
  obtains ns where "ListNodesByStatuses ord sts s = Inr ns" "distinct (map n_ID ns)"
    "\<And>n. n \<in> set ns \<longleftrightarrow> node_at s (n_ID n) = Some n \<and> n_Status n \<in> set sts"
proof -
  from ListNodes_total [OF assms] obtain ns where ns: "ListNodes ord s = Inr ns" "distinct (map n_ID ns)"
    "\<And>n. n \<in> set ns \<longleftrightarrow> node_at s (n_ID n) = Some n" by blast
  then have "ListNodesByStatuses ord sts s = Inr (filter (\<lambda>n. n_Status n \<in> set sts) ns)"
    by (simp add: ListNodesByStatuses_def)
  moreover have "distinct (map n_ID (filter (\<lambda>n. n_Status n \<in> set sts) ns))"
    using ns(2) by (rule distinct_map_filter)
  ultimately show thesis by (rule that) (auto simp: ns(3))
qed


subsection \<open>Effect of the operations\<close>

lemma wf_NodeInfo_times [simp]:
  "wf_NodeInfo (n\<lparr>n_ID := i\<rparr>) = wf_NodeInfo n"
  "in_int64 now \<Longrightarrow> wf_NodeInfo n \<Longrightarrow> wf_NodeInfo (n\<lparr>n_RegisteredAt := now\<rparr>)"
  "in_int64 now \<Longrightarrow> wf_NodeInfo n \<Longrightarrow> wf_NodeInfo (n\<lparr>n_UpdatedAt := now\<rparr>)"
  "in_int64 now \<Longrightarrow> wf_NodeInfo n \<Longrightarrow> wf_NodeInfo (n\<lparr>n_LastActivity := now\<rparr>)"
  "in_int64 now \<Longrightarrow> wf_NodeInfo n \<Longrightarrow> wf_NodeInfo (n\<lparr>n_LastHeartbeat := now\<rparr>)"
  "wf_NodeInfo (n\<lparr>n_Status := st\<rparr>) = wf_NodeInfo n"
  by (simp_all add: wf_NodeInfo_def)

lemma wf_set_status: "in_int64 now \<Longrightarrow> wf_NodeInfo n \<Longrightarrow> wf_NodeInfo (set_status now st n)"
  by (simp add: set_status_def wf_NodeInfo_def Let_def)

lemma set_status_fields [simp]:
  "n_ID (set_status now st n) = n_ID n" "n_Status (set_status now st n) = st"
  "n_LastHeartbeat (set_status now st n) = now" "n_AssignedModels (set_status now st n) = n_AssignedModels n"
  "n_ResourceCapabilities (set_status now st n) = n_ResourceCapabilities n"
  "n_IP (set_status now st n) = n_IP n" "n_Port (set_status now st n) = n_Port n"
  by (simp_all add: set_status_def Let_def)

lemma marshal_set_status [simp]: "marshal_NodeInfo (set_status now st n) = None \<longleftrightarrow> marshal_NodeInfo n = None"
  by (simp add: marshal_NodeInfo_None)

lemma UpdateNodeStatus_None:
  assumes "UpdateNodeStatus x now i st s = (None, s')"
  obtains n b where "i \<noteq> []" "node_at s i = Some n" "marshal_NodeInfo (set_status now st n) = Some b"
    "s' = put_ok (node_prefix @ i) b s"
  using assms
  by (auto simp: UpdateNodeStatus_def getNodeRaw_def node_at_def put_ok_def dest: Put_None
      split: if_splits option.splits)

lemma UpdateNodeStatus_error_frame:
  assumes "UpdateNodeStatus x now i st s = (Some e, s')"
  shows "data s' = data s \<and> walFile s' = walFile s"
  using assms
  by (auto simp: UpdateNodeStatus_def getNodeRaw_def dest: Put_error_frame split: if_splits option.splits)

lemma UpdateNodeStatus_at:
  assumes "store_inv s" "UpdateNodeStatus x now i st s = (None, s')" "in_int64 now"
    and "node_at s i = Some n" "wf_NodeInfo n"
  shows "node_at s' = (node_at s)(i \<mapsto> set_status now st n)" "store_inv s'"
    "replica_at s' = replica_at s" "replica_rows_ok s' = replica_rows_ok s"
    "node_rows_ok s \<Longrightarrow> node_rows_ok s'"
proof -
  from UpdateNodeStatus_None [OF assms(2)] assms(4) obtain b where
    b: "marshal_NodeInfo (set_status now st n) = Some b" "s' = put_ok (node_prefix @ i) b s" by auto
  note p = node_put [OF assms(1) wf_set_status [OF assms(3,5)] b(1), of i]
  from p show "node_at s' = (node_at s)(i \<mapsto> set_status now st n)" "store_inv s'"
    "replica_at s' = replica_at s" "replica_rows_ok s' = replica_rows_ok s" by (simp_all add: b(2))
  show "node_rows_ok s'" if "node_rows_ok s"
    using p(4) that node_at_ID [OF that assms(4)] by (simp add: b(2))
qed

lemma stamp_fields [simp]:
  "n_ID (stamp now i n) = (if n_ID n = [] then i else n_ID n)"
  "n_Name (stamp now i n) = n_Name n" "n_IP (stamp now i n) = n_IP n" "n_Port (stamp now i n) = n_Port n"
  "n_Metadata (stamp now i n) = n_Metadata n" "n_Status (stamp now i n) = n_Status n"
  "n_ResourceCapabilities (stamp now i n) = n_ResourceCapabilities n"
  "n_AssignedModels (stamp now i n) = n_AssignedModels n" "n_LastHeartbeat (stamp now i n) = n_LastHeartbeat n"
  "n_UpdatedAt (stamp now i n) = now"
  by (simp_all add: stamp_def Let_def)

lemma wf_stamp: "in_int64 now \<Longrightarrow> wf_NodeInfo n \<Longrightarrow> wf_NodeInfo (stamp now i n)"
  by (simp add: stamp_def wf_NodeInfo_def Let_def)

lemma marshal_stamp [simp]: "marshal_NodeInfo (stamp now i n) = None \<longleftrightarrow> marshal_NodeInfo n = None"
  by (simp add: marshal_NodeInfo_None)

lemma RegisterNode_ok:
  assumes "store_inv s" "i \<noteq> []" "marshal_NodeInfo n \<noteq> None"
  obtains b where "marshal_NodeInfo (stamp now i n) = Some b"
    "RegisterNode io_ok now i n s = (None, put_ok (node_prefix @ i) b s)"
proof -
  from assms(3) obtain b where b: "marshal_NodeInfo (stamp now i n) = Some b" by (metis marshal_stamp not_None_eq)
  moreover have "RegisterNode io_ok now i n s = (None, put_ok (node_prefix @ i) b s)"
    using assms b by (simp add: RegisterNode_def store_inv_def Put_put_ok)
  ultimately show thesis by (rule that)
qed

lemma RegisterNode_None:
  assumes "RegisterNode x now i n s = (None, s')"
  obtains b where "i \<noteq> []" "marshal_NodeInfo (stamp now i n) = Some b" "s' = put_ok (node_prefix @ i) b s"
  using assms by (auto simp: RegisterNode_def put_ok_def dest: Put_None split: if_splits option.splits)

lemma RegisterNode_error_frame:
  assumes "RegisterNode x now i n s = (Some e, s')"
  shows "data s' = data s \<and> walFile s' = walFile s"
  using assms by (auto simp: RegisterNode_def dest: Put_error_frame split: if_splits option.splits)

end
