(* ===== verification/Model_Registry.thy ===== *)
theory Model_Registry
  imports Node_Registry
begin

section \<open>The model registry\<close>

text \<open>
  Models \<open>internal/control-plane/controller/registry/model_registry.go\<close>: the rows
  \<open>model:<id>\<close> of the store, the lookup by namespace and name, and the query for the nodes
  that host a model. The registry promises that a name is used once per namespace:
  \<open>names_unique\<close>. \<open>RegisterModel\<close> keeps it when calls do not overlap; \<open>UpdateModelInfo\<close> does
  not check it, and two overlapping calls of \<open>RegisterModel\<close> can break it, because the check
  and the write are separate store operations (\<open>register_check\<close>, \<open>register_write\<close>).
\<close>

definition model_prefix :: string where "model_prefix = ''model:''"

lemma model_prefix_ne [simp]: "model_prefix \<noteq> []"
  by (simp add: model_prefix_def)

record NodeAddress =
  na_NodeID :: string
  na_IP :: string
  na_Port :: int

text \<open>The loop of the lookup by name: it stops at the first match and at the first row that does not decode.\<close>

fun find_model :: "string \<Rightarrow> string \<Rightarrow> (string \<Rightarrow> bytes option) \<Rightarrow> string list \<Rightarrow> ModelInfo option result" where
  "find_model namespace name g [] = Inr None"
| "find_model namespace name g (k # ks) =
     (if \<not> HasPrefix k model_prefix then find_model namespace name g ks
      else case g k of
        None \<Rightarrow> find_model namespace name g ks
      | Some raw \<Rightarrow>
          (case unmarshal_ModelInfo raw of
             None \<Rightarrow> Inl (''unmarshal model '' @ Quote k @ '': invalid JSON'')
           | Some info \<Rightarrow>
               if m_Namespace info = namespace \<and> m_Name info = name then Inr (Some info)
               else find_model namespace name g ks))"

definition GetModelByNamespaceAndName ::
    "(string list \<Rightarrow> string list) \<Rightarrow> string \<Rightarrow> string \<Rightarrow> Store \<Rightarrow> ModelInfo option result" where
  "GetModelByNamespaceAndName ord namespace name s =
     (if name = [] then Inl ''model name cannot be empty''
      else find_model namespace name (\<lambda>k. Get k s) (Keys ord s))"

text \<open>
  \<open>RegisterModel\<close> in its two phases. \<open>register_check\<close> reads the store and returns the bytes to
  write; \<open>register_write\<close> is the call of \<open>Put\<close>.
\<close>

definition register_check ::
    "(string list \<Rightarrow> string list) \<Rightarrow> string \<Rightarrow> ModelInfo \<Rightarrow> Store \<Rightarrow> bytes result" where
  "register_check ord modelID info s =
     (if modelID = [] then Inl ''modelID cannot be empty''
      else if m_Name info = [] then Inl ''model name cannot be empty''
      else case GetModelByNamespaceAndName ord (m_Namespace info) (m_Name info) s of
        Inl e \<Rightarrow> Inl (''check model name uniqueness: '' @ e)
      | Inr (Some existing) \<Rightarrow>
          Inl (''model name '' @ Quote (m_Name info) @ '' is already registered in namespace ''
               @ Quote (m_Namespace info) @ '' (id='' @ m_ID existing @ '')'')
      | Inr None \<Rightarrow>
          if m_ID info \<noteq> [] \<and> m_ID info \<noteq> modelID
          then Inl (''model info ID '' @ Quote (m_ID info) @ '' does not match modelID '' @ Quote modelID)
          else
            (let info = (if m_ID info = [] then info\<lparr>m_ID := modelID\<rparr> else info) in
             case marshal_ModelInfo info of
               None \<Rightarrow> Inl ''marshal model info: invalid input format''
             | Some b \<Rightarrow> Inr b))"

definition register_write :: "io \<Rightarrow> string \<Rightarrow> bytes \<Rightarrow> Store \<Rightarrow> error option \<times> Store" where
  "register_write x modelID b s = Put x (model_prefix @ modelID) b s"

definition RegisterModel ::
    "io \<Rightarrow> (string list \<Rightarrow> string list) \<Rightarrow> string \<Rightarrow> ModelInfo \<Rightarrow> Store \<Rightarrow> error option \<times> Store" where
  "RegisterModel x ord modelID info s =
     (case register_check ord modelID info s of
        Inl e \<Rightarrow> (Some e, s)
      | Inr b \<Rightarrow> register_write x modelID b s)"

definition DeRegisterModel :: "io \<Rightarrow> string \<Rightarrow> Store \<Rightarrow> error option \<times> Store" where
  "DeRegisterModel x modelID s =
     (if modelID = [] then (Some ''modelID cannot be empty'', s)
      else Delete x (model_prefix @ modelID) s)"

definition UpdateModelInfo :: "io \<Rightarrow> string \<Rightarrow> ModelInfo \<Rightarrow> Store \<Rightarrow> error option \<times> Store" where
  "UpdateModelInfo x modelID info s =
     (if modelID = [] then (Some ''modelID cannot be empty'', s)
      else if m_ID info \<noteq> [] \<and> m_ID info \<noteq> modelID
      then (Some (''model info ID '' @ Quote (m_ID info) @ '' does not match modelID '' @ Quote modelID), s)
      else
        (case marshal_ModelInfo (info\<lparr>m_ID := modelID\<rparr>) of
           None \<Rightarrow> (Some ''marshal model info: invalid input format'', s)
         | Some b \<Rightarrow> Put x (model_prefix @ modelID) b s))"

definition GetModelByID :: "string \<Rightarrow> Store \<Rightarrow> ModelInfo option result" where
  "GetModelByID modelID s =
     (if modelID = [] then Inl ''modelID cannot be empty''
      else case Get (model_prefix @ modelID) s of
        None \<Rightarrow> Inr None
      | Some raw \<Rightarrow>
          (case unmarshal_ModelInfo raw of
             None \<Rightarrow> Inl ''unmarshal model info: invalid JSON''
           | Some info \<Rightarrow> Inr (Some info)))"

definition ListModels :: "(string list \<Rightarrow> string list) \<Rightarrow> Store \<Rightarrow> ModelInfo list result" where
  "ListModels ord s =
     list_entries model_prefix unmarshal_ModelInfo ''model'' (\<lambda>k. Get k s) (Keys ord s)"

text \<open>
  The loop over the nodes: a node is reported once, when one of its assigned replicas
  belongs to the model. \<open>seen\<close> is the map \<open>nodeSeen\<close>.
\<close>

fun host_addresses :: "string list \<Rightarrow> NodeInfo list \<Rightarrow> string list \<Rightarrow> NodeAddress list" where
  "host_addresses replicaIDs [] seen = []"
| "host_addresses replicaIDs (node # nodes) seen =
     (if (\<exists>r \<in> set (n_AssignedModels node). r \<in> set replicaIDs) \<and> n_ID node \<notin> set seen
      then \<lparr>na_NodeID = n_ID node, na_IP = n_IP node, na_Port = to_int32 (n_Port node)\<rparr>
           # host_addresses replicaIDs nodes (n_ID node # seen)
      else host_addresses replicaIDs nodes seen)"

definition GetNodesByModelName ::
    "(string list \<Rightarrow> string list) \<Rightarrow> string \<Rightarrow> string \<Rightarrow> Store \<Rightarrow> (string \<times> NodeAddress list) result" where
  "GetNodesByModelName ord namespace modelName s =
     (if modelName = [] then Inl ''model name cannot be empty''
      else case GetModelByNamespaceAndName ord namespace modelName s of
        Inl e \<Rightarrow> Inl (''failed to get model by name: '' @ e)
      | Inr None \<Rightarrow> Inl ''model not found''
      | Inr (Some modelInfo) \<Rightarrow>
          (case ListReplicasByModelID ord (m_ID modelInfo) s of
             Inl e \<Rightarrow> Inl (''failed to list replicas: '' @ e)
           | Inr replicas \<Rightarrow>
               (case ListNodes ord s of
                  Inl e \<Rightarrow> Inl (''failed to list nodes: '' @ e)
                | Inr nodes \<Rightarrow> Inr (m_ID modelInfo, host_addresses (map r_ID replicas) nodes []))))"


subsection \<open>The table\<close>

interpretation models: table Get "\<lambda>s. Keys id s" put_ok del_ok store_inv
  model_prefix marshal_ModelInfo unmarshal_ModelInfo norm_ModelInfo wf_ModelInfo
  by unfold_locales (simp_all add: unmarshal_marshal_ModelInfo)

definition model_rows_ok :: "Store \<Rightarrow> bool" where
  "model_rows_ok s \<longleftrightarrow> rows_ok model_prefix unmarshal_ModelInfo m_ID (\<lambda>k. Get k s)"

definition model_at :: "Store \<Rightarrow> string \<rightharpoonup> ModelInfo" where
  "model_at s i = Option.bind (Get (model_prefix @ i) s) unmarshal_ModelInfo"

definition registry_inv :: "Store \<Rightarrow> bool" where
  "registry_inv s \<longleftrightarrow> store_inv s \<and> model_rows_ok s \<and> node_rows_ok s \<and> replica_rows_ok s"

lemma model_prefix_disjoint [simp]:
  "\<not> HasPrefix (node_prefix @ i) model_prefix" "\<not> HasPrefix (replica_prefix @ i) model_prefix"
  "\<not> HasPrefix (model_prefix @ i) node_prefix" "\<not> HasPrefix (model_prefix @ i) replica_prefix"
  by (simp_all add: HasPrefix_def node_prefix_def replica_prefix_def model_prefix_def)

lemma model_at_ID: "model_rows_ok s \<Longrightarrow> model_at s i = Some m \<Longrightarrow> m_ID m = i"
  by (auto simp: model_at_def model_rows_ok_def bind_eq_Some_conv dest: rows_okD)

lemma model_view_cong:
  assumes "\<And>i. Get (model_prefix @ i) s' = Get (model_prefix @ i) s"
  shows "model_at s' = model_at s" "model_rows_ok s' = model_rows_ok s"
  using assms by (simp_all add: model_at_def fun_eq_iff model_rows_ok_def rows_ok_def)

lemma GetModelByID_at:
  assumes "model_rows_ok s" "i \<noteq> []"
  shows "GetModelByID i s = Inr (model_at s i)"
  using assms
  by (auto simp: GetModelByID_def model_at_def model_rows_ok_def split: option.splits dest!: rows_okD)

lemma norm_ModelInfo_fields [simp]:
  "m_ID (norm_ModelInfo m) = m_ID m" "m_Name (norm_ModelInfo m) = m_Name m"
  "m_Namespace (norm_ModelInfo m) = m_Namespace m" "m_Replicas (norm_ModelInfo m) = m_Replicas m"
  "m_FilePath (norm_ModelInfo m) = m_FilePath m" "m_Version (norm_ModelInfo m) = m_Version m"
  "m_ModelType (norm_ModelInfo m) = m_ModelType m" "m_ModelSize (norm_ModelInfo m) = m_ModelSize m"
  by (simp_all add: norm_ModelInfo_def)

lemma model_put:
  assumes "store_inv s" "wf_ModelInfo m" "marshal_ModelInfo m = Some b"
  shows "model_at (put_ok (model_prefix @ i) b s) = (model_at s)(i \<mapsto> norm_ModelInfo m)"
    and "m_ID m = i \<Longrightarrow> registry_inv s \<Longrightarrow> registry_inv (put_ok (model_prefix @ i) b s)"
    and "node_at (put_ok (model_prefix @ i) b s) = node_at s"
    and "replica_at (put_ok (model_prefix @ i) b s) = replica_at s"
proof -
  let ?s = "put_ok (model_prefix @ i) b s"
  show "model_at ?s = (model_at s)(i \<mapsto> norm_ModelInfo m)"
    using models.read_own_write [OF assms]
    by (auto simp: model_at_def fun_eq_iff models.other_row [OF assms(1)] bind_eq_Some_conv)
  have n: "node_at ?s = node_at s" "node_rows_ok ?s = node_rows_ok s"
    by (rule node_view_cong, simp add: models.other_table [OF assms(1)])+
  have r: "replica_at ?s = replica_at s" "replica_rows_ok ?s = replica_rows_ok s"
    by (rule replica_view_cong, simp add: models.other_table [OF assms(1)])+
  show "node_at ?s = node_at s" "replica_at ?s = replica_at s" by (rule n(1), rule r(1))
  show "registry_inv ?s" if "m_ID m = i" "registry_inv s"
    using that n r models.rows_ok_put [OF assms(1), of m_ID b "norm_ModelInfo m" i]
      unmarshal_marshal_ModelInfo [OF assms(2,3)] wal.invar_put [OF assms(1)]
    by (simp add: registry_inv_def model_rows_ok_def)
qed

text \<open>What the writes of the other two tables do, seen from the whole registry.\<close>

lemma UpdateReplicaInfo_registry:
  assumes "registry_inv s" "wf_ReplicaInfo r" "UpdateReplicaInfo x i r s = (None, s')"
  shows "registry_inv s'" "model_at s' = model_at s" "node_at s' = node_at s"
    "replica_at s' = (replica_at s)(i \<mapsto> r\<lparr>r_ID := i\<rparr>)"
proof -
  from assms(1) have inv: "store_inv s" "replica_rows_ok s" by (simp_all add: registry_inv_def)
  note u = UpdateReplicaInfo_at [OF inv(1) assms(2,3)]
  show "replica_at s' = (replica_at s)(i \<mapsto> r\<lparr>r_ID := i\<rparr>)" by (rule u(1))
  have m: "model_at s' = model_at s" "model_rows_ok s' = model_rows_ok s"
    by (rule model_view_cong, simp add: u(3))+
  have n: "node_at s' = node_at s" "node_rows_ok s' = node_rows_ok s"
    by (rule node_view_cong, simp add: u(3))+
  show "model_at s' = model_at s" "node_at s' = node_at s" by (rule m(1), rule n(1))
  show "registry_inv s'" using assms(1) u(2,4) m(2) n(2) by (simp add: registry_inv_def)
qed

lemma node_put_registry:
  assumes "registry_inv s" "wf_NodeInfo n" "marshal_NodeInfo n = Some b" "n_ID n = i"
  shows "registry_inv (put_ok (node_prefix @ i) b s)" "model_at (put_ok (node_prefix @ i) b s) = model_at s"
    "node_at (put_ok (node_prefix @ i) b s) = (node_at s)(i \<mapsto> n)"
    "replica_at (put_ok (node_prefix @ i) b s) = replica_at s"
proof -
  let ?s = "put_ok (node_prefix @ i) b s"
  from assms(1) have inv: "store_inv s" "node_rows_ok s" by (simp_all add: registry_inv_def)
  note p = node_put [OF inv(1) assms(2,3), of i]
  show "node_at ?s = (node_at s)(i \<mapsto> n)" "replica_at ?s = replica_at s" by (rule p(1), rule p(2))
  have m: "model_at ?s = model_at s" "model_rows_ok ?s = model_rows_ok s"
    by (rule model_view_cong, simp add: nodes.other_table [OF inv(1)])+
  show "model_at ?s = model_at s" by (rule m(1))
  show "registry_inv ?s" using assms(1) p(3,4,5) m(2) inv(2) assms(4) by (simp add: registry_inv_def)
qed

lemma ListModels_total:
  assumes "store_inv s" "model_rows_ok s" "is_order ord"
  obtains ms where "ListModels ord s = Inr ms" "distinct (map m_ID ms)"
    "\<And>m. m \<in> set ms \<longleftrightarrow> model_at s (m_ID m) = Some m"
proof -
  from assms models.list_total [OF assms(1) Keys_perm [OF assms(3)], of m_ID "''model''"]
  obtain ms where ms: "ListModels ord s = Inr ms" "distinct (map m_ID ms)"
    "\<And>m. m \<in> set ms \<longleftrightarrow> (\<exists>b. Get (model_prefix @ m_ID m) s = Some b \<and> unmarshal_ModelInfo b = Some m)"
    by (auto simp: model_rows_ok_def ListModels_def)
  from ms(1,2) show thesis by (rule that) (simp add: ms(3) model_at_def bind_eq_Some_conv)
qed

text \<open>The lookup by name is a search in the list of all models.\<close>

lemma find_model_list:
  assumes "list_entries model_prefix unmarshal_ModelInfo l g ks = Inr ms"
  shows "find_model ns n g ks = Inr (List.find (\<lambda>m. m_Namespace m = ns \<and> m_Name m = n) ms)"
  using assms
  by (induction ks arbitrary: ms) (auto split: if_splits option.splits sum.splits)

lemma GetModelByNamespaceAndName_find:
  assumes "store_inv s" "model_rows_ok s" "is_order ord" "n \<noteq> []"
  obtains ms where "GetModelByNamespaceAndName ord ns n s = Inr (List.find (\<lambda>m. m_Namespace m = ns \<and> m_Name m = n) ms)"
    "\<And>m. m \<in> set ms \<longleftrightarrow> model_at s (m_ID m) = Some m"
proof -
  obtain ms where ms: "ListModels ord s = Inr ms" "distinct (map m_ID ms)"
    "\<And>m. m \<in> set ms \<longleftrightarrow> model_at s (m_ID m) = Some m" by (rule ListModels_total [OF assms(1-3)]) blast
  from find_model_list [OF ms(1) [unfolded ListModels_def], of ns n] assms(4)
  have "GetModelByNamespaceAndName ord ns n s = Inr (List.find (\<lambda>m. m_Namespace m = ns \<and> m_Name m = n) ms)"
    by (simp add: GetModelByNamespaceAndName_def)
  then show thesis by (rule that) (rule ms(3))
qed

definition named :: "Store \<Rightarrow> string \<Rightarrow> string \<Rightarrow> ModelInfo \<Rightarrow> bool" where
  "named s ns n m \<longleftrightarrow> model_at s (m_ID m) = Some m \<and> m_Namespace m = ns \<and> m_Name m = n"

lemma GetModelByNamespaceAndName_Some:
  assumes "store_inv s" "model_rows_ok s" "is_order ord"
    and "GetModelByNamespaceAndName ord ns n s = Inr (Some m)"
  shows "named s ns n m"
proof -
  have "n \<noteq> []" using assms(4) by (auto simp: GetModelByNamespaceAndName_def split: if_splits)
  then obtain ms where ms: "GetModelByNamespaceAndName ord ns n s = Inr (List.find (\<lambda>m. m_Namespace m = ns \<and> m_Name m = n) ms)"
    "\<And>m. m \<in> set ms \<longleftrightarrow> model_at s (m_ID m) = Some m"
    by (rule GetModelByNamespaceAndName_find [OF assms(1-3), of n ns]) blast
  from assms(4) ms(1) have "List.find (\<lambda>m. m_Namespace m = ns \<and> m_Name m = n) ms = Some m" by simp
  from find_Some_in [OF this] ms(2) [of m] show ?thesis by (simp add: named_def)
qed

lemma GetModelByNamespaceAndName_total:
  assumes "store_inv s" "model_rows_ok s" "is_order ord" "n \<noteq> []"
  shows "\<exists>r. GetModelByNamespaceAndName ord ns n s = Inr r"
  by (rule GetModelByNamespaceAndName_find [OF assms, of ns]) simp

lemma GetModelByNamespaceAndName_None:
  assumes "store_inv s" "model_rows_ok s" "is_order ord"
    and "GetModelByNamespaceAndName ord ns n s = Inr None"
  shows "\<not> named s ns n m"
proof -
  have "n \<noteq> []" using assms(4) by (auto simp: GetModelByNamespaceAndName_def split: if_splits)
  then obtain ms where ms: "GetModelByNamespaceAndName ord ns n s = Inr (List.find (\<lambda>m. m_Namespace m = ns \<and> m_Name m = n) ms)"
    "\<And>m. m \<in> set ms \<longleftrightarrow> model_at s (m_ID m) = Some m"
    by (rule GetModelByNamespaceAndName_find [OF assms(1-3), of n ns]) blast
  from assms(4) ms(1) have "List.find (\<lambda>m. m_Namespace m = ns \<and> m_Name m = n) ms = None" by simp
  then show ?thesis using ms(2) [of m] by (auto simp: named_def find_None_all)
qed


subsection \<open>Registering a model\<close>

definition register_allowed :: "string \<Rightarrow> ModelInfo \<Rightarrow> Store \<Rightarrow> bool" where
  "register_allowed i info s \<longleftrightarrow> i \<noteq> [] \<and> m_Name info \<noteq> [] \<and>
     (\<forall>m. \<not> named s (m_Namespace info) (m_Name info) m) \<and>
     (m_ID info = [] \<or> m_ID info = i) \<and>
     (m_InputFormat info = [] \<or> json_scan (m_InputFormat info) \<noteq> None)"

lemma wf_ModelInfo_ID [simp]: "wf_ModelInfo (m\<lparr>m_ID := i\<rparr>) = wf_ModelInfo m"
  by (simp add: wf_ModelInfo_def)

lemma marshal_ModelInfo_ID: "marshal_ModelInfo (m\<lparr>m_ID := i\<rparr>) = None \<longleftrightarrow> marshal_ModelInfo m = None"
  by (simp add: marshal_ModelInfo_None)

lemma register_check_spec:
  assumes "store_inv s" "model_rows_ok s" "is_order ord"
  shows "(\<exists>b. register_check ord i info s = Inr b) \<longleftrightarrow> register_allowed i info s"
proof (cases "i = [] \<or> m_Name info = []")
  case True
  then show ?thesis by (auto simp: register_check_def register_allowed_def)
next
  case False
  then obtain r where r: "GetModelByNamespaceAndName ord (m_Namespace info) (m_Name info) s = Inr r"
    using GetModelByNamespaceAndName_total [OF assms] by blast
  show ?thesis
  proof (cases r)
    case None
    with r have "\<And>m. \<not> named s (m_Namespace info) (m_Name info) m"
      using GetModelByNamespaceAndName_None [OF assms] by simp
    then have none: "register_allowed i info s \<longleftrightarrow> (m_ID info = [] \<or> m_ID info = i) \<and> marshal_ModelInfo info \<noteq> None"
      using False by (auto simp: register_allowed_def marshal_ModelInfo_None)
    have "(case marshal_ModelInfo info' of None \<Rightarrow> Inl e | Some b \<Rightarrow> Inr b) = Inr b' \<longleftrightarrow> marshal_ModelInfo info' = Some b'"
      for info' and e :: error and b' by (simp split: option.splits)
    with False r None marshal_ModelInfo_ID [of i info] show ?thesis
      by (auto simp: register_check_def none Let_def)
  next
    case (Some m)
    with r have "named s (m_Namespace info) (m_Name info) m"
      using GetModelByNamespaceAndName_Some [OF assms] by simp
    with False r Some show ?thesis by (auto simp: register_check_def register_allowed_def)
  qed
qed

lemma register_check_bytes:
  assumes "register_check ord i info s = Inr b"
  shows "marshal_ModelInfo (info\<lparr>m_ID := i\<rparr>) = Some b \<and> i \<noteq> []"
proof -
  have "info\<lparr>m_ID := i\<rparr> = info" if "m_ID info = i" using that by (cases info) simp
  with assms show ?thesis
    by (auto simp: register_check_def Let_def split: if_splits sum.splits option.splits)
qed

lemma RegisterModel_None:
  assumes "RegisterModel x ord i info s = (None, s')"
  obtains b where "register_check ord i info s = Inr b" "marshal_ModelInfo (info\<lparr>m_ID := i\<rparr>) = Some b"
    "s' = put_ok (model_prefix @ i) b s"
  using assms register_check_bytes
  by (auto simp: RegisterModel_def register_write_def put_ok_def dest: Put_None split: sum.splits)

lemma RegisterModel_error_frame:
  assumes "RegisterModel x ord i info s = (Some e, s')"
  shows "data s' = data s \<and> walFile s' = walFile s"
  using assms
  by (auto simp: RegisterModel_def register_write_def dest: Put_error_frame split: sum.splits)

text \<open>A store with the same in-memory map has the same registry.\<close>

lemma same_data_view:
  assumes "data s' = data s"
  shows "Get k s' = Get k s" "model_at s' = model_at s" "node_at s' = node_at s" "replica_at s' = replica_at s"
    "walFile s' = walFile s \<Longrightarrow> registry_inv s' = registry_inv s"
proof -
  have g: "Get k s' = Get k s" for k using assms by (simp add: Get_def)
  show "Get k s' = Get k s" "model_at s' = model_at s" "node_at s' = node_at s" "replica_at s' = replica_at s"
    using g by (simp_all add: model_at_def node_at_def replica_at_def fun_eq_iff)
  show "registry_inv s' = registry_inv s" if "walFile s' = walFile s"
    using assms that g
    by (simp add: registry_inv_def store_inv_def model_rows_ok_def node_rows_ok_def replica_rows_ok_def)
qed

lemma RegisterModel_ok:
  assumes "registry_inv s" "wf_ModelInfo info" "is_order ord" "register_allowed i info s"
  obtains s' where "RegisterModel io_ok ord i info s = (None, s')" "registry_inv s'"
    "model_at s' = (model_at s)(i \<mapsto> norm_ModelInfo (info\<lparr>m_ID := i\<rparr>))"
    "node_at s' = node_at s" "replica_at s' = replica_at s"
proof -
  from assms(1) have inv: "store_inv s" "model_rows_ok s" by (simp_all add: registry_inv_def)
  obtain b where b: "register_check ord i info s = Inr b"
    using register_check_spec [OF inv assms(3)] assms(4) by blast
  have wf: "wf_ModelInfo (info\<lparr>m_ID := i\<rparr>)" using assms(2) by simp
  have "RegisterModel io_ok ord i info s = (None, put_ok (model_prefix @ i) b s)"
    using b inv(1) by (simp add: RegisterModel_def register_write_def store_inv_def Put_put_ok)
  then show thesis
    by (rule that) (use assms(1) model_put [OF inv(1) wf conjunct1 [OF register_check_bytes [OF b]]] in simp_all)
qed

lemma RegisterModel_refused:
  assumes "registry_inv s" "is_order ord" "\<not> register_allowed i info s"
  shows "\<exists>e. RegisterModel x ord i info s = (Some e, s)"
proof -
  from assms(1) have inv: "store_inv s" "model_rows_ok s" by (simp_all add: registry_inv_def)
  show ?thesis using register_check_spec [OF inv assms(2), of i info] assms(3)
    by (cases "register_check ord i info s") (auto simp: RegisterModel_def)
qed


definition demo_model :: ModelInfo where
  "demo_model = zero_ModelInfo\<lparr>m_Name := ''iris'', m_Namespace := ''default'', m_Replicas := 1\<rparr>"

definition empty_store :: Store where
  "empty_store = \<lparr>data = [], walPath = ''store.wal'', walFile = True, wal = []\<rparr>"

lemma empty_store_inv: "registry_inv empty_store"
  by (simp add: registry_inv_def store_inv_def model_rows_ok_def node_rows_ok_def replica_rows_ok_def
      rows_ok_def Get_def empty_store_def)

lemma empty_store_at [simp]: "model_at empty_store i = None" "node_at empty_store i = None" "replica_at empty_store i = None"
  by (simp_all add: model_at_def node_at_def replica_at_def Get_def empty_store_def)

lemma demo_model_wf: "wf_ModelInfo demo_model"
  by (simp add: wf_ModelInfo_def demo_model_def zero_ModelInfo_def in_int64_def)

lemma demo_allowed: "i \<noteq> [] \<Longrightarrow> register_allowed i demo_model empty_store"
  by (simp add: register_allowed_def named_def demo_model_def zero_ModelInfo_def)




subsection \<open>Names are unique\<close>

definition names_unique :: "Store \<Rightarrow> bool" where
  "names_unique s \<longleftrightarrow> (\<forall>ns n m m'. n \<noteq> [] \<longrightarrow> named s ns n m \<longrightarrow> named s ns n m' \<longrightarrow> m = m')"

lemma named_cong: "model_at s' = model_at s \<Longrightarrow> named s' = named s"
  by (simp add: named_def fun_eq_iff)

lemma names_unique_add:
  assumes "names_unique s" "m_ID m = i"
    and "\<And>m'. named s (m_Namespace m) (m_Name m) m' \<Longrightarrow> m_ID m' = i"
    and at: "model_at s' = (model_at s)(i \<mapsto> m)"
  shows "names_unique s'"
  using assms unfolding names_unique_def named_def by (auto simp: at)

lemma model_delete:
  assumes "store_inv s"
  shows "model_at (del_ok (model_prefix @ i) s) = (model_at s)(i := None)"
    and "registry_inv s \<Longrightarrow> registry_inv (del_ok (model_prefix @ i) s)"
    and "node_at (del_ok (model_prefix @ i) s) = node_at s"
    and "replica_at (del_ok (model_prefix @ i) s) = replica_at s"
proof -
  let ?s = "del_ok (model_prefix @ i) s"
  show "model_at ?s = (model_at s)(i := None)"
    by (auto simp: model_at_def fun_eq_iff models.other_row [OF assms] wal.get_del [OF assms])
  have n: "node_at ?s = node_at s" "node_rows_ok ?s = node_rows_ok s"
    by (rule node_view_cong, simp add: models.other_table [OF assms])+
  have r: "replica_at ?s = replica_at s" "replica_rows_ok ?s = replica_rows_ok s"
    by (rule replica_view_cong, simp add: models.other_table [OF assms])+
  show "node_at ?s = node_at s" "replica_at ?s = replica_at s" by (rule n(1), rule r(1))
  show "registry_inv ?s" if "registry_inv s"
    using that n r models.rows_ok_del [OF assms, of m_ID i] wal.invar_del [OF assms]
    by (simp add: registry_inv_def model_rows_ok_def)
qed

lemma DeRegisterModel_cases:
  assumes "DeRegisterModel x i s = (e, s')"
  shows "e = None \<and> i \<noteq> [] \<and> s' = del_ok (model_prefix @ i) s \<or>
    e \<noteq> None \<and> data s' = data s \<and> walFile s' = walFile s"
  using assms Delete_None [of x "model_prefix @ i" s s'] Delete_error_frame [of x "model_prefix @ i" s _ s']
  by (cases e) (auto simp: DeRegisterModel_def del_ok_def split: if_splits)

text \<open>
  The calls that change the model table one after the other, with any I/O outcome and any
  iteration order in each.
\<close>

inductive model_step :: "Store \<Rightarrow> Store \<Rightarrow> bool" where
  register: "is_order ord \<Longrightarrow> wf_ModelInfo info \<Longrightarrow> RegisterModel x ord i info s = (e, s') \<Longrightarrow> model_step s s'"
| deregister: "DeRegisterModel x i s = (e, s') \<Longrightarrow> model_step s s'"

lemma model_step_inv:
  assumes "model_step s s'" "registry_inv s" "names_unique s"
  shows "registry_inv s' \<and> names_unique s'"
  using assms(1)
proof (cases rule: model_step.cases)
  case (register ord info x i e)
  from assms(2) have inv: "store_inv s" "model_rows_ok s" by (simp_all add: registry_inv_def)
  show ?thesis
  proof (cases e)
    case None
    then obtain b where b: "register_check ord i info s = Inr b" "marshal_ModelInfo (info\<lparr>m_ID := i\<rparr>) = Some b"
      "s' = put_ok (model_prefix @ i) b s" using RegisterModel_None register(3) by metis
    then have "register_allowed i info s" using register_check_spec [OF inv register(1)] by blast
    moreover have "wf_ModelInfo (info\<lparr>m_ID := i\<rparr>)" using register(2) by simp
    note p = model_put [OF inv(1) this b(2), of i]
    ultimately have "names_unique s'" unfolding b(3)
      using assms(3) by (intro names_unique_add [OF _ _ _ p(1)]) (auto simp: register_allowed_def)
    with p(2) assms(2) b(3) show ?thesis by simp
  next
    case (Some err)
    then have "data s' = data s" "walFile s' = walFile s" using register(3) RegisterModel_error_frame by blast+
    with assms same_data_view [of s' s] named_cong [of s' s] show ?thesis by (simp add: names_unique_def)
  qed
next
  case (deregister x i e)
  from DeRegisterModel_cases [OF this] show ?thesis
  proof (elim disjE conjE)
    assume s': "s' = del_ok (model_prefix @ i) s"
    have inv: "store_inv s" using assms(2) by (simp add: registry_inv_def)
    have "named s' ns n m \<Longrightarrow> named s ns n m" for ns n m
      by (simp add: s' named_def model_delete [OF inv] split: if_splits)
    then have "names_unique s'" using assms(3) unfolding names_unique_def by blast
    with assms model_delete(2) [OF inv, of i] show ?thesis by (simp add: s')
  next
    assume "data s' = data s" "walFile s' = walFile s"
    with assms same_data_view [of s' s] named_cong [of s' s] show ?thesis by (simp add: names_unique_def)
  qed
qed


definition demo_store1 :: Store where
  "demo_store1 = snd (RegisterModel io_ok rev ''m1'' demo_model empty_store)"

lemma demo_store1_facts:
  "registry_inv demo_store1" "node_at demo_store1 = node_at empty_store"
  "replica_at demo_store1 = replica_at empty_store"
  "model_at demo_store1 = (model_at empty_store)(''m1'' \<mapsto> norm_ModelInfo (demo_model\<lparr>m_ID := ''m1''\<rparr>))"
  "named demo_store1 ''default'' ''iris'' (norm_ModelInfo (demo_model\<lparr>m_ID := ''m1''\<rparr>))"
  "names_unique demo_store1"
proof -
  have a: "register_allowed ''m1'' demo_model empty_store" by (simp add: demo_allowed)
  note ok = RegisterModel_ok [OF empty_store_inv demo_model_wf is_order_id(3) a]
  show "registry_inv demo_store1" "node_at demo_store1 = node_at empty_store"
    "replica_at demo_store1 = replica_at empty_store"
    by (rule ok, simp add: demo_store1_def)+
  show m: "model_at demo_store1 = (model_at empty_store)(''m1'' \<mapsto> norm_ModelInfo (demo_model\<lparr>m_ID := ''m1''\<rparr>))"
    by (rule ok) (simp add: demo_store1_def)
  show "named demo_store1 ''default'' ''iris'' (norm_ModelInfo (demo_model\<lparr>m_ID := ''m1''\<rparr>))"
    by (simp add: named_def m demo_model_def)
  show "names_unique demo_store1" unfolding names_unique_def named_def m by (auto split: if_splits)
qed


text \<open>
  C8. The check and the write of \<open>RegisterModel\<close> are not one atomic step. When two calls for
  the same name and different identifiers both finish their check before either writes, both
  succeed and the name is used twice.
\<close>

theorem register_race:
  assumes "registry_inv s" and "wf_ModelInfo info" and "is_order ord"
    and "register_allowed i info s" and "register_allowed j info s" and "i \<noteq> j"
  shows "\<exists>b c s1 s2. register_check ord i info s = Inr b \<and> register_check ord j info s = Inr c \<and>
    register_write io_ok i b s = (None, s1) \<and> register_write io_ok j c s1 = (None, s2) \<and>
    \<not> names_unique s2"
proof -
  from assms(1) have inv: "store_inv s" "model_rows_ok s" by (simp_all add: registry_inv_def)
  obtain b c where b: "register_check ord i info s = Inr b" and c: "register_check ord j info s = Inr c"
    using register_check_spec [OF inv assms(3)] assms(4,5) by blast
  note bb = register_check_bytes [OF b] and cc = register_check_bytes [OF c]
  have wf: "wf_ModelInfo (info\<lparr>m_ID := k\<rparr>)" for k using assms(2) by simp
  define s1 where "s1 = put_ok (model_prefix @ i) b s"
  define s2 where "s2 = put_ok (model_prefix @ j) c s1"
  have inv1: "store_inv s1" unfolding s1_def using wal.invar_put [OF inv(1)] by simp
  have w: "register_write io_ok i b s = (None, s1)" "register_write io_ok j c s1 = (None, s2)"
    using inv(1) inv1 by (simp_all add: register_write_def store_inv_def Put_put_ok s1_def s2_def)
  have at: "model_at s2 = (model_at s)(i \<mapsto> norm_ModelInfo (info\<lparr>m_ID := i\<rparr>), j \<mapsto> norm_ModelInfo (info\<lparr>m_ID := j\<rparr>))"
    unfolding s2_def model_put(1) [OF inv1 wf conjunct1 [OF cc]]
    unfolding s1_def model_put(1) [OF inv(1) wf conjunct1 [OF bb]] ..
  have "named s2 (m_Namespace info) (m_Name info) (norm_ModelInfo (info\<lparr>m_ID := k\<rparr>))" if "k = i \<or> k = j" for k
    using that assms(6) by (auto simp: named_def at)
  then have "\<not> names_unique s2"
    using assms(4,6) unfolding names_unique_def register_allowed_def
    by (metis norm_ModelInfo_fields(1) ModelInfo.select_convs(1) ModelInfo.surjective ModelInfo.update_convs(1))
  with b c w show ?thesis by blast
qed

theorem register_race_witness:
  "\<exists>b c s1 s2. register_check id ''m1'' demo_model empty_store = Inr b \<and>
     register_check id ''m2'' demo_model empty_store = Inr c \<and>
     register_write io_ok ''m1'' b empty_store = (None, s1) \<and> register_write io_ok ''m2'' c s1 = (None, s2) \<and>
     \<not> names_unique s2"
  by (rule register_race [OF empty_store_inv demo_model_wf is_order_id(2) demo_allowed demo_allowed]) simp_all


subsection \<open>Replacing a model\<close>

definition update_allowed :: "string \<Rightarrow> ModelInfo \<Rightarrow> bool" where
  "update_allowed i info \<longleftrightarrow> i \<noteq> [] \<and> (m_ID info = [] \<or> m_ID info = i) \<and>
     (m_InputFormat info = [] \<or> json_scan (m_InputFormat info) \<noteq> None)"

lemma UpdateModelInfo_ok:
  assumes "store_inv s" "update_allowed i info"
  obtains b where "marshal_ModelInfo (info\<lparr>m_ID := i\<rparr>) = Some b"
    "UpdateModelInfo io_ok i info s = (None, put_ok (model_prefix @ i) b s)"
proof -
  from assms(2) have "marshal_ModelInfo (info\<lparr>m_ID := i\<rparr>) \<noteq> None"
    by (simp add: marshal_ModelInfo_None update_allowed_def)
  then obtain b where b: "marshal_ModelInfo (info\<lparr>m_ID := i\<rparr>) = Some b" by blast
  moreover have "UpdateModelInfo io_ok i info s = (None, put_ok (model_prefix @ i) b s)"
    using assms b by (auto simp: UpdateModelInfo_def update_allowed_def store_inv_def Put_put_ok)
  ultimately show thesis by (rule that)
qed

text \<open>
  \<open>UpdateModelInfo\<close> is an upsert: it looks neither at the row it replaces nor at the names
  in use. Without an I/O fault it succeeds for every well-formed model with a matching
  identifier, also when there is no such model yet, and the model is then exactly the given
  one; so a rename onto a name in use gives two models of that name.
\<close>

lemma UpdateModelInfo_upsert:
  assumes "registry_inv s" and "wf_ModelInfo info" and "update_allowed i info"
  shows "\<exists>s'. UpdateModelInfo io_ok i info s = (None, s') \<and> registry_inv s' \<and>
    model_at s' = (model_at s)(i \<mapsto> norm_ModelInfo (info\<lparr>m_ID := i\<rparr>)) \<and>
    ((\<exists>m. named s (m_Namespace info) (m_Name info) m \<and> m_ID m \<noteq> i \<and> m_Name info \<noteq> []) \<longrightarrow> \<not> names_unique s')"
proof -
  from assms(1) have inv: "store_inv s" by (simp add: registry_inv_def)
  obtain b where b: "marshal_ModelInfo (info\<lparr>m_ID := i\<rparr>) = Some b"
    "UpdateModelInfo io_ok i info s = (None, put_ok (model_prefix @ i) b s)"
    by (rule UpdateModelInfo_ok [OF inv assms(3)])
  have wf: "wf_ModelInfo (info\<lparr>m_ID := i\<rparr>)" using assms(2) by simp
  note p = model_put [OF inv wf b(1), of i]
  let ?s = "put_ok (model_prefix @ i) b s"
  have "\<not> names_unique ?s" if m: "named s (m_Namespace info) (m_Name info) m" "m_ID m \<noteq> i" "m_Name info \<noteq> []" for m
  proof -
    have "named ?s (m_Namespace info) (m_Name info) m"
      "named ?s (m_Namespace info) (m_Name info) (norm_ModelInfo (info\<lparr>m_ID := i\<rparr>))"
      using m by (auto simp: named_def p(1))
    with m show ?thesis unfolding names_unique_def by (metis norm_ModelInfo_fields(1) ModelInfo.select_convs(1) ModelInfo.surjective ModelInfo.update_convs(1))
  qed
  with b p(1,2) assms(1) show ?thesis by (intro exI [of _ ?s]) auto
qed

subsection \<open>The nodes that host a model\<close>

lemma GetModelByNamespaceAndName_unique:
  assumes "store_inv s" "model_rows_ok s" "names_unique s" "is_order ord" "named s ns n m" "n \<noteq> []"
  shows "GetModelByNamespaceAndName ord ns n s = Inr (Some m)"
proof -
  obtain r where r: "GetModelByNamespaceAndName ord ns n s = Inr r"
    using GetModelByNamespaceAndName_total [OF assms(1,2,4,6)] by blast
  show ?thesis
  proof (cases r)
    case None
    with r assms(5) show ?thesis using GetModelByNamespaceAndName_None [OF assms(1,2,4)] by simp
  next
    case (Some m')
    with r have "named s ns n m'" using GetModelByNamespaceAndName_Some [OF assms(1,2,4)] by simp
    with r Some assms(3,5,6) show ?thesis by (auto simp: names_unique_def)
  qed
qed

lemma host_addresses_ids:
  "map na_NodeID (host_addresses rs ns seen) =
     map n_ID (filter (\<lambda>n. \<exists>r \<in> set (n_AssignedModels n). r \<in> set rs) ns)"
  if "distinct (map n_ID ns)" "set seen \<inter> n_ID ` set ns = {}"
  using that by (induction ns arbitrary: seen) auto

lemma host_addresses_set:
  assumes "a \<in> set (host_addresses rs ns seen)"
  shows "\<exists>n \<in> set ns. a = \<lparr>na_NodeID = n_ID n, na_IP = n_IP n, na_Port = to_int32 (n_Port n)\<rparr>"
  using assms by (induction ns arbitrary: seen) (auto split: if_splits)

text \<open>
  C9. The nodes of a model. On a registry whose rows are in order, for a model name that is
  registered, \<open>GetNodesByModelName\<close> returns the identifier of a model of that name and a list of
  addresses with no node twice; a node is in it exactly when it is registered and one of
  its assigned replicas is a stored replica of that model, and each address is that node's
  own.
\<close>

theorem GetNodesByModelName_spec:
  assumes "registry_inv s" and "is_order ord" and "named s ns n m0" and "n \<noteq> []" and "m_ID m0 \<noteq> []"
    and "names_unique s"
  shows "\<exists>addrs. GetNodesByModelName ord ns n s = Inr (m_ID m0, addrs) \<and>
    distinct (map na_NodeID addrs) \<and>
    (\<forall>i. i \<in> na_NodeID ` set addrs \<longleftrightarrow>
       (\<exists>node r. node_at s i = Some node \<and> r \<in> set (n_AssignedModels node) \<and>
          map_option r_ModelID (replica_at s r) = Some (m_ID m0))) \<and>
    (\<forall>a \<in> set addrs. \<exists>node. node_at s (na_NodeID a) = Some node \<and>
       na_IP a = n_IP node \<and> na_Port a = to_int32 (n_Port node))"
proof -
  from assms(1) have inv: "store_inv s" "model_rows_ok s" "node_rows_ok s" "replica_rows_ok s"
    by (simp_all add: registry_inv_def)
  have m: "GetModelByNamespaceAndName ord ns n s = Inr (Some m0)"
    by (rule GetModelByNamespaceAndName_unique [OF inv(1,2) assms(6,2,3,4)])
  obtain rs where rs: "ListReplicasByModelID ord (m_ID m0) s = Inr rs" "distinct (map r_ID rs)"
    "\<And>r. r \<in> set rs \<longleftrightarrow> replica_at s (r_ID r) = Some r \<and> r_ModelID r = m_ID m0"
    by (rule ListReplicasByModelID_total [OF inv(1,4) assms(2,5)]) blast
  obtain nl where nl: "ListNodes ord s = Inr nl" "distinct (map n_ID nl)"
    "\<And>n. n \<in> set nl \<longleftrightarrow> node_at s (n_ID n) = Some n"
    by (rule ListNodes_total [OF inv(1,3) assms(2)]) blast
  define addrs where "addrs = host_addresses (map r_ID rs) nl []"
  have ids: "map na_NodeID addrs = map n_ID (filter (\<lambda>n. \<exists>r \<in> set (n_AssignedModels n). r \<in> set (map r_ID rs)) nl)"
    unfolding addrs_def using nl(2) by (intro host_addresses_ids) simp_all
  have mine: "r \<in> set (map r_ID rs) \<longleftrightarrow> map_option r_ModelID (replica_at s r) = Some (m_ID m0)" for r
    using rs(3) replica_at_ID [OF inv(4)] by (auto simp: image_iff)
  have "i \<in> na_NodeID ` set addrs \<longleftrightarrow> (\<exists>node r. node_at s i = Some node \<and> r \<in> set (n_AssignedModels node) \<and>
          map_option r_ModelID (replica_at s r) = Some (m_ID m0))" for i
  proof -
    have "i \<in> na_NodeID ` set addrs \<longleftrightarrow> i \<in> set (map na_NodeID addrs)" by simp
    also have "\<dots> \<longleftrightarrow> (\<exists>node \<in> set nl. i = n_ID node \<and> (\<exists>r \<in> set (n_AssignedModels node). r \<in> set (map r_ID rs)))"
      unfolding ids by auto
    also have "\<dots> \<longleftrightarrow> (\<exists>node. node_at s i = Some node \<and> (\<exists>r \<in> set (n_AssignedModels node). r \<in> set (map r_ID rs)))"
      using nl(3) node_at_ID [OF inv(3)] by metis
    finally show ?thesis unfolding mine by blast
  qed
  moreover have "distinct (map na_NodeID addrs)" unfolding ids using nl(2) by (rule distinct_map_filter)
  moreover have "\<exists>node. node_at s (na_NodeID a) = Some node \<and> na_IP a = n_IP node \<and> na_Port a = to_int32 (n_Port node)"
    if "a \<in> set addrs" for a
    using host_addresses_set [OF that [unfolded addrs_def]] nl(3) by auto
  moreover have "GetNodesByModelName ord ns n s = Inr (m_ID m0, addrs)"
    using assms(4) m rs(1) nl(1) by (simp add: GetNodesByModelName_def addrs_def)
  ultimately show ?thesis by blast
qed

theorem GetNodesByModelName_spec_witness:
  "\<exists>addrs. GetNodesByModelName rev ''default'' ''iris'' demo_store1 = Inr (''m1'', addrs) \<and> addrs = []"
  using GetNodesByModelName_spec [OF demo_store1_facts(1) is_order_id(3) demo_store1_facts(5) _ _ demo_store1_facts(6)]
  by (auto simp: demo_store1_facts)

end
