(* ===== verification/Model_Status.thy ===== *)
theory Model_Status
  imports Model_Registry
begin

section \<open>Status of a model\<close>

text \<open>
  Models \<open>internal/control-plane/controller/status/model_status.go\<close>: the replicas of a model
  are counted by status in 32-bit counters and the counts are turned into one status.
  \<open>summary\<close> is the specification: the status read off the list of replicas directly.
\<close>

record ReplicaStatusBreakdown =
  bd_Running :: int
  bd_Pending :: int
  bd_Failed :: int
  bd_Unknown :: int

record ModelStatusResult =
  sr_ModelName :: string
  sr_ModelID :: string
  sr_Status :: ModelStatus
  sr_TotalReplicas :: int
  sr_Breakdown :: ReplicaStatusBreakdown

definition zero_Breakdown :: ReplicaStatusBreakdown where
  "zero_Breakdown = \<lparr>bd_Running = 0, bd_Pending = 0, bd_Failed = 0, bd_Unknown = 0\<rparr>"

fun count_replicas :: "ReplicaInfo list \<Rightarrow> ReplicaStatusBreakdown \<Rightarrow> ReplicaStatusBreakdown" where
  "count_replicas [] b = b"
| "count_replicas (req # rs) b =
     count_replicas rs
       (if r_Status req = ModelReplicaStatusRunning then b\<lparr>bd_Running := to_int32 (bd_Running b + 1)\<rparr>
        else if r_Status req = ModelReplicaStatusPending then b\<lparr>bd_Pending := to_int32 (bd_Pending b + 1)\<rparr>
        else if r_Status req = ModelReplicaStatusFailed then b\<lparr>bd_Failed := to_int32 (bd_Failed b + 1)\<rparr>
        else b\<lparr>bd_Unknown := to_int32 (bd_Unknown b + 1)\<rparr>)"

definition status_of_counts :: "int \<Rightarrow> ReplicaStatusBreakdown \<Rightarrow> ModelStatus" where
  "status_of_counts totalN b =
     (if totalN = 0 then ModelStatusPending
      else if bd_Running b = totalN then ModelStatusRunning
      else if bd_Pending b = totalN then ModelStatusPending
      else if bd_Failed b = totalN then ModelStatusFailed
      else if 0 < bd_Running b then ModelStatusPartialRunning
      else ModelStatusPending)"

definition GetModelStatus ::
    "(string list \<Rightarrow> string list) \<Rightarrow> string \<Rightarrow> string \<Rightarrow> Store \<Rightarrow> ModelStatusResult result" where
  "GetModelStatus ord namespace modelName s =
     (if modelName = [] then Inl ''model name cannot be empty''
      else case GetModelByNamespaceAndName ord namespace modelName s of
        Inl e \<Rightarrow> Inl (''failed to get model by name: '' @ e)
      | Inr None \<Rightarrow> Inl ''model not found''
      | Inr (Some modelInfo) \<Rightarrow>
          (case ListReplicasByModelID ord (m_ID modelInfo) s of
             Inl e \<Rightarrow> Inl (''failed to list replicas: '' @ e)
           | Inr replicas \<Rightarrow>
               (let breakdown = count_replicas replicas zero_Breakdown;
                    totalN = to_int32 (int (length replicas))
                in Inr \<lparr>sr_ModelName = m_Name modelInfo, sr_ModelID = m_ID modelInfo,
                        sr_Status = status_of_counts totalN breakdown,
                        sr_TotalReplicas = totalN, sr_Breakdown = breakdown\<rparr>)))"


subsection \<open>Counting\<close>

definition with_status :: "ModelReplicaStatus \<Rightarrow> ReplicaInfo list \<Rightarrow> ReplicaInfo list" where
  "with_status st rs = filter (\<lambda>r. r_Status r = st) rs"

definition unknown_status :: "ReplicaInfo \<Rightarrow> bool" where
  "unknown_status r \<longleftrightarrow> r_Status r \<notin> {ModelReplicaStatusRunning, ModelReplicaStatusPending, ModelReplicaStatusFailed}"

definition breakdown_of :: "ReplicaInfo list \<Rightarrow> ReplicaStatusBreakdown" where
  "breakdown_of rs =
     \<lparr>bd_Running = to_int32 (int (length (with_status ModelReplicaStatusRunning rs))),
      bd_Pending = to_int32 (int (length (with_status ModelReplicaStatusPending rs))),
      bd_Failed = to_int32 (int (length (with_status ModelReplicaStatusFailed rs))),
      bd_Unknown = to_int32 (int (length (filter unknown_status rs)))\<rparr>"

lemma status_constants_distinct [simp]:
  "ModelReplicaStatusRunning \<noteq> ModelReplicaStatusPending" "ModelReplicaStatusRunning \<noteq> ModelReplicaStatusFailed"
  "ModelReplicaStatusPending \<noteq> ModelReplicaStatusRunning" "ModelReplicaStatusPending \<noteq> ModelReplicaStatusFailed"
  "ModelReplicaStatusFailed \<noteq> ModelReplicaStatusRunning" "ModelReplicaStatusFailed \<noteq> ModelReplicaStatusPending"
  "ModelReplicaStatusUnknown \<noteq> ModelReplicaStatusRunning" "ModelReplicaStatusUnknown \<noteq> ModelReplicaStatusPending"
  "ModelReplicaStatusUnknown \<noteq> ModelReplicaStatusFailed"
  by (simp_all add: ModelReplicaStatus_defs)

lemma to_int32_add2: "to_int32 (i + to_int32 j) = to_int32 (i + j)"
  using to_int32_add [of j i] by (simp add: add.commute)

lemma count_replicas_add:
  "count_replicas rs b =
     \<lparr>bd_Running = to_int32 (bd_Running b + int (length (with_status ModelReplicaStatusRunning rs))),
      bd_Pending = to_int32 (bd_Pending b + int (length (with_status ModelReplicaStatusPending rs))),
      bd_Failed = to_int32 (bd_Failed b + int (length (with_status ModelReplicaStatusFailed rs))),
      bd_Unknown = to_int32 (bd_Unknown b + int (length (filter unknown_status rs)))\<rparr>"
  if "in_int32 (bd_Running b)" "in_int32 (bd_Pending b)" "in_int32 (bd_Failed b)" "in_int32 (bd_Unknown b)"
  using that
proof (induction rs arbitrary: b)
  case Nil
  then show ?case by (cases b) (simp add: with_status_def)
next
  case (Cons r rs)
  show ?case
    by (simp add: Cons.IH Cons.prems to_int32_range with_status_def unknown_status_def to_int32_add algebra_simps)
qed

lemma count_replicas_breakdown: "count_replicas rs zero_Breakdown = breakdown_of rs"
  by (subst count_replicas_add) (simp_all add: zero_Breakdown_def breakdown_of_def in_int32_def)

text \<open>The status, read off the replicas.\<close>

definition summary :: "ReplicaInfo list \<Rightarrow> ModelStatus" where
  "summary rs =
     (if rs = [] then ModelStatusPending
      else if list_all (\<lambda>r. r_Status r = ModelReplicaStatusRunning) rs then ModelStatusRunning
      else if list_all (\<lambda>r. r_Status r = ModelReplicaStatusFailed) rs then ModelStatusFailed
      else if list_ex (\<lambda>r. r_Status r = ModelReplicaStatusRunning) rs then ModelStatusPartialRunning
      else ModelStatusPending)"

lemma length_with_status:
  "length (with_status st rs) = length rs \<longleftrightarrow> list_all (\<lambda>r. r_Status r = st) rs"
proof
  assume eq: "length (with_status st rs) = length rs"
  have "r_Status r = st" if "r \<in> set rs" for r
    using length_filter_less [OF that, of "\<lambda>r. r_Status r = st"] eq by (auto simp: with_status_def)
  then show "list_all (\<lambda>r. r_Status r = st) rs" by (simp add: list_all_iff)
next
  assume "list_all (\<lambda>r. r_Status r = st) rs"
  then show "length (with_status st rs) = length rs" by (simp add: with_status_def list_all_iff)
qed

lemma with_status_empty: "length (with_status st rs) = 0 \<longleftrightarrow> \<not> list_ex (\<lambda>r. r_Status r = st) rs"
  unfolding with_status_def by (induction rs) auto

lemma length_with_status_le: "length (with_status st rs) \<le> length rs"
  by (simp add: with_status_def)

lemma summary_status:
  assumes "int (length rs) < 2 ^ 31"
  shows "status_of_counts (to_int32 (int (length rs))) (breakdown_of rs) = summary rs"
proof -
  have small: "to_int32 (int n) = int n" if "n \<le> length rs" for n
    using assms that by (intro to_int32_id) (simp add: in_int32_def)
  note c = small [OF length_with_status_le] small [OF order_refl]
  have "list_all (\<lambda>r. r_Status r = ModelReplicaStatusPending) rs \<Longrightarrow> rs \<noteq> [] \<Longrightarrow>
      \<not> list_all (\<lambda>r. r_Status r = ModelReplicaStatusRunning) rs \<and>
      \<not> list_all (\<lambda>r. r_Status r = ModelReplicaStatusFailed) rs \<and>
      \<not> list_ex (\<lambda>r. r_Status r = ModelReplicaStatusRunning) rs"
    by (cases rs) (auto simp: list_all_iff list_ex_iff)
  then show ?thesis
    using with_status_empty [of ModelReplicaStatusRunning rs]
    by (auto simp: status_of_counts_def breakdown_of_def summary_def c length_with_status)
qed

text \<open>
  C18. The reported status of a model. On a registry whose rows are in order, for a registered
  name and fewer than \<open>2^31\<close> replicas, \<open>GetModelStatus\<close> reports on exactly the stored replicas of
  that model: their number, the number of each status (any other status text counts as
  unknown), and the status that a reading of the list gives: running when all run, failed
  when all failed, partial when some but not all run, and pending in every other case.
\<close>

theorem GetModelStatus_spec:
  assumes "registry_inv s" and "names_unique s" and "is_order ord"
    and "named s ns n m" and "n \<noteq> []" and "m_ID m \<noteq> []"
    and "card {r. replica_at s (r_ID r) = Some r \<and> r_ModelID r = m_ID m} < 2 ^ 31"
  shows "\<exists>rs. GetModelStatus ord ns n s =
      Inr \<lparr>sr_ModelName = n, sr_ModelID = m_ID m, sr_Status = summary rs,
           sr_TotalReplicas = int (length rs), sr_Breakdown = breakdown_of rs\<rparr> \<and>
    set rs = {r. replica_at s (r_ID r) = Some r \<and> r_ModelID r = m_ID m} \<and> distinct rs"
proof -
  from assms(1) have inv: "store_inv s" "model_rows_ok s" "replica_rows_ok s" by (simp_all add: registry_inv_def)
  have m: "GetModelByNamespaceAndName ord ns n s = Inr (Some m)"
    by (rule GetModelByNamespaceAndName_unique [OF inv(1,2) assms(2,3,4,5)])
  obtain rs where rs: "ListReplicasByModelID ord (m_ID m) s = Inr rs" "distinct (map r_ID rs)"
    "\<And>r. r \<in> set rs \<longleftrightarrow> replica_at s (r_ID r) = Some r \<and> r_ModelID r = m_ID m"
    by (rule ListReplicasByModelID_total [OF inv(1,3) assms(3,6)]) blast
  have set: "set rs = {r. replica_at s (r_ID r) = Some r \<and> r_ModelID r = m_ID m}" using rs(3) by blast
  have d: "distinct rs" using rs(2) by (simp add: distinct_map)
  have "length rs < 2 ^ 31" using assms(7) d by (metis set distinct_card)
  then have len: "int (length rs) < 2 ^ 31" by (metis of_nat_less_iff of_nat_numeral of_nat_power)
  then have "to_int32 (int (length rs)) = int (length rs)" by (intro to_int32_id) (simp add: in_int32_def)
  with assms(4,5) m rs(1) summary_status [OF len] set d show ?thesis
    by (auto simp: GetModelStatus_def count_replicas_breakdown named_def)
qed

definition demo_replica :: ReplicaInfo where
  "demo_replica = zero_ReplicaInfo\<lparr>r_ModelID := ''m1'', r_Status := ModelReplicaStatusRunning\<rparr>"

definition demo_store2 :: Store where
  "demo_store2 = snd (CreateReplica io_ok ''r1'' demo_replica demo_store1)"

lemma CreateReplica_ok:
  assumes "store_inv s" "i \<noteq> []" "r_ID r = [] \<or> r_ID r = i"
  shows "\<exists>s'. CreateReplica io_ok i r s = (None, s')"
proof -
  from marshal_ReplicaInfo_total obtain b where "marshal_ReplicaInfo (if r_ID r = [] then r\<lparr>r_ID := i\<rparr> else r) = Some b" by blast
  with assms show ?thesis by (auto simp: CreateReplica_def store_inv_def Put_put_ok)
qed

lemma demo_replica_wf: "wf_ReplicaInfo demo_replica"
  by (simp add: wf_ReplicaInfo_def demo_replica_def zero_ReplicaInfo_def in_int64_def zero_time_def)

lemma demo_store2_facts:
  "registry_inv demo_store2" "model_at demo_store2 = model_at demo_store1"
  "node_at demo_store2 = node_at demo_store1"
  "replica_at demo_store2 = (replica_at demo_store1)(''r1'' \<mapsto> demo_replica\<lparr>r_ID := ''r1''\<rparr>)"
proof -
  have inv: "store_inv demo_store1" using demo_store1_facts(1) by (simp add: registry_inv_def)
  have "\<exists>s'. CreateReplica io_ok ''r1'' demo_replica demo_store1 = (None, s')"
    by (rule CreateReplica_ok [OF inv]) (simp_all add: demo_replica_def zero_ReplicaInfo_def)
  then have "UpdateReplicaInfo io_ok ''r1'' demo_replica demo_store1 = (None, demo_store2)"
    by (auto simp: demo_store2_def dest: CreateReplica_None)
  note u = UpdateReplicaInfo_registry [OF demo_store1_facts(1) demo_replica_wf this]
  show "registry_inv demo_store2" "model_at demo_store2 = model_at demo_store1"
    "node_at demo_store2 = node_at demo_store1"
    "replica_at demo_store2 = (replica_at demo_store1)(''r1'' \<mapsto> demo_replica\<lparr>r_ID := ''r1''\<rparr>)"
    by (rule u)+
qed

lemma demo_store2_replicas:
  "{r. replica_at demo_store2 (r_ID r) = Some r \<and> r_ModelID r = ''m1''} = {demo_replica\<lparr>r_ID := ''r1''\<rparr>}"
  by (auto simp: demo_store2_facts demo_store1_facts demo_replica_def split: if_splits)

theorem GetModelStatus_spec_witness:
  "\<exists>b. GetModelStatus rev ''default'' ''iris'' demo_store2 =
     Inr \<lparr>sr_ModelName = ''iris'', sr_ModelID = ''m1'', sr_Status = ModelStatusRunning,
          sr_TotalReplicas = 1, sr_Breakdown = b\<rparr>"
proof -
  let ?m = "norm_ModelInfo (demo_model\<lparr>m_ID := ''m1''\<rparr>)"
  have n: "named demo_store2 ''default'' ''iris'' ?m" "names_unique demo_store2"
    using demo_store1_facts(5,6) by (simp_all add: named_def names_unique_def demo_store2_facts)
  have id: "m_ID ?m = ''m1''" by simp
  have "\<exists>rs. GetModelStatus rev ''default'' ''iris'' demo_store2 =
      Inr \<lparr>sr_ModelName = ''iris'', sr_ModelID = ''m1'', sr_Status = summary rs,
           sr_TotalReplicas = int (length rs), sr_Breakdown = breakdown_of rs\<rparr> \<and>
    set rs = {demo_replica\<lparr>r_ID := ''r1''\<rparr>} \<and> distinct rs"
    using GetModelStatus_spec [OF demo_store2_facts(1) n(2) is_order_id(3) n(1)] demo_store2_replicas
    unfolding id by simp
  then obtain rs where rs: "GetModelStatus rev ''default'' ''iris'' demo_store2 =
      Inr \<lparr>sr_ModelName = ''iris'', sr_ModelID = ''m1'', sr_Status = summary rs,
           sr_TotalReplicas = int (length rs), sr_Breakdown = breakdown_of rs\<rparr>"
    "set rs = {demo_replica\<lparr>r_ID := ''r1''\<rparr>}" "distinct rs" by blast
  from rs(2,3) have "rs = [demo_replica\<lparr>r_ID := ''r1''\<rparr>]"
    by (cases rs) (auto simp: subset_singleton_iff)
  with rs(1) show ?thesis by (simp add: summary_def demo_replica_def)
qed

end
