(* ===== verification/Messages.thy ===== *)
theory Messages
  imports Go_Float
begin

section \<open>The messages of the gRPC services\<close>

text \<open>
  The message types of \<open>internal/common/pb\<close> that the handlers read and build, as records with
  the fields of the generated structs; a getter of the generated code is the selector. A
  message-valued field is an option, \<open>None\<close> being the nil pointer, and a handler's request
  is an option in the same way. An \<open>int32\<close> or \<open>int64\<close> field is an \<open>int\<close>; a \<open>float\<close> field is a
  \<open>float64\<close> that the conversion to single precision produced.

  A handler returns the response message, where there is one, and the status error, where
  there is one: Go code may return both.
\<close>

datatype Code = Canceled | Unknown | InvalidArgument | DeadlineExceeded | NotFound | AlreadyExists
  | PermissionDenied | ResourceExhausted | FailedPrecondition | Aborted | OutOfRange | Unimplemented
  | Internal | Unavailable | DataLoss | Unauthenticated

type_synonym status = "Code \<times> string"
type_synonym 'a reply = "'a option \<times> status option"

abbreviation ok_reply :: "'a \<Rightarrow> 'a reply" where "ok_reply r \<equiv> (Some r, None)"

abbreviation err_reply :: "Code \<Rightarrow> string \<Rightarrow> 'a reply" where "err_reply c m \<equiv> (None, Some (c, m))"

subsection \<open>Model service\<close>

record ProtoModelInfo =
  pm_Id :: string
  pm_Name :: string
  pm_Version :: string
  pm_FilePath :: string
  pm_ModelType :: string
  pm_ModelSize :: int
  pm_Replicas :: int
  pm_InputFormat :: string
  pm_Namespace :: string

record UpdateModelRequest =
  um_Id :: string
  um_Name :: string
  um_Version :: string
  um_FilePath :: string
  um_ModelType :: string
  um_ModelSize :: int
  um_Replicas :: int
  um_InputFormat :: string
  um_Namespace :: string

record ModelName =
  mn_Name :: string
  mn_Namespace :: string

record ProtoReplicaStatusBreakdown =
  pb_Running :: int
  pb_Pending :: int
  pb_Failed :: int
  pb_Unknown :: int

record ModelStatusResponse =
  ms_ModelName :: string
  ms_ModelId :: string
  ms_Status :: string
  ms_TotalReplicas :: int
  ms_Breakdown :: ProtoReplicaStatusBreakdown

record ProtoNodeAddress =
  pna_NodeId :: string
  pna_Ip :: string
  pna_Port :: int

record ModelNodesResponse =
  mnr_ModelName :: string
  mnr_ModelId :: string
  mnr_Nodes :: "ProtoNodeAddress list"

subsection \<open>Node service\<close>

record ProtoMemoryInfo =
  pmem_Total :: int
  pmem_Free :: int
  pmem_Used :: int
  pmem_Type :: string

record ProtoStorageInfo =
  psto_Total :: int
  psto_Free :: int
  psto_Used :: int

record ProtoComputeDevice =
  pcd_Type :: string
  pcd_Vendor :: string
  pcd_Model :: string
  pcd_Memory :: int
  pcd_ComputeUnits :: int
  pcd_Tops :: float64
  pcd_PowerDrawWatts :: int

record ProtoResourceCapabilities =
  prc_Memory :: "ProtoMemoryInfo option"
  prc_Storage :: "ProtoStorageInfo option"
  prc_ComputeDevices :: "ProtoComputeDevice list"

record ProtoNodeMetadata =
  pmd_OsType :: string
  pmd_AgentVersion :: string
  pmd_Hostname :: string

record ProtoNodeInfo =
  pn_NodeId :: string
  pn_Name :: string
  pn_Ip :: string
  pn_Port :: int
  pn_Metadata :: "ProtoNodeMetadata option"
  pn_ResourceCapabilities :: "ProtoResourceCapabilities option"

record UpdateNodeRequest =
  un_NodeId :: string
  un_Metadata :: "ProtoNodeMetadata option"
  un_ResourceCapabilities :: "ProtoResourceCapabilities option"

subsection \<open>Discovery service\<close>

record NodeEndpoint =
  ne_NodeId :: string
  ne_Ip :: string
  ne_Port :: int

subsection \<open>Heartbeat service\<close>

record EndpointDetail =
  ed_NodeId :: string
  ed_ReplicaId :: string
  ed_Ip :: string
  ed_Port :: int
  ed_Healthy :: bool
  ed_Weight :: float64

record ServiceEndpoints =
  se_ModelId :: string
  se_Endpoints :: "EndpointDetail list"

record RequestHeartbeatRequest =
  hr_NodeID :: string
  hr_ServiceEndpoints :: "ServiceEndpoints list"

record ModelReplicaDetails =
  rd_ReplicaId :: string
  rd_ModelId :: string
  rd_Name :: string
  rd_Version :: string
  rd_FilePath :: string
  rd_ModelType :: string
  rd_ModelSize :: int
  rd_Status :: string
  rd_ErrorCode :: int
  rd_ErrorMessage :: string
  rd_InstanceCount :: int

record RequestHeartbeatResponse =
  hp_NodeID :: string
  hp_ModelReplicas :: "ModelReplicaDetails list"
  hp_Success :: bool

subsection \<open>Deploy service\<close>

record DeployModelRequest =
  dm_ModelId :: string
  dm_Name :: string
  dm_Version :: string
  dm_FilePath :: string
  dm_ModelType :: string
  dm_ModelSize :: int
  dm_InstanceCount :: int
  dm_Namespace :: string
  dm_Sha256Hash :: string

record DeployModelResponse =
  dp_Success :: bool
  dp_Message :: string

record ModelDownloadRequest =
  dl_ModelId :: string
  dl_ResumeByteOffset :: int

record ModelChunk =
  ck_ChunkData :: bytes
  ck_ChunkOffset :: int

record ModelUploadMetadata =
  up_Filename :: string
  up_TotalSize :: int
  up_Sha256Hash :: string

text \<open>The \<open>oneof\<close> of an upload message.\<close>

datatype upload_content = CMetadata ModelUploadMetadata | CChunkData bytes

record ModelUploadChunk =
  uc_Content :: "upload_content option"
  uc_ChunkOffset :: int

record ModelUploadResponse =
  ur_Success :: bool
  ur_FilePath :: string
  ur_Message :: string

subsection \<open>Infer service\<close>

record InferRequest =
  iq_ModelId :: string
  iq_InputData :: "float64 list"
  iq_ScalingEnabled :: bool
  iq_IsForwarded :: bool

record InferResponse =
  ir_Success :: bool
  ir_Prediction :: float64
  ir_ErrorMessage :: string

end
