(* ===== verification/Heartbeat_Controller.thy ===== *)
theory Heartbeat_Controller
  imports Model_Status Messages
begin

section \<open>The heartbeat controller\<close>

text \<open>
  Models \<open>internal/control-plane/controller/heartbeat/heartbeat.go\<close> and the caller in
  \<open>internal/control-plane/api/grpc/heartbeat\<close>. One round contacts every node that is online
  or unknown, sends it the service endpoints, and either records what the node reports
  about its replicas or changes the status of the node.

  The environment of a round is the record \<open>hb_env\<close>: the answers of the agents (the RPC is a
  parameter), the readings of the clock, the outcomes of the store's writes and the
  iteration orders. Within a round a node is contacted once, so the clock and the outcomes
  are indexed by the node, and by the position in its list of assigned replicas.
\<close>

record hb_env =
  hb_rpc :: "string \<Rightarrow> RequestHeartbeatRequest \<Rightarrow> RequestHeartbeatResponse result"
  hb_check_now :: "string \<Rightarrow> time"
  hb_status_now :: "string \<Rightarrow> time"
  hb_replica_now :: "string \<Rightarrow> nat \<Rightarrow> time"
  hb_status_io :: "string \<Rightarrow> io"
  hb_replica_io :: "string \<Rightarrow> nat \<Rightarrow> io"
  hb_ord_build :: "string list \<Rightarrow> string list"
  hb_ord_models :: "string list \<Rightarrow> string list"
  hb_ord_nodes :: "string list \<Rightarrow> string list"

definition CallHeartbeat ::
    "(string \<Rightarrow> RequestHeartbeatRequest \<Rightarrow> RequestHeartbeatResponse result) \<Rightarrow> NodeInfo \<Rightarrow> ServiceEndpoints list
      \<Rightarrow> RequestHeartbeatResponse result" where
  "CallHeartbeat rpc node endpoints =
     rpc (n_IP node @ '':'' @ Itoa (n_Port node)) \<lparr>hr_NodeID = n_ID node, hr_ServiceEndpoints = endpoints\<rparr>"

definition convertStringToReplicaStatus :: "string \<Rightarrow> ModelReplicaStatus" where
  "convertStringToReplicaStatus statusStr =
     (if statusStr = ''pending'' then ModelReplicaStatusPending
      else if statusStr = ''running'' then ModelReplicaStatusRunning
      else if statusStr = ''failed'' then ModelReplicaStatusFailed
      else if statusStr = ''unknown'' then ModelReplicaStatusUnknown
      else ModelReplicaStatusUnknown)"


subsection \<open>Service endpoints\<close>

definition sum_tops :: "NodeInfo \<Rightarrow> float64" where
  "sum_tops node = foldl (\<lambda>tops dev. f64_add tops (cd_TOPS dev)) (Fin 0) (rc_ComputeDevices (n_ResourceCapabilities node))"

definition endpoint_of :: "NodeInfo \<Rightarrow> ReplicaInfo \<Rightarrow> EndpointDetail" where
  "endpoint_of node r =
     \<lparr>ed_NodeId = n_ID node, ed_ReplicaId = r_ID r, ed_Ip = n_IP node, ed_Port = to_int32 (n_Port node),
      ed_Healthy = True, ed_Weight = sum_tops node\<rparr>"

type_synonym endpoint_map = "(string \<times> EndpointDetail list) list"

definition eps_of :: "endpoint_map \<Rightarrow> string \<Rightarrow> EndpointDetail list" where
  "eps_of m k = (case map_of m k of None \<Rightarrow> [] | Some eps \<Rightarrow> eps)"

fun node_endpoints :: "NodeInfo \<Rightarrow> string list \<Rightarrow> Store \<Rightarrow> endpoint_map \<Rightarrow> endpoint_map" where
  "node_endpoints node [] s m = m"
| "node_endpoints node (replicaID # ids) s m =
     (case GetReplicaByID replicaID s of
        Inr (Some r) \<Rightarrow>
          if r_Status r \<noteq> ModelReplicaStatusRunning then node_endpoints node ids s m
          else node_endpoints node ids s
                 (AList.update (r_ModelID r) (eps_of m (r_ModelID r) @ [endpoint_of node r]) m)
      | _ \<Rightarrow> node_endpoints node ids s m)"

fun all_endpoints :: "NodeInfo list \<Rightarrow> Store \<Rightarrow> endpoint_map \<Rightarrow> endpoint_map" where
  "all_endpoints [] s m = m"
| "all_endpoints (node # nodes) s m = all_endpoints nodes s (node_endpoints node (n_AssignedModels node) s m)"

definition buildServiceEndpoints ::
    "(string list \<Rightarrow> string list) \<Rightarrow> (string list \<Rightarrow> string list) \<Rightarrow> Store \<Rightarrow> ServiceEndpoints list" where
  "buildServiceEndpoints ord ord_models s =
     (case ListNodesByStatuses ord [StatusOnline] s of
        Inl e \<Rightarrow> []
      | Inr onlineNodes \<Rightarrow>
          (let endpointsByModel = all_endpoints onlineNodes s []
           in map (\<lambda>modelID. \<lparr>se_ModelId = modelID, se_Endpoints = eps_of endpointsByModel modelID\<rparr>)
                (ord_models (map fst endpointsByModel))))"


subsection \<open>A round\<close>

text \<open>What the answer says about a replica.\<close>

definition observed :: "time \<Rightarrow> ModelReplicaDetails option \<Rightarrow> ReplicaInfo \<Rightarrow> ReplicaInfo" where
  "observed now foundReplica info =
     (case foundReplica of
        Some d \<Rightarrow> info\<lparr>r_Status := convertStringToReplicaStatus (rd_Status d), r_ErrorCode := rd_ErrorCode d,
                       r_ErrorMessage := rd_ErrorMessage d, r_LastHeartbeat := now\<rparr>
      | None \<Rightarrow> info\<lparr>r_Status := ModelReplicaStatusUnknown, r_LastHeartbeat := now\<rparr>)"

definition reported :: "RequestHeartbeatResponse \<Rightarrow> string \<Rightarrow> ModelReplicaDetails option" where
  "reported resp replicaID = List.find (\<lambda>d. rd_ReplicaId d = replicaID) (hp_ModelReplicas resp)"

fun update_replicas ::
    "(nat \<Rightarrow> time) \<Rightarrow> (nat \<Rightarrow> io) \<Rightarrow> RequestHeartbeatResponse \<Rightarrow> string list \<Rightarrow> nat \<Rightarrow> Store \<Rightarrow> Store" where
  "update_replicas now x resp [] j s = s"
| "update_replicas now x resp (replicaID # ids) j s =
     update_replicas now x resp ids (Suc j)
       (case GetReplicaByID replicaID s of
          Inr (Some info) \<Rightarrow>
            snd (UpdateReplicaInfo (x j) replicaID (observed (now j) (reported resp replicaID) info) s)
        | _ \<Rightarrow> s)"

definition stale :: "time \<Rightarrow> NodeInfo \<Rightarrow> bool" where
  "stale now node \<longleftrightarrow> n_LastHeartbeat node + 40 * Second < now"

definition heartbeat_node :: "hb_env \<Rightarrow> ServiceEndpoints list \<Rightarrow> NodeInfo \<Rightarrow> Store \<Rightarrow> Store" where
  "heartbeat_node env endpoints node s =
     (case CallHeartbeat (hb_rpc env) node endpoints of
        Inl e \<Rightarrow>
          if stale (hb_check_now env (n_ID node)) node
          then snd (UpdateNodeStatus (hb_status_io env (n_ID node)) (hb_status_now env (n_ID node)) (n_ID node) StatusOffline s)
          else snd (UpdateNodeStatus (hb_status_io env (n_ID node)) (hb_status_now env (n_ID node)) (n_ID node) StatusUnknown s)
      | Inr resp \<Rightarrow>
          update_replicas (hb_replica_now env (n_ID node)) (hb_replica_io env (n_ID node)) resp (n_AssignedModels node) 0 s)"

fun heartbeat_nodes :: "hb_env \<Rightarrow> ServiceEndpoints list \<Rightarrow> NodeInfo list \<Rightarrow> Store \<Rightarrow> Store" where
  "heartbeat_nodes env endpoints [] s = s"
| "heartbeat_nodes env endpoints (node # nodes) s =
     heartbeat_nodes env endpoints nodes (heartbeat_node env endpoints node s)"

definition round_endpoints :: "hb_env \<Rightarrow> Store \<Rightarrow> ServiceEndpoints list" where
  "round_endpoints env s = buildServiceEndpoints (hb_ord_build env) (hb_ord_models env) s"

definition HandleHeartbeat :: "hb_env \<Rightarrow> Store \<Rightarrow> error option \<times> Store" where
  "HandleHeartbeat env s =
     (let endpoints = round_endpoints env s in
      case ListNodesByStatuses (hb_ord_nodes env) [StatusOnline, StatusUnknown] s of
        Inl e \<Rightarrow> (Some e, s)
      | Inr nodes \<Rightarrow> (None, heartbeat_nodes env endpoints nodes s))"

text \<open>\<open>StartHeartbeatHandler\<close>: one round at once and one per tick; an error of a round is only logged.\<close>

fun StartHeartbeatHandler :: "hb_env list \<Rightarrow> Store \<Rightarrow> Store" where
  "StartHeartbeatHandler [] s = s"
| "StartHeartbeatHandler (env # envs) s = StartHeartbeatHandler envs (snd (HandleHeartbeat env s))"



subsection \<open>Invariant\<close>

text \<open>The stored nodes and replicas have values that can be written back.\<close>

definition objects_wf :: "Store \<Rightarrow> bool" where
  "objects_wf s \<longleftrightarrow> (\<forall>i n. node_at s i = Some n \<longrightarrow> wf_NodeInfo n \<and> marshal_NodeInfo n \<noteq> None) \<and>
     (\<forall>i r. replica_at s i = Some r \<longrightarrow> wf_ReplicaInfo r) \<and> node_at s [] = None"

definition cluster_inv :: "Store \<Rightarrow> bool" where
  "cluster_inv s \<longleftrightarrow> registry_inv s \<and> objects_wf s"

definition env_ok :: "hb_env \<Rightarrow> bool" where
  "env_ok env \<longleftrightarrow> (\<forall>i. in_int64 (hb_status_now env i)) \<and> (\<forall>i j. in_int64 (hb_replica_now env i j)) \<and>
     (\<forall>a q resp. hb_rpc env a q = Inr resp \<longrightarrow> list_all (\<lambda>d. in_int32 (rd_ErrorCode d)) (hp_ModelReplicas resp)) \<and>
     is_order (hb_ord_build env) \<and> is_order (hb_ord_models env) \<and> is_order (hb_ord_nodes env)"

definition env_io_ok :: "hb_env \<Rightarrow> bool" where
  "env_io_ok env \<longleftrightarrow> (\<forall>i. hb_status_io env i = io_ok) \<and> (\<forall>i j. hb_replica_io env i j = io_ok)"

lemma cluster_invD:
  assumes "cluster_inv s"
  shows "registry_inv s" "store_inv s" "model_rows_ok s" "node_rows_ok s" "replica_rows_ok s"
    "node_at s i = Some n \<Longrightarrow> wf_NodeInfo n" "node_at s i = Some n \<Longrightarrow> marshal_NodeInfo n \<noteq> None"
    "replica_at s i = Some r \<Longrightarrow> wf_ReplicaInfo r" "node_at s [] = None"
  using assms by (auto simp: cluster_inv_def registry_inv_def objects_wf_def)

lemma cluster_inv_same_data:
  assumes "data s' = data s" "walFile s' = walFile s"
  shows "cluster_inv s' = cluster_inv s"
  using same_data_view [OF assms(1)] assms(2) by (simp add: cluster_inv_def objects_wf_def)

lemma observed_simps [simp]:
  "r_ID (observed t d r) = r_ID r" "r_ModelID (observed t d r) = r_ModelID r"
  "observed t d (observed t' d r) = observed t d r"
  "(observed t d r)\<lparr>r_ID := i\<rparr> = observed t d (r\<lparr>r_ID := i\<rparr>)"
  by (auto simp: observed_def split: option.splits)

lemma r_ID_same [simp]: "r_ID r = i \<Longrightarrow> r\<lparr>r_ID := i\<rparr> = r"
  by (cases r) simp

lemma wf_observed:
  assumes "wf_ReplicaInfo r" "in_int64 t" "list_all (\<lambda>d. in_int32 (rd_ErrorCode d)) (hp_ModelReplicas resp)"
  shows "wf_ReplicaInfo (observed t (reported resp i) r)"
  using assms
  by (auto simp: observed_def wf_ReplicaInfo_def reported_def list_all_iff in_int32_64 split: option.splits
      dest: find_Some_in)


subsection \<open>One replica, one node\<close>

definition replica_step :: "(nat \<Rightarrow> time) \<Rightarrow> (nat \<Rightarrow> io) \<Rightarrow> RequestHeartbeatResponse \<Rightarrow> nat \<Rightarrow> string \<Rightarrow> Store \<Rightarrow> Store" where
  "replica_step now x resp j i s =
     (case GetReplicaByID i s of
        Inr (Some info) \<Rightarrow> snd (UpdateReplicaInfo (x j) i (observed (now j) (reported resp i) info) s)
      | _ \<Rightarrow> s)"

lemma update_replicas_step:
  "update_replicas now x resp (i # ids) j s = update_replicas now x resp ids (Suc j) (replica_step now x resp j i s)"
  by (simp add: replica_step_def)

declare update_replicas.simps(2) [simp del]

lemma UpdateReplicaInfo_cluster:
  assumes "cluster_inv s" "wf_ReplicaInfo r" "UpdateReplicaInfo x i r s = (e, s')"
  shows "cluster_inv s'" "node_at s' = node_at s" "model_at s' = model_at s"
    "replica_at s' = (if e = None then (replica_at s)(i \<mapsto> r\<lparr>r_ID := i\<rparr>) else replica_at s)"
proof -
  have "cluster_inv s' \<and> node_at s' = node_at s \<and> model_at s' = model_at s \<and>
      replica_at s' = (if e = None then (replica_at s)(i \<mapsto> r\<lparr>r_ID := i\<rparr>) else replica_at s)"
  proof (cases e)
    case None
    note u = UpdateReplicaInfo_registry [OF cluster_invD(1) [OF assms(1)] assms(2) assms(3) [unfolded None]]
    have "wf_ReplicaInfo (r\<lparr>r_ID := i\<rparr>)" using assms(2) by (simp add: wf_ReplicaInfo_def)
    with u assms(1) None show ?thesis by (auto simp: cluster_inv_def objects_wf_def)
  next
    case (Some err)
    then have f: "data s' = data s" "walFile s' = walFile s"
      using assms(3) UpdateReplicaInfo_error_frame by blast+
    with same_data_view [OF f(1)] cluster_inv_same_data [OF f] assms(1) Some show ?thesis by simp
  qed
  then show "cluster_inv s'" "node_at s' = node_at s" "model_at s' = model_at s"
    "replica_at s' = (if e = None then (replica_at s)(i \<mapsto> r\<lparr>r_ID := i\<rparr>) else replica_at s)" by blast+
qed

lemma UpdateReplicaInfo_succeeds:
  assumes "store_inv s" "i \<noteq> []" "r_ID r = i"
  shows "fst (UpdateReplicaInfo io_ok i r s) = None"
proof -
  obtain b where "marshal_ReplicaInfo (r\<lparr>r_ID := i\<rparr>) = Some b" using marshal_ReplicaInfo_total by blast
  with assms show ?thesis by (auto simp: UpdateReplicaInfo_def store_inv_def Put_put_ok)
qed

lemma replica_step_facts:
  assumes "cluster_inv s" "\<forall>j. in_int64 (now j)" "list_all (\<lambda>d. in_int32 (rd_ErrorCode d)) (hp_ModelReplicas resp)"
  shows "cluster_inv (replica_step now x resp j i s)" "node_at (replica_step now x resp j i s) = node_at s"
    "model_at (replica_step now x resp j i s) = model_at s"
    "x j = io_ok \<Longrightarrow> i \<noteq> [] \<Longrightarrow> replica_at (replica_step now x resp j i s) =
       (replica_at s)(i := map_option (observed (now j) (reported resp i)) (replica_at s i))"
    "k \<noteq> i \<Longrightarrow> replica_at (replica_step now x resp j i s) k = replica_at s k"
proof -
  note D = cluster_invD [OF assms(1)]
  let ?s = "replica_step now x resp j i s"
  have "cluster_inv ?s \<and> node_at ?s = node_at s \<and> model_at ?s = model_at s \<and>
    (x j = io_ok \<longrightarrow> i \<noteq> [] \<longrightarrow> replica_at ?s =
       (replica_at s)(i := map_option (observed (now j) (reported resp i)) (replica_at s i))) \<and>
    (k \<noteq> i \<longrightarrow> replica_at ?s k = replica_at s k)"
  proof (cases "i \<noteq> [] \<and> replica_at s i \<noteq> None")
    case False
    then have "?s = s" using GetReplicaByID_at [OF D(5), of i]
      by (auto simp: replica_step_def GetReplicaByID_def)
    with False assms(1) show ?thesis by (auto simp: fun_eq_iff)
  next
    case True
    then obtain r where r: "i \<noteq> []" "replica_at s i = Some r" by blast
    have id: "r_ID r = i" by (rule replica_at_ID [OF D(5) r(2)])
    let ?r = "observed (now j) (reported resp i) r"
    have st: "?s = snd (UpdateReplicaInfo (x j) i ?r s)"
      using r GetReplicaByID_at [OF D(5) r(1)] by (simp add: replica_step_def)
    obtain e s' where u: "UpdateReplicaInfo (x j) i ?r s = (e, s')" by fastforce
    note f = UpdateReplicaInfo_cluster [OF assms(1) wf_observed [OF D(8) [OF r(2)] spec [OF assms(2)] assms(3)] u]
    have "x j = io_ok \<Longrightarrow> e = None"
      using UpdateReplicaInfo_succeeds [OF D(2) r(1), of ?r] id u by simp
    with f u st r id show ?thesis by auto
  qed
  then show "cluster_inv ?s" "node_at ?s = node_at s" "model_at ?s = model_at s"
    "x j = io_ok \<Longrightarrow> i \<noteq> [] \<Longrightarrow> replica_at ?s =
       (replica_at s)(i := map_option (observed (now j) (reported resp i)) (replica_at s i))"
    "k \<noteq> i \<Longrightarrow> replica_at ?s k = replica_at s k" by blast+
qed

lemma update_replicas_inv:
  assumes "cluster_inv s" "\<forall>j. in_int64 (now j)" "list_all (\<lambda>d. in_int32 (rd_ErrorCode d)) (hp_ModelReplicas resp)"
  shows "cluster_inv (update_replicas now x resp ids j s) \<and>
    node_at (update_replicas now x resp ids j s) = node_at s \<and>
    model_at (update_replicas now x resp ids j s) = model_at s \<and>
    (k \<notin> set ids \<longrightarrow> replica_at (update_replicas now x resp ids j s) k = replica_at s k)"
  using assms(1)
proof (induction ids arbitrary: j s)
  case (Cons i ids)
  note f = replica_step_facts [OF Cons.prems assms(2,3)]
  from Cons.IH [OF f(1)] show ?case by (auto simp: update_replicas_step f)
qed simp

lemma update_replicas_at:
  assumes "cluster_inv s" "\<forall>j. in_int64 (now j)" "list_all (\<lambda>d. in_int32 (rd_ErrorCode d)) (hp_ModelReplicas resp)"
    and "\<forall>j. x j = io_ok" "k \<noteq> []" "k \<in> set ids" "replica_at s k = Some r"
  shows "\<exists>m. replica_at (update_replicas now x resp ids j s) k = Some (observed (now m) (reported resp k) r)"
  using assms(1,6,7)
proof (induction ids arbitrary: j s r)
  case (Cons i ids)
  note f = replica_step_facts [OF Cons.prems(1) assms(2,3), where x = x]
  show ?case
  proof (cases "k \<in> set ids")
    case True
    have "replica_at (replica_step now x resp j i s) k =
        (if k = i then Some (observed (now j) (reported resp k) r) else Some r)"
      using f(4) f(5) [of k] assms(4,5) Cons.prems(3) by auto
    with Cons.IH [OF f(1) True] show ?thesis unfolding update_replicas_step by (cases "k = i") fastforce+
  next
    case False
    with Cons.prems have k: "k = i" by simp
    have "replica_at (update_replicas now x resp ids (Suc j) (replica_step now x resp j i s)) k =
        replica_at (replica_step now x resp j i s) k"
      using update_replicas_inv [OF f(1) assms(2,3)] False by blast
    with k f(4) assms(4,5) Cons.prems(3) show ?thesis
      unfolding update_replicas_step by (intro exI [of _ j]) simp
  qed
qed simp


text \<open>The two outcomes for a node.\<close>

definition answers :: "hb_env \<Rightarrow> ServiceEndpoints list \<Rightarrow> NodeInfo \<Rightarrow> RequestHeartbeatResponse option" where
  "answers env eps n = (case CallHeartbeat (hb_rpc env) n eps of Inl e \<Rightarrow> None | Inr resp \<Rightarrow> Some resp)"

definition node_after :: "hb_env \<Rightarrow> ServiceEndpoints list \<Rightarrow> NodeInfo \<Rightarrow> NodeInfo" where
  "node_after env eps n =
     (if answers env eps n \<noteq> None then n
      else set_status (hb_status_now env (n_ID n))
             (if stale (hb_check_now env (n_ID n)) n then StatusOffline else StatusUnknown) n)"

lemma node_after_ID [simp]: "n_ID (node_after env eps n) = n_ID n"
  by (simp add: node_after_def)

lemma answers_codes:
  assumes "env_ok env" "answers env eps n = Some resp"
  shows "list_all (\<lambda>d. in_int32 (rd_ErrorCode d)) (hp_ModelReplicas resp)"
  using assms by (auto simp: env_ok_def answers_def CallHeartbeat_def split: sum.splits)

lemma UpdateNodeStatus_cluster:
  assumes "cluster_inv s" "in_int64 now" "node_at s i = Some n" "UpdateNodeStatus x now i st s = (e, s')"
  shows "cluster_inv s'" "replica_at s' = replica_at s" "model_at s' = model_at s"
    "node_at s' = (if e = None then (node_at s)(i \<mapsto> set_status now st n) else node_at s)"
proof -
  note D = cluster_invD [OF assms(1)]
  have id: "n_ID n = i" by (rule node_at_ID [OF D(4) assms(3)])
  have "cluster_inv s' \<and> replica_at s' = replica_at s \<and> model_at s' = model_at s \<and>
    node_at s' = (if e = None then (node_at s)(i \<mapsto> set_status now st n) else node_at s)"
  proof (cases e)
    case None
    from UpdateNodeStatus_None [OF assms(4) [unfolded None]] assms(3) obtain b where
      b: "marshal_NodeInfo (set_status now st n) = Some b" "s' = put_ok (node_prefix @ i) b s" "i \<noteq> []" by auto
    note p = node_put_registry [OF D(1) wf_set_status [OF assms(2) D(6) [OF assms(3)]] b(1), of i]
    have "objects_wf s'"
      using assms(1) b wf_set_status [OF assms(2) D(6) [OF assms(3)], of st] p(3,4) id
      by (auto simp: cluster_inv_def objects_wf_def)
    with p id b None show ?thesis by (simp add: cluster_inv_def)
  next
    case (Some err)
    then have f: "data s' = data s" "walFile s' = walFile s"
      using assms(4) UpdateNodeStatus_error_frame by blast+
    with same_data_view [OF f(1)] cluster_inv_same_data [OF f] assms(1) Some show ?thesis by simp
  qed
  then show "cluster_inv s'" "replica_at s' = replica_at s" "model_at s' = model_at s"
    "node_at s' = (if e = None then (node_at s)(i \<mapsto> set_status now st n) else node_at s)" by blast+
qed

lemma UpdateNodeStatus_succeeds:
  assumes "cluster_inv s" "node_at s i = Some n"
  shows "fst (UpdateNodeStatus io_ok now i st s) = None"
proof -
  note D = cluster_invD [OF assms(1)]
  from assms(2) D(9) have i: "i \<noteq> []" by auto
  from assms(2) obtain raw where raw: "Get (node_prefix @ i) s = Some raw" "unmarshal_NodeInfo raw = Some n"
    by (auto simp: node_at_def bind_eq_Some_conv)
  from D(7) [OF assms(2)] obtain b where "marshal_NodeInfo (set_status now st n) = Some b"
    by (metis marshal_set_status not_None_eq)
  with i raw D(2) show ?thesis
    by (simp add: UpdateNodeStatus_def getNodeRaw_def store_inv_def Put_put_ok)
qed

lemma heartbeat_node_facts:
  assumes "cluster_inv s" "env_ok env" "node_at s (n_ID n) = Some n"
  shows "cluster_inv (heartbeat_node env eps n s)" "model_at (heartbeat_node env eps n s) = model_at s"
    "i \<noteq> n_ID n \<Longrightarrow> node_at (heartbeat_node env eps n s) i = node_at s i"
    "env_io_ok env \<Longrightarrow> node_at (heartbeat_node env eps n s) = (node_at s)(n_ID n \<mapsto> node_after env eps n)"
    "answers env eps n = None \<or> k \<notin> set (n_AssignedModels n) \<Longrightarrow>
       replica_at (heartbeat_node env eps n s) k = replica_at s k"
proof -
  let ?s = "heartbeat_node env eps n s"
  have t: "in_int64 (hb_status_now env i)" "\<forall>j. in_int64 (hb_replica_now env i j)" for i
    using assms(2) by (simp_all add: env_ok_def)
  have "cluster_inv ?s \<and> model_at ?s = model_at s \<and> (i \<noteq> n_ID n \<longrightarrow> node_at ?s i = node_at s i) \<and>
    (env_io_ok env \<longrightarrow> node_at ?s = (node_at s)(n_ID n \<mapsto> node_after env eps n)) \<and>
    (answers env eps n = None \<or> k \<notin> set (n_AssignedModels n) \<longrightarrow> replica_at ?s k = replica_at s k)"
  proof (cases "answers env eps n")
    case None
    let ?st = "if stale (hb_check_now env (n_ID n)) n then StatusOffline else StatusUnknown"
    obtain e s' where u: "UpdateNodeStatus (hb_status_io env (n_ID n)) (hb_status_now env (n_ID n)) (n_ID n) ?st s = (e, s')"
      by fastforce
    have st: "?s = s'" using None u by (auto simp: heartbeat_node_def answers_def split: sum.splits if_splits)
    note f = UpdateNodeStatus_cluster [OF assms(1) t(1) assms(3) u]
    have "env_io_ok env \<Longrightarrow> e = None"
      using UpdateNodeStatus_succeeds [OF assms(1,3), of "hb_status_now env (n_ID n)" ?st] u
      by (simp add: env_io_ok_def)
    with f st None show ?thesis by (auto simp: node_after_def)
  next
    case (Some resp)
    have st: "?s = update_replicas (hb_replica_now env (n_ID n)) (hb_replica_io env (n_ID n)) resp (n_AssignedModels n) 0 s"
      using Some by (auto simp: heartbeat_node_def answers_def split: sum.splits)
    have na: "node_after env eps n = n" using Some by (simp add: node_after_def)
    note u = update_replicas_inv [OF assms(1) t(2) answers_codes [OF assms(2) Some]]
    have "node_at ?s = (node_at s)(n_ID n \<mapsto> n)"
      using u assms(3) unfolding st by (simp add: fun_upd_idem)
    with u Some show ?thesis unfolding st na by (auto simp: assms(3))
  qed
  then show "cluster_inv ?s" "model_at ?s = model_at s" "i \<noteq> n_ID n \<Longrightarrow> node_at ?s i = node_at s i"
    "env_io_ok env \<Longrightarrow> node_at ?s = (node_at s)(n_ID n \<mapsto> node_after env eps n)"
    "answers env eps n = None \<or> k \<notin> set (n_AssignedModels n) \<Longrightarrow> replica_at ?s k = replica_at s k"
    by blast+
qed

lemma heartbeat_node_replica:
  assumes "cluster_inv s" "env_ok env" "env_io_ok env" "answers env eps n = Some resp"
    and "k \<noteq> []" "k \<in> set (n_AssignedModels n)" "replica_at s k = Some r"
  shows "\<exists>t. replica_at (heartbeat_node env eps n s) k = Some (observed t (reported resp k) r)"
proof -
  have t: "\<forall>j. in_int64 (hb_replica_now env (n_ID n) j)" "\<forall>j. hb_replica_io env (n_ID n) j = io_ok"
    using assms(2,3) by (simp_all add: env_ok_def env_io_ok_def)
  have st: "heartbeat_node env eps n s =
      update_replicas (hb_replica_now env (n_ID n)) (hb_replica_io env (n_ID n)) resp (n_AssignedModels n) 0 s"
    using assms(4) by (auto simp: heartbeat_node_def answers_def split: sum.splits)
  show ?thesis
    using update_replicas_at [OF assms(1) t(1) answers_codes [OF assms(2,4)] t(2) assms(5-7)]
    unfolding st by blast
qed



subsection \<open>A whole round\<close>

definition listed :: "Store \<Rightarrow> NodeInfo list \<Rightarrow> bool" where
  "listed s ns \<longleftrightarrow> distinct (map n_ID ns) \<and> (\<forall>n \<in> set ns. node_at s (n_ID n) = Some n)"

lemma listedD:
  assumes "listed s (n # ns)"
  shows "node_at s (n_ID n) = Some n" "m \<in> set ns \<Longrightarrow> node_at s (n_ID m) = Some m"
    "m \<in> set ns \<Longrightarrow> n_ID m \<noteq> n_ID n"
  using assms unfolding listed_def by (simp, simp, metis distinct.simps(2) imageI list.set_map list.simps(9))

lemma listed_step:
  assumes "cluster_inv s" "env_ok env" "listed s (n # ns)"
  shows "listed (heartbeat_node env eps n s) ns"
proof -
  note n = listedD(1) [OF assms(3)]
  have "node_at (heartbeat_node env eps n s) (n_ID m) = Some m" if "m \<in> set ns" for m
  proof -
    have "node_at (heartbeat_node env eps n s) (n_ID m) = node_at s (n_ID m)"
      by (rule heartbeat_node_facts(3) [OF assms(1,2) n listedD(3) [OF assms(3) that]])
    then show ?thesis unfolding listedD(2) [OF assms(3) that] .
  qed
  with assms(3) show ?thesis by (simp add: listed_def)
qed

lemma heartbeat_nodes_inv:
  assumes "cluster_inv s" "env_ok env" "listed s ns"
  shows "cluster_inv (heartbeat_nodes env eps ns s) \<and> model_at (heartbeat_nodes env eps ns s) = model_at s"
  using assms(1,3)
proof (induction ns arbitrary: s)
  case (Cons n ns)
  then have n: "node_at s (n_ID n) = Some n" by (simp add: listed_def)
  note f = heartbeat_node_facts(1,2) [OF Cons.prems(1) assms(2) n]
  from Cons.IH [OF f(1) listed_step [OF Cons.prems(1) assms(2) Cons.prems(2)]] f(2) show ?case by simp
qed simp

lemma heartbeat_nodes_at:
  assumes "cluster_inv s" "env_ok env" "env_io_ok env" "listed s ns"
  shows "node_at (heartbeat_nodes env eps ns s) i =
    (case List.find (\<lambda>n. n_ID n = i) ns of Some n \<Rightarrow> Some (node_after env eps n) | None \<Rightarrow> node_at s i)"
  using assms(1,4)
proof (induction ns arbitrary: s)
  case (Cons n ns)
  then have n: "node_at s (n_ID n) = Some n" by (simp add: listed_def)
  note f = heartbeat_node_facts(1,4) [OF Cons.prems(1) assms(2) n]
  have "List.find (\<lambda>m. n_ID m = i) ns = None" if "n_ID n = i"
    using listedD(3) [OF Cons.prems(2)] that by (simp add: find_None_all)
  with Cons.IH [OF f(1) listed_step [OF Cons.prems(1) assms(2) Cons.prems(2)]] show ?case
    by (cases "n_ID n = i") (simp_all add: f(2) [OF assms(3)] split: option.split)
qed simp

lemma heartbeat_nodes_replica_frame:
  assumes "cluster_inv s" "env_ok env" "listed s ns"
    and "\<And>n. n \<in> set ns \<Longrightarrow> answers env eps n = None \<or> k \<notin> set (n_AssignedModels n)"
  shows "replica_at (heartbeat_nodes env eps ns s) k = replica_at s k"
  using assms(1,3,4)
proof (induction ns arbitrary: s)
  case (Cons n ns)
  then have n: "node_at s (n_ID n) = Some n" by (simp add: listed_def)
  note f = heartbeat_node_facts(1,5) [OF Cons.prems(1) assms(2) n]
  from Cons.IH [OF f(1) listed_step [OF Cons.prems(1) assms(2) Cons.prems(2)]] Cons.prems(3) f(2) show ?case by simp
qed simp

lemma heartbeat_nodes_replica:
  assumes "cluster_inv s" "env_ok env" "env_io_ok env" "listed s ns"
    and "n \<in> set ns" "answers env eps n = Some resp" "k \<noteq> []" "k \<in> set (n_AssignedModels n)" "replica_at s k = Some r"
    and "\<And>n'. n' \<in> set ns \<Longrightarrow> n' \<noteq> n \<Longrightarrow> k \<notin> set (n_AssignedModels n')"
  shows "\<exists>t. replica_at (heartbeat_nodes env eps ns s) k = Some (observed t (reported resp k) r)"
  using assms(1,4,5,9,10)
proof (induction ns arbitrary: s)
  case (Cons m ns)
  then have m: "node_at s (n_ID m) = Some m" by (simp add: listed_def)
  note f = heartbeat_node_facts(1,5) [OF Cons.prems(1) assms(2) m]
  note l = listed_step [OF Cons.prems(1) assms(2) Cons.prems(2), of eps]
  show ?case
  proof (cases "m = n")
    case True
    then have "n \<notin> set ns" using Cons.prems(2) by (auto simp: listed_def)
    then have "replica_at (heartbeat_nodes env eps ns (heartbeat_node env eps m s)) k = replica_at (heartbeat_node env eps m s) k"
      using Cons.prems(5) by (intro heartbeat_nodes_replica_frame [OF f(1) assms(2) l]) auto
    with True heartbeat_node_replica [OF Cons.prems(1) assms(2,3,6,7,8) Cons.prems(4)] show ?thesis by simp
  next
    case False
    then have "replica_at (heartbeat_node env eps m s) k = Some r"
      using f(2) [of eps k] Cons.prems(4,5) by simp
    with Cons.IH [OF f(1) l] False Cons.prems(3,5) show ?thesis by auto
  qed
qed simp

definition contacted :: "Store \<Rightarrow> NodeInfo \<Rightarrow> bool" where
  "contacted s n \<longleftrightarrow> node_at s (n_ID n) = Some n \<and> n_Status n \<in> {StatusOnline, StatusUnknown}"

lemma HandleHeartbeat_nodes:
  assumes "cluster_inv s" "env_ok env"
  obtains ns where "HandleHeartbeat env s = (None, heartbeat_nodes env (round_endpoints env s) ns s)"
    "listed s ns" "\<And>n. n \<in> set ns \<longleftrightarrow> contacted s n"
proof -
  note D = cluster_invD [OF assms(1)]
  have o: "is_order (hb_ord_nodes env)" using assms(2) by (simp add: env_ok_def)
  obtain ns where ns: "ListNodesByStatuses (hb_ord_nodes env) [StatusOnline, StatusUnknown] s = Inr ns"
    "distinct (map n_ID ns)" "\<And>n. n \<in> set ns \<longleftrightarrow> node_at s (n_ID n) = Some n \<and> n_Status n \<in> set [StatusOnline, StatusUnknown]"
    by (rule ListNodesByStatuses_total [OF D(2,4) o]) blast
  then have "HandleHeartbeat env s = (None, heartbeat_nodes env (round_endpoints env s) ns s)"
    by (simp add: HandleHeartbeat_def)
  then show thesis by (rule that) (auto simp: listed_def contacted_def ns(2,3))
qed

text \<open>
  What a round does to the nodes. On a well-formed registry a round always completes. If
  no write of the store fails, a node that is neither online nor unknown keeps its entry,
  and so does one that answers; a node that does not answer becomes offline when its last
  heartbeat lies more than 40 seconds back and unknown otherwise, and in both cases the
  time of its last heartbeat is set to the current time. Models are never touched, and the
  registry stays well formed even when writes fail.
\<close>

lemma HandleHeartbeat_effect:
  assumes "cluster_inv s" and "env_ok env"
  shows "fst (HandleHeartbeat env s) = None \<and> cluster_inv (snd (HandleHeartbeat env s)) \<and>
    model_at (snd (HandleHeartbeat env s)) = model_at s \<and>
    (env_io_ok env \<longrightarrow> (\<forall>i. node_at (snd (HandleHeartbeat env s)) i =
       (case node_at s i of
          None \<Rightarrow> None
        | Some n \<Rightarrow>
            Some (if n_Status n \<in> {StatusOnline, StatusUnknown} then node_after env (round_endpoints env s) n else n))))"
proof -
  obtain ns where ns: "HandleHeartbeat env s = (None, heartbeat_nodes env (round_endpoints env s) ns s)"
    "listed s ns" "\<And>n. n \<in> set ns \<longleftrightarrow> contacted s n"
    by (rule HandleHeartbeat_nodes [OF assms]) blast
  have find: "List.find (\<lambda>n. n_ID n = i) ns =
      (case node_at s i of None \<Rightarrow> None | Some n \<Rightarrow> if n_Status n \<in> {StatusOnline, StatusUnknown} then Some n else None)" for i
  proof (cases "List.find (\<lambda>n. n_ID n = i) ns")
    case None
    then show ?thesis using ns(3) node_at_ID [OF cluster_invD(4) [OF assms(1)], of i]
      by (auto simp: find_None_all contacted_def split: option.splits)
  next
    case (Some n)
    then show ?thesis using find_Some_in [OF Some] ns(3) by (auto simp: contacted_def)
  qed
  have "node_at (heartbeat_nodes env (round_endpoints env s) ns s) i =
       (case node_at s i of None \<Rightarrow> None
        | Some n \<Rightarrow> Some (if n_Status n \<in> {StatusOnline, StatusUnknown} then node_after env (round_endpoints env s) n else n))"
    if "env_io_ok env" for i
    unfolding heartbeat_nodes_at [OF assms that ns(2)] find by (simp split: option.splits)
  with heartbeat_nodes_inv [OF assms ns(2)] show ?thesis unfolding ns(1) by simp
qed

text \<open>
  C17. What a round does to the replicas. Take a stored replica. If no contacted node that
  answers has it assigned, its record does not change. If exactly one contacted node has it
  assigned and that node answers, and no write fails, its record afterwards holds what the
  answer says about it: the reported status, error code and message when the answer lists
  the replica (a status text the code does not know counts as unknown), status unknown when
  it does not, and a fresh heartbeat time in both cases.
\<close>

theorem heartbeat_round_replicas:
  assumes "cluster_inv s" and "env_ok env" and "k \<noteq> []" and "replica_at s k = Some r"
  shows "((\<forall>n. contacted s n \<longrightarrow> answers env (round_endpoints env s) n = None \<or> k \<notin> set (n_AssignedModels n)) \<longrightarrow>
      replica_at (snd (HandleHeartbeat env s)) k = Some r) \<and>
    (\<forall>n resp. env_io_ok env \<and> contacted s n \<and> answers env (round_endpoints env s) n = Some resp \<and>
        k \<in> set (n_AssignedModels n) \<and>
        (\<forall>n'. contacted s n' \<longrightarrow> n' \<noteq> n \<longrightarrow> k \<notin> set (n_AssignedModels n')) \<longrightarrow>
      (\<exists>t. replica_at (snd (HandleHeartbeat env s)) k =
         Some (case List.find (\<lambda>d. rd_ReplicaId d = k) (hp_ModelReplicas resp) of
                 Some d \<Rightarrow> r\<lparr>r_Status := convertStringToReplicaStatus (rd_Status d), r_ErrorCode := rd_ErrorCode d,
                              r_ErrorMessage := rd_ErrorMessage d, r_LastHeartbeat := t\<rparr>
               | None \<Rightarrow> r\<lparr>r_Status := ModelReplicaStatusUnknown, r_LastHeartbeat := t\<rparr>)))"
proof -
  obtain ns where ns: "HandleHeartbeat env s = (None, heartbeat_nodes env (round_endpoints env s) ns s)"
    "listed s ns" "\<And>n. n \<in> set ns \<longleftrightarrow> contacted s n"
    by (rule HandleHeartbeat_nodes [OF assms(1,2)]) blast
  note frame = heartbeat_nodes_replica_frame [OF assms(1,2) ns(2)]
    and upd = heartbeat_nodes_replica [OF assms(1,2) _ ns(2) _ _ assms(3) _ assms(4)]
  show ?thesis using frame [of "round_endpoints env s" k] upd [of _ "round_endpoints env s"] assms(4)
    unfolding ns(1) observed_def reported_def by (auto simp: ns(3))
qed



subsection \<open>A silent node\<close>

text \<open>
  The rounds in which node \<open>i\<close> is asked come at most 40 seconds after the one before, and
  after its last heartbeat at the start; no round gets an answer from its address.
\<close>

fun steady :: "time \<Rightarrow> string \<Rightarrow> hb_env list \<Rightarrow> bool" where
  "steady t0 i [] = True"
| "steady t0 i (env # envs) = (hb_check_now env i \<le> t0 + 40 * Second \<and> steady (hb_status_now env i) i envs)"

definition silent :: "string \<Rightarrow> hb_env \<Rightarrow> bool" where
  "silent addr env \<longleftrightarrow> (\<forall>q. \<exists>e. hb_rpc env addr q = Inl e)"

lemma silent_round:
  assumes "cluster_inv s" "env_ok env" "env_io_ok env" "node_at s i = Some n"
    and "n_Status n \<in> {StatusOnline, StatusUnknown}" "silent (n_IP n @ '':'' @ Itoa (n_Port n)) env"
    and "hb_check_now env i \<le> n_LastHeartbeat n + 40 * Second"
  shows "node_at (snd (HandleHeartbeat env s)) i = Some (set_status (hb_status_now env i) StatusUnknown n)"
proof -
  have id: "n_ID n = i" by (rule node_at_ID [OF cluster_invD(4) [OF assms(1)] assms(4)])
  have "\<exists>e. CallHeartbeat (hb_rpc env) n (round_endpoints env s) = Inl e"
    using assms(6) by (simp add: CallHeartbeat_def silent_def)
  then have "answers env (round_endpoints env s) n = None" by (auto simp: answers_def)
  moreover have "\<not> stale (hb_check_now env i) n" using assms(7) by (simp add: stale_def)
  ultimately have "node_after env (round_endpoints env s) n = set_status (hb_status_now env i) StatusUnknown n"
    by (simp add: node_after_def id)
  with HandleHeartbeat_effect [OF assms(1,2)] assms(3,4,5) show ?thesis by auto
qed

text \<open>
  C16. A node that has stopped answering is not taken offline. However many rounds pass
  without an answer, as long as no two of them are more than 40 seconds apart (the default
  interval is 10 seconds), the node is unknown after every round: each failed round also
  resets the time that the 40-second limit is measured from.
\<close>

theorem silent_node_never_offline:
  assumes "cluster_inv s" and "list_all (\<lambda>env. env_ok env \<and> env_io_ok env) (env # envs)"
    and "node_at s i = Some n" and "n_Status n \<in> {StatusOnline, StatusUnknown}"
    and "list_all (silent (n_IP n @ '':'' @ Itoa (n_Port n))) (env # envs)"
    and "steady (n_LastHeartbeat n) i (env # envs)"
  shows "map_option n_Status (node_at (StartHeartbeatHandler (env # envs) s) i) = Some StatusUnknown"
  using assms
proof (induction envs arbitrary: env s n)
  case Nil
  then show ?case using silent_round [of s env i n] by simp
next
  case (Cons env' envs)
  have r: "node_at (snd (HandleHeartbeat env s)) i = Some (set_status (hb_status_now env i) StatusUnknown n)"
    using Cons.prems by (intro silent_round) simp_all
  have inv: "cluster_inv (snd (HandleHeartbeat env s))"
    using HandleHeartbeat_effect [of s env] Cons.prems by simp
  show ?case using Cons.IH [OF inv _ r] Cons.prems by simp
qed

subsection \<open>Endpoints\<close>

lemma eps_of_update:
  "eps_of (AList.update k v m) k' = (if k' = k then v else eps_of m k')"
  by (simp add: eps_of_def store_simps)

definition running_here :: "Store \<Rightarrow> string list \<Rightarrow> string \<Rightarrow> ReplicaInfo set" where
  "running_here s ids k = {r. \<exists>i \<in> set ids. i \<noteq> [] \<and> replica_at s i = Some r \<and>
     r_Status r = ModelReplicaStatusRunning \<and> r_ModelID r = k}"

lemma running_here_Cons:
  "running_here s (i # ids) k = (case replica_at s i of
     Some r \<Rightarrow> if i \<noteq> [] \<and> r_Status r = ModelReplicaStatusRunning \<and> r_ModelID r = k then insert r (running_here s ids k)
               else running_here s ids k
   | None \<Rightarrow> running_here s ids k)"
  by (auto simp: running_here_def split: option.splits)

lemma node_endpoints_set:
  assumes "replica_rows_ok s"
  shows "set (eps_of (node_endpoints node ids s m) k) = set (eps_of m k) \<union> endpoint_of node ` running_here s ids k"
proof (induction ids arbitrary: m)
  case Nil
  show ?case by (simp add: running_here_def)
next
  case (Cons i ids)
  show ?case
  proof (cases "i \<noteq> [] \<and> replica_at s i \<noteq> None")
    case True
    then obtain r where "i \<noteq> []" "replica_at s i = Some r" by blast
    with GetReplicaByID_at [OF assms, of i] Cons.IH show ?thesis
      by (simp add: running_here_Cons eps_of_update)
  next
    case False
    then have "GetReplicaByID i s = Inr None \<or> (\<exists>e. GetReplicaByID i s = Inl e)"
      using GetReplicaByID_at [OF assms, of i] by (cases "i = []") (auto simp: GetReplicaByID_def)
    moreover have "running_here s (i # ids) k = running_here s ids k"
      using False by (auto simp: running_here_Cons split: option.splits)
    ultimately show ?thesis using Cons.IH by (elim disjE exE) (simp_all del: node_endpoints.simps(1))
  qed
qed

lemma node_endpoints_keys:
  assumes "distinct (map fst m)" "\<And>k. k \<in> set (map fst m) \<Longrightarrow> eps_of m k \<noteq> []"
  shows "distinct (map fst (node_endpoints node ids s m)) \<and>
    (\<forall>k \<in> set (map fst (node_endpoints node ids s m)). eps_of (node_endpoints node ids s m) k \<noteq> [])"
  using assms
proof (induction ids arbitrary: m)
  case (Cons i ids)
  have "distinct (map fst (AList.update k v m))" for k v using Cons.prems(1) by (simp add: distinct_update)
  moreover have "eps_of (AList.update k (v @ [e]) m) k' \<noteq> []" if "k' \<in> set (map fst (AList.update k (v @ [e]) m))" for k v e k'
    using that Cons.prems(2) by (auto simp: eps_of_update dom_update)
  ultimately show ?case using Cons
    by (simp split: sum.splits option.splits)
qed simp

lemma all_endpoints_set:
  assumes "replica_rows_ok s"
  shows "set (eps_of (all_endpoints nodes s m) k) =
    set (eps_of m k) \<union> (\<Union>node \<in> set nodes. endpoint_of node ` running_here s (n_AssignedModels node) k)"
  by (induction nodes arbitrary: m) (auto simp: node_endpoints_set [OF assms])

lemma all_endpoints_keys:
  assumes "distinct (map fst m)" "\<forall>k \<in> set (map fst m). eps_of m k \<noteq> []"
  shows "distinct (map fst (all_endpoints nodes s m)) \<and>
    (\<forall>k \<in> set (map fst (all_endpoints nodes s m)). eps_of (all_endpoints nodes s m) k \<noteq> [])"
  using assms
proof (induction nodes arbitrary: m)
  case (Cons node nodes)
  from node_endpoints_keys [of m node "n_AssignedModels node" s] Cons.prems
  show ?case by (simp add: Cons.IH)
qed simp

lemma eps_of_key: "eps_of m k \<noteq> [] \<Longrightarrow> k \<in> set (map fst m)"
  by (auto simp: eps_of_def in_keys_map_of split: option.splits simp del: set_map)

text \<open>
  The endpoint table sent with a heartbeat. On a well-formed registry it has one entry per
  model, none of them empty, and an endpoint is in the entry of a model exactly when some
  online node has a replica assigned that is stored as a running replica of that model; the
  endpoint carries the node's address and, as weight, the sum of the node's TOPS.
\<close>

lemma service_endpoints_exact:
  assumes "cluster_inv s" and "is_order ord" and "is_order ordm"
  shows "distinct (map se_ModelId (buildServiceEndpoints ord ordm s)) \<and>
    (\<forall>e \<in> set (buildServiceEndpoints ord ordm s). se_Endpoints e \<noteq> []) \<and>
    (\<forall>k ep. (\<exists>e \<in> set (buildServiceEndpoints ord ordm s). se_ModelId e = k \<and> ep \<in> set (se_Endpoints e)) \<longleftrightarrow>
       (\<exists>node r. node_at s (n_ID node) = Some node \<and> n_Status node = StatusOnline \<and>
          r \<in> running_here s (n_AssignedModels node) k \<and> ep = endpoint_of node r))"
proof -
  note D = cluster_invD [OF assms(1)]
  obtain ns where ns: "ListNodesByStatuses ord [StatusOnline] s = Inr ns" "distinct (map n_ID ns)"
    "\<And>n. n \<in> set ns \<longleftrightarrow> node_at s (n_ID n) = Some n \<and> n_Status n \<in> set [StatusOnline]"
    by (rule ListNodesByStatuses_total [OF D(2,4) assms(2)]) blast
  let ?m = "all_endpoints ns s []" and ?b = "buildServiceEndpoints ord ordm s"
  have b: "?b = map (\<lambda>k. \<lparr>se_ModelId = k, se_Endpoints = eps_of ?m k\<rparr>) (ordm (map fst ?m))"
    using ns(1) by (simp add: buildServiceEndpoints_def Let_def)
  have keys: "distinct (map fst ?m)" "\<forall>k \<in> set (map fst ?m). eps_of ?m k \<noteq> []"
    using all_endpoints_keys [of "[]" ns s] by simp_all
  have "distinct (map se_ModelId ?b)"
    using keys(1) is_order_distinct [OF assms(3), of "map fst ?m"] by (simp add: b comp_def)
  moreover have "\<forall>e \<in> set ?b. se_Endpoints e \<noteq> []"
    using keys(2) is_order_set [OF assms(3), of "map fst ?m"] by (auto simp: b)
  moreover have "(\<exists>e \<in> set ?b. se_ModelId e = k \<and> ep \<in> set (se_Endpoints e)) \<longleftrightarrow> ep \<in> set (eps_of ?m k)" for k ep
  proof -
    have "ep \<in> set (eps_of ?m k) \<Longrightarrow> k \<in> set (ordm (map fst ?m))"
      using is_order_set [OF assms(3), of "map fst ?m"] eps_of_key [of ?m k] by (metis empty_iff list.set(1))
    then show ?thesis by (auto simp: b)
  qed
  moreover have "ep \<in> set (eps_of ?m k) \<longleftrightarrow> (\<exists>node r. node_at s (n_ID node) = Some node \<and> n_Status node = StatusOnline \<and>
      r \<in> running_here s (n_AssignedModels node) k \<and> ep = endpoint_of node r)" for k ep
    unfolding all_endpoints_set [OF D(5)] using ns(3) by (auto simp: eps_of_def)
  ultimately show ?thesis by simp
qed




subsection \<open>Witnesses\<close>

text \<open>A registry with one model, one running replica and one online node, and an agent that is down.\<close>

definition demo_node :: NodeInfo where
  "demo_node = zero_NodeInfo\<lparr>n_IP := ''10.0.0.7'', n_Port := 50052, n_Status := StatusOnline,
     n_AssignedModels := [''r1''], n_LastHeartbeat := 100 * Second\<rparr>"

definition demo_store3 :: Store where
  "demo_store3 = snd (RegisterNode io_ok (90 * Second) ''n1'' demo_node demo_store2)"

definition demo_env :: "time \<Rightarrow> (string \<Rightarrow> RequestHeartbeatRequest \<Rightarrow> RequestHeartbeatResponse result) \<Rightarrow> hb_env" where
  "demo_env t rpc = \<lparr>hb_rpc = rpc, hb_check_now = (\<lambda>i. t), hb_status_now = (\<lambda>i. t),
     hb_replica_now = (\<lambda>i j. t), hb_status_io = (\<lambda>i. io_ok), hb_replica_io = (\<lambda>i j. io_ok),
     hb_ord_build = rev, hb_ord_models = rev, hb_ord_nodes = rev\<rparr>"

definition down :: "string \<Rightarrow> RequestHeartbeatRequest \<Rightarrow> RequestHeartbeatResponse result" where
  "down addr q = Inl ''connection refused''"

definition up :: "string \<Rightarrow> RequestHeartbeatRequest \<Rightarrow> RequestHeartbeatResponse result" where
  "up addr q = Inr \<lparr>hp_NodeID = hr_NodeID q, hp_ModelReplicas = [], hp_Success = True\<rparr>"

lemma demo_node_wf: "wf_NodeInfo demo_node" "marshal_NodeInfo demo_node \<noteq> None"
  unfolding marshal_NodeInfo_None
  by (simp_all add: demo_node_def zero_NodeInfo_def wf_NodeInfo_def wf_ResourceCapabilities_def
      zero_ResourceCapabilities_def wf_MemoryInfo_def zero_MemoryInfo_def wf_StorageInfo_def
      zero_StorageInfo_def in_int64_def zero_time_def Second_def)

lemma demo_store3_facts:
  "cluster_inv demo_store3" "replica_at demo_store3 = replica_at demo_store2"
  "node_at demo_store3 = (node_at empty_store)(''n1'' \<mapsto> stamp (90 * Second) ''n1'' demo_node)"
proof -
  have inv: "store_inv demo_store2" using demo_store2_facts(1) by (simp add: registry_inv_def)
  obtain b where b: "marshal_NodeInfo (stamp (90 * Second) ''n1'' demo_node) = Some b"
    "RegisterNode io_ok (90 * Second) ''n1'' demo_node demo_store2 = (None, put_ok (node_prefix @ ''n1'') b demo_store2)"
    by (rule RegisterNode_ok [OF inv _ demo_node_wf(2), of "''n1''" "90 * Second"]) simp
  have wf: "wf_NodeInfo (stamp (90 * Second) ''n1'' demo_node)"
    using demo_node_wf(1) by (intro wf_stamp) (simp_all add: in_int64_def Second_def)
  have id: "n_ID (stamp (90 * Second) ''n1'' demo_node) = ''n1''" by (simp add: demo_node_def zero_NodeInfo_def)
  note p = node_put_registry [OF demo_store2_facts(1) wf b(1) id]
  have s: "demo_store3 = put_ok (node_prefix @ ''n1'') b demo_store2" by (simp add: demo_store3_def b(2))
  show n: "node_at demo_store3 = (node_at empty_store)(''n1'' \<mapsto> stamp (90 * Second) ''n1'' demo_node)"
    unfolding s p(3) by (simp add: demo_store2_facts demo_store1_facts)
  show r: "replica_at demo_store3 = replica_at demo_store2" unfolding s by (rule p(4))
  have "wf_ReplicaInfo (demo_replica\<lparr>r_ID := ''r1''\<rparr>)"
    using demo_replica_wf by (simp add: wf_ReplicaInfo_def)
  then have "objects_wf demo_store3"
    using wf b(1) by (auto simp: objects_wf_def n r demo_store2_facts demo_store1_facts split: if_splits)
  then show "cluster_inv demo_store3" using p(1) by (simp add: cluster_inv_def s)
qed

lemma demo_env_ok: "env_ok (demo_env t rpc)" "env_io_ok (demo_env t rpc)"
  if "in_int64 t" "rpc = up \<or> rpc = down"
  using that by (auto simp: env_ok_def env_io_ok_def demo_env_def up_def down_def order_simps)

lemma demo_contacted: "contacted demo_store3 n \<longleftrightarrow> n = stamp (90 * Second) ''n1'' demo_node"
  by (auto simp: contacted_def demo_store3_facts demo_node_def zero_NodeInfo_def split: if_splits)

theorem silent_node_never_offline_witness:
  "map_option n_Status (node_at (StartHeartbeatHandler (map (\<lambda>t. demo_env (t * Second) down) [110, 120, 130, 140, 150, 160]) demo_store3) ''n1'')
     = Some StatusUnknown"
proof -
  let ?n = "stamp (90 * Second) ''n1'' demo_node"
  have n: "node_at demo_store3 ''n1'' = Some ?n" by (simp add: demo_store3_facts)
  have st: "n_Status ?n \<in> {StatusOnline, StatusUnknown}" by (simp add: demo_node_def)
  have t: "in_int64 (t * Second)" if "t \<in> {110, 120, 130, 140, 150, 160}" for t
    using that by (auto simp: in_int64_def Second_def)
  show ?thesis
    using silent_node_never_offline [OF demo_store3_facts(1) _ n st,
        where env = "demo_env (110 * Second) down" and envs = "map (\<lambda>t. demo_env (t * Second) down) [120, 130, 140, 150, 160]"]
      demo_env_ok t
    by (simp add: silent_def down_def) (simp add: demo_env_def demo_node_def Second_def down_def)
qed

theorem heartbeat_round_replicas_witness:
  "replica_at demo_store3 ''r1'' \<noteq> None \<and>
   map_option r_Status (replica_at (snd (HandleHeartbeat (demo_env (150 * Second) up) demo_store3)) ''r1'') = Some ModelReplicaStatusUnknown"
proof -
  let ?env = "demo_env (150 * Second) up" and ?n = "stamp (90 * Second) ''n1'' demo_node"
  have e: "env_ok ?env" "env_io_ok ?env" by (rule demo_env_ok; simp add: in_int64_def Second_def)+
  have r: "replica_at demo_store3 ''r1'' = Some (demo_replica\<lparr>r_ID := ''r1''\<rparr>)"
    by (simp add: demo_store3_facts demo_store2_facts)
  obtain resp where a: "answers ?env (round_endpoints ?env demo_store3) ?n = Some resp" "hp_ModelReplicas resp = []"
    by (auto simp: answers_def CallHeartbeat_def demo_env_def up_def)
  have k: "''r1'' \<in> set (n_AssignedModels ?n)" by (simp add: demo_node_def)
  have rep: "reported resp ''r1'' = None" using a(2) by (simp add: reported_def)
  from heartbeat_round_replicas [OF demo_store3_facts(1) e(1) _ r] e(2) a(1) k rep [unfolded reported_def] show ?thesis
    by (auto simp: demo_contacted r)
qed

end
