(* ===== verification/Grpc_Model_Registry.thy ===== *)
theory Grpc_Model_Registry
  imports Heartbeat_Controller
begin

section \<open>The model registry service\<close>

text \<open>
  Models \<open>internal/control-plane/api/grpc/registry/model_registry.go\<close>: the handlers of the
  \<open>ModelRegistryAPI\<close> and the conversions between messages and stored objects. A handler
  takes the request (\<open>None\<close> for a nil pointer) and the store and returns the reply and the
  store; \<open>uuid\<close> is the identifier that \<open>uuid.New()\<close> returns. The status code of some errors
  is chosen by a search in the error text.
\<close>

definition protoToStoreModelInfo :: "ProtoModelInfo \<Rightarrow> ModelInfo" where
  "protoToStoreModelInfo p =
     (let info = zero_ModelInfo\<lparr>m_ID := pm_Id p, m_Name := pm_Name p, m_Namespace := pm_Namespace p,
            m_Version := pm_Version p, m_FilePath := pm_FilePath p, m_ModelType := pm_ModelType p,
            m_ModelSize := pm_ModelSize p, m_Replicas := pm_Replicas p\<rparr>
      in if pm_InputFormat p \<noteq> [] then info\<lparr>m_InputFormat := pm_InputFormat p\<rparr> else info)"

definition updateRequestToStoreModelInfo :: "UpdateModelRequest \<Rightarrow> ModelInfo" where
  "updateRequestToStoreModelInfo p =
     (let info = zero_ModelInfo\<lparr>m_ID := um_Id p, m_Name := um_Name p, m_Namespace := um_Namespace p,
            m_Version := um_Version p, m_FilePath := um_FilePath p, m_ModelType := um_ModelType p,
            m_ModelSize := um_ModelSize p, m_Replicas := um_Replicas p\<rparr>
      in if um_InputFormat p \<noteq> [] then info\<lparr>m_InputFormat := um_InputFormat p\<rparr> else info)"

definition storeModelInfoToProto :: "ModelInfo \<Rightarrow> ProtoModelInfo" where
  "storeModelInfoToProto info =
     \<lparr>pm_Id = m_ID info, pm_Name = m_Name info, pm_Version = m_Version info, pm_FilePath = m_FilePath info,
      pm_ModelType = m_ModelType info, pm_ModelSize = m_ModelSize info, pm_Replicas = to_int32 (m_Replicas info),
      pm_InputFormat = m_InputFormat info, pm_Namespace = m_Namespace info\<rparr>"

definition srv_RegisterModel ::
    "io \<Rightarrow> (string list \<Rightarrow> string list) \<Rightarrow> string \<Rightarrow> ProtoModelInfo option \<Rightarrow> Store \<Rightarrow> bool reply \<times> Store" where
  "srv_RegisterModel x ord uuid req s =
     (case req of
        None \<Rightarrow> (err_reply InvalidArgument ''request cannot be nil'', s)
      | Some p \<Rightarrow>
          if pm_Name p = [] then (err_reply InvalidArgument ''model name cannot be empty'', s)
          else
            (let modelInfo = (protoToStoreModelInfo p)\<lparr>m_ID := uuid\<rparr> in
             case RegisterModel x ord uuid modelInfo s of
               (Some e, s') \<Rightarrow>
                 (if Contains e ''already registered'' then err_reply AlreadyExists e else err_reply Internal e, s')
             | (None, s') \<Rightarrow> (ok_reply True, s')))"

definition srv_DeRegisterModel :: "io \<Rightarrow> string option \<Rightarrow> Store \<Rightarrow> bool reply \<times> Store" where
  "srv_DeRegisterModel x req s =
     (case req of
        None \<Rightarrow> (err_reply InvalidArgument ''model ID cannot be empty'', s)
      | Some i \<Rightarrow>
          if i = [] then (err_reply InvalidArgument ''model ID cannot be empty'', s)
          else (case DeRegisterModel x i s of
                  (Some e, s') \<Rightarrow> ((Some False, Some (Internal, e)), s')
                | (None, s') \<Rightarrow> (ok_reply True, s')))"

definition srv_UpdateModel :: "io \<Rightarrow> UpdateModelRequest option \<Rightarrow> Store \<Rightarrow> bool reply \<times> Store" where
  "srv_UpdateModel x req s =
     (case req of
        None \<Rightarrow> (err_reply InvalidArgument ''model ID cannot be empty'', s)
      | Some p \<Rightarrow>
          if um_Id p = [] then (err_reply InvalidArgument ''model ID cannot be empty'', s)
          else (case UpdateModelInfo x (um_Id p) (updateRequestToStoreModelInfo p) s of
                  (Some e, s') \<Rightarrow> ((Some False, Some (Internal, e)), s')
                | (None, s') \<Rightarrow> (ok_reply True, s')))"

definition srv_GetModel :: "string option \<Rightarrow> Store \<Rightarrow> ProtoModelInfo reply" where
  "srv_GetModel req s =
     (case req of
        None \<Rightarrow> err_reply InvalidArgument ''model ID cannot be empty''
      | Some i \<Rightarrow>
          if i = [] then err_reply InvalidArgument ''model ID cannot be empty''
          else (case GetModelByID i s of
                  Inl e \<Rightarrow> err_reply Internal e
                | Inr None \<Rightarrow> err_reply NotFound ''model not found''
                | Inr (Some info) \<Rightarrow> ok_reply (storeModelInfoToProto info)))"

definition srv_ListModels :: "(string list \<Rightarrow> string list) \<Rightarrow> Store \<Rightarrow> ProtoModelInfo list reply" where
  "srv_ListModels ord s =
     (case ListModels ord s of
        Inl e \<Rightarrow> err_reply Internal e
      | Inr models \<Rightarrow> ok_reply (map storeModelInfoToProto models))"

definition srv_GetModelStatus ::
    "(string list \<Rightarrow> string list) \<Rightarrow> ModelName option \<Rightarrow> Store \<Rightarrow> ModelStatusResponse reply" where
  "srv_GetModelStatus ord req s =
     (case req of
        None \<Rightarrow> err_reply InvalidArgument ''model name and namespace cannot be empty''
      | Some p \<Rightarrow>
          if mn_Name p = [] \<or> mn_Namespace p = []
          then err_reply InvalidArgument ''model name and namespace cannot be empty''
          else
            (case GetModelStatus ord (mn_Namespace p) (mn_Name p) s of
               Inl e \<Rightarrow> if Contains e ''not found'' then err_reply NotFound e else err_reply Internal e
             | Inr r \<Rightarrow>
                 ok_reply \<lparr>ms_ModelName = sr_ModelName r, ms_ModelId = sr_ModelID r, ms_Status = sr_Status r,
                   ms_TotalReplicas = sr_TotalReplicas r,
                   ms_Breakdown = \<lparr>pb_Running = bd_Running (sr_Breakdown r), pb_Pending = bd_Pending (sr_Breakdown r),
                     pb_Failed = bd_Failed (sr_Breakdown r), pb_Unknown = bd_Unknown (sr_Breakdown r)\<rparr>\<rparr>))"

definition srv_GetNodesByModelName ::
    "(string list \<Rightarrow> string list) \<Rightarrow> ModelName option \<Rightarrow> Store \<Rightarrow> ModelNodesResponse reply" where
  "srv_GetNodesByModelName ord req s =
     (case req of
        None \<Rightarrow> err_reply InvalidArgument ''model name and namespace cannot be empty''
      | Some p \<Rightarrow>
          if mn_Name p = [] \<or> mn_Namespace p = []
          then err_reply InvalidArgument ''model name and namespace cannot be empty''
          else
            (case GetNodesByModelName ord (mn_Namespace p) (mn_Name p) s of
               Inl e \<Rightarrow> if Contains e ''not found'' then err_reply NotFound e else err_reply Internal e
             | Inr (modelID, result) \<Rightarrow>
                 ok_reply \<lparr>mnr_ModelName = mn_Name p, mnr_ModelId = modelID,
                   mnr_Nodes = map (\<lambda>a. \<lparr>pna_NodeId = na_NodeID a, pna_Ip = na_IP a, pna_Port = na_Port a\<rparr>) result\<rparr>))"


subsection \<open>Registering and reading back\<close>

definition wf_ProtoModelInfo :: "ProtoModelInfo \<Rightarrow> bool" where
  "wf_ProtoModelInfo p \<longleftrightarrow> in_int64 (pm_ModelSize p) \<and> in_int32 (pm_Replicas p)"

lemma proto_model_fields [simp]:
  "m_ID (protoToStoreModelInfo p) = pm_Id p" "m_Name (protoToStoreModelInfo p) = pm_Name p"
  "m_Namespace (protoToStoreModelInfo p) = pm_Namespace p" "m_Version (protoToStoreModelInfo p) = pm_Version p"
  "m_FilePath (protoToStoreModelInfo p) = pm_FilePath p" "m_ModelType (protoToStoreModelInfo p) = pm_ModelType p"
  "m_ModelSize (protoToStoreModelInfo p) = pm_ModelSize p" "m_Replicas (protoToStoreModelInfo p) = pm_Replicas p"
  "m_InputFormat (protoToStoreModelInfo p) = pm_InputFormat p"
  by (simp_all add: protoToStoreModelInfo_def zero_ModelInfo_def Let_def)

lemma wf_protoToStore: "wf_ProtoModelInfo p \<Longrightarrow> wf_ModelInfo (protoToStoreModelInfo p)"
  unfolding wf_ModelInfo_def wf_ProtoModelInfo_def
  by (simp add: in_int32_64) (simp add: protoToStoreModelInfo_def zero_ModelInfo_def Let_def in_int64_def)

text \<open>The text that an input format is stored as.\<close>

definition stored_format :: "string \<Rightarrow> string" where
  "stored_format f = (case enc_raw f of None \<Rightarrow> [] | Some j \<Rightarrow> json_text j)"

lemma stored_format_empty: "stored_format [] = ''null''"
  by (simp add: stored_format_def enc_raw_def)

lemma already_registered_in_error:
  "Contains (''model name '' @ a @ '' is already registered in namespace '' @ b) ''already registered''"
proof -
  have "Contains ('' is already registered in namespace '' @ b) ''already registered''"
    using Contains_infix [of "'' is ''" "''already registered''" "'' in namespace '' @ b"] by simp
  then show ?thesis by (intro Contains_appendI2 [of _ _ "''model name ''"] Contains_appendI2 [of _ _ a])
qed

lemma register_check_error:
  assumes "registry_inv s" "is_order ord" "i \<noteq> []" "m_Name info \<noteq> []" "m_ID info = i"
    and "register_check ord i info s = Inl e"
  shows "Contains e ''already registered'' \<longleftrightarrow> (\<exists>m. named s (m_Namespace info) (m_Name info) m)"
proof -
  from assms(1) have inv: "store_inv s" "model_rows_ok s" by (simp_all add: registry_inv_def)
  obtain r where r: "GetModelByNamespaceAndName ord (m_Namespace info) (m_Name info) s = Inr r"
    using GetModelByNamespaceAndName_total [OF inv assms(2,4)] by blast
  show ?thesis
  proof (cases r)
    case None
    then have "\<And>m. \<not> named s (m_Namespace info) (m_Name info) m"
      using GetModelByNamespaceAndName_None [OF inv assms(2)] r by simp
    moreover have "e = ''marshal model info: invalid input format''"
      using assms r None by (auto simp: register_check_def Let_def split: option.splits if_splits)
    ultimately show ?thesis by (simp add: HasPrefix_def)
  next
    case (Some m)
    then have "named s (m_Namespace info) (m_Name info) m"
      using GetModelByNamespaceAndName_Some [OF inv assms(2)] r by simp
    moreover have "e = ''model name '' @ Quote (m_Name info) @ '' is already registered in namespace ''
               @ (Quote (m_Namespace info) @ '' (id='' @ m_ID m @ '')'')"
      using assms r Some by (simp add: register_check_def)
    then have "Contains e ''already registered''" by (simp only: already_registered_in_error)
    ultimately show ?thesis by blast
  qed
qed

text \<open>
  The answer of the service for a request, as a function of the registry: this is what the
  comment of the handler promises.
\<close>

definition register_code :: "Store \<Rightarrow> ProtoModelInfo option \<Rightarrow> Code option" where
  "register_code s req =
     (case req of
        None \<Rightarrow> Some InvalidArgument
      | Some p \<Rightarrow>
          if pm_Name p = [] then Some InvalidArgument
          else if \<exists>m. named s (pm_Namespace p) (pm_Name p) m then Some AlreadyExists
          else if pm_InputFormat p \<noteq> [] \<and> json_scan (pm_InputFormat p) = None then Some Internal
          else None)"

lemma register_allowed_code:
  assumes "uuid \<noteq> []"
  shows "register_allowed uuid ((protoToStoreModelInfo p)\<lparr>m_ID := uuid\<rparr>) s \<longleftrightarrow> register_code s (Some p) = None"
  using assms by (auto simp: register_allowed_def register_code_def)

lemma storeModelInfoToProto_registered:
  assumes "wf_ProtoModelInfo p"
  shows "storeModelInfoToProto (norm_ModelInfo ((protoToStoreModelInfo p)\<lparr>m_ID := uuid\<rparr>)) =
    p\<lparr>pm_Id := uuid, pm_InputFormat := stored_format (pm_InputFormat p)\<rparr>"
  using assms
  by (cases p) (simp add: storeModelInfoToProto_def norm_ModelInfo_def stored_format_def wf_ProtoModelInfo_def)

lemma srv_RegisterModel_accepts:
  assumes "registry_inv s" "is_order ord" "uuid \<noteq> []" "wf_ProtoModelInfo p" "register_code s (Some p) = None"
  obtains s' where "srv_RegisterModel io_ok ord uuid (Some p) s = (ok_reply True, s')" "registry_inv s'"
    "model_at s' = (model_at s)(uuid \<mapsto> norm_ModelInfo ((protoToStoreModelInfo p)\<lparr>m_ID := uuid\<rparr>))"
proof -
  let ?i = "(protoToStoreModelInfo p)\<lparr>m_ID := uuid\<rparr>"
  have wf: "wf_ModelInfo ?i" using wf_protoToStore [OF assms(4)] by simp
  have a: "register_allowed uuid ?i s" using register_allowed_code [OF assms(3), of p s] assms(5) by simp
  obtain s' where s': "RegisterModel io_ok ord uuid ?i s = (None, s')" "registry_inv s'"
    "model_at s' = (model_at s)(uuid \<mapsto> norm_ModelInfo (?i\<lparr>m_ID := uuid\<rparr>))"
    by (rule RegisterModel_ok [OF assms(1) wf assms(2) a]) blast
  have "pm_Name p \<noteq> []" using assms(5) by (auto simp: register_code_def)
  with s' that show thesis by (simp add: srv_RegisterModel_def)
qed

lemma srv_RegisterModel_rejects:
  assumes "registry_inv s" "is_order ord" "uuid \<noteq> []" "register_code s req = Some c"
  shows "\<exists>e. srv_RegisterModel io_ok ord uuid req s = (err_reply c e, s)"
proof (cases "\<exists>p. req = Some p \<and> pm_Name p \<noteq> []")
  case False
  then show ?thesis using assms(4) by (cases req) (auto simp: srv_RegisterModel_def register_code_def)
next
  case True
  then obtain p where p: "req = Some p" "pm_Name p \<noteq> []" by blast
  let ?i = "(protoToStoreModelInfo p)\<lparr>m_ID := uuid\<rparr>"
  have a: "\<not> register_allowed uuid ?i s" using register_allowed_code [OF assms(3), of p s] p(1) assms(4) by simp
  from assms(1) have inv: "store_inv s" "model_rows_ok s" by (simp_all add: registry_inv_def)
  obtain e where e: "register_check ord uuid ?i s = Inl e"
    using register_check_spec [OF inv assms(2), of uuid ?i] a by (cases "register_check ord uuid ?i s") auto
  have "Contains e ''already registered'' \<longleftrightarrow> (\<exists>m. named s (pm_Namespace p) (pm_Name p) m)"
    using register_check_error [OF assms(1,2,3) _ _ e] p(2) by simp
  moreover have "srv_RegisterModel io_ok ord uuid req s =
      (if Contains e ''already registered'' then err_reply AlreadyExists e else err_reply Internal e, s)"
    using p e by (simp add: srv_RegisterModel_def RegisterModel_def)
  ultimately show ?thesis using assms(4) p by (auto simp: register_code_def split: if_splits)
qed


definition demo_request :: ProtoModelInfo where
  "demo_request = \<lparr>pm_Id = ''ignored'', pm_Name = ''mnist'', pm_Version = ''1'', pm_FilePath = ''/m.onnx'',
     pm_ModelType = ''cnn'', pm_ModelSize = 12, pm_Replicas = 2, pm_InputFormat = [], pm_Namespace = ''default''\<rparr>"


end
