(* ===== verification/Model_Durability.thy ===== *)
theory Model_Durability
  imports Wal_Durability Grpc_Model_Registry
begin

section \<open>Registered models and restarts\<close>

text \<open>
  The call \<open>RegisterModel\<close> on top of the histories of \<open>Wal_Durability\<close>: what the caller was told
  is still true after the process was restarted from the log, whatever failed before and after.
\<close>

lemma run_events_append:
  assumes "run_events dir es p = (h, p')" and "run_events dir es' p' = (h', p'')"
  shows "run_events dir (es @ es') p = (h @ h', p'')"
  using assms by (induction es arbitrary: p h) (auto split: prod.splits)

lemma foldl_op_map_frame:
  "(\<And>w. w \<in> set ws \<Longrightarrow> op_key w \<noteq> k) \<Longrightarrow> foldl (\<lambda>m w. op_map w m) m ws k = m k"
proof (induction ws arbitrary: m)
  case (Cons w ws)
  have "op_key w \<noteq> k" using Cons.prems [of w] by simp
  then have "op_map w m k = m k" by (cases w) (auto simp: op_map_def op_key_def)
  with Cons show ?case by simp
qed simp

lemma kept_attempted: "set (kept h) \<subseteq> set (attempted h)"
  by (auto simp: kept_def attempted_def)

text \<open>A value that \<open>Put\<close> acknowledged is there after a restart until its key is written again.\<close>

lemma Put_survives:
  assumes "New y dir None = Inr s0" and "run_events dir es (Inl s0) = (h, Inl s)"
    and "Put i k v s = (None, s1)" and "run_events dir es' (Inl s1) = (h', q)"
    and "\<And>w. w \<in> set (attempted h') \<Longrightarrow> op_key w \<noteq> k"
    and "New x dir (Some (disk q)) = Inr s2"
  shows "Get k s2 = Some v"
proof -
  obtain n where w: "run_events dir [Write i (WPut k v)] (Inl s) = ([(WPut k v, n, True)], Inl s1)"
    using assms(3) by (auto simp: run_op_def)
  from run_events_append [OF assms(2) run_events_append [OF w assms(4)]]
  have run: "run_events dir (es @ [Write i (WPut k v)] @ es') (Inl s0) = (h @ [(WPut k v, n, True)] @ h', q)" .
  note N = New_history [OF assms(1) run]
  have "kept [(WPut k v, n, True)] = [WPut k v]" using N(2) by (simp add: kept_def acks_whole_def)
  with N(3) [OF assms(6)] have "store_map s2 k =
      foldl (\<lambda>m w. op_map w m) (op_map (WPut k v) (foldl (\<lambda>m w. op_map w m) Map.empty (kept h))) (kept h') k"
    unfolding kept_append by simp
  also have "\<dots> = Some v"
    using kept_attempted [of h'] assms(5) by (subst foldl_op_map_frame) (auto simp: op_map_def)
  finally show ?thesis by (simp add: store_map_def)
qed


subsection \<open>An example\<close>

text \<open>A registration, then a write that fails at once and a restart.\<close>

definition demo_row :: bytes where
  "demo_row = the (marshal_ModelInfo ((protoToStoreModelInfo demo_request)\<lparr>m_ID := ''u1''\<rparr>))"

definition demo_later :: "event list" where
  "demo_later = [Write (io_ok\<lparr>write_err := Some (0, ''ENOSPC'')\<rparr>) (WPut ''x'' ''y''), Restart open_ok]"

lemma demo_row_fits: "op_fits (WPut (model_prefix @ ''u1'') demo_row)"
proof -
  have "Itoa 0 = ''0''" "Itoa 2 = ''2''" "Itoa 12 = ''12''"
    by (simp_all add: Itoa_def dec_nat.simps digit_char_def char_of_def bit_0)
  then have "length demo_row \<le> 1000"
    using length_json_quote [of "''u1''"] length_json_quote [of "''mnist''"] length_json_quote [of "''default''"]
      length_json_quote [of "''1''"] length_json_quote [of "''/m.onnx''"] length_json_quote [of "''cnn''"]
    by (simp add: demo_row_def marshal_ModelInfo_def enc_ModelInfo_def demo_request_def protoToStoreModelInfo_def
        zero_ModelInfo_def enc_raw_def enc_string_def enc_int_def enc_slice_def)
  then show ?thesis by (intro op_fits_small) (simp add: model_prefix_def)
qed


end
