(* ===== verification/Grpc_Node_Registry.thy ===== *)
theory Grpc_Node_Registry
  imports Grpc_Model_Registry
begin

section \<open>The node registry service and discovery\<close>

text \<open>
  Models \<open>internal/control-plane/api/grpc/registry/node_registry.go\<close> (the handlers of the
  \<open>NodeRegistryAPI\<close> and their conversions) and
  \<open>internal/control-plane/api/grpc/discovery/discovery.go\<close>.
\<close>

definition conv_metadata :: "ProtoNodeMetadata \<Rightarrow> NodeMetadata" where
  "conv_metadata m = \<lparr>md_OSType = pmd_OsType m, md_AgentVersion = pmd_AgentVersion m, md_Hostname = pmd_Hostname m\<rparr>"

definition conv_memory :: "ProtoMemoryInfo \<Rightarrow> MemoryInfo" where
  "conv_memory m = \<lparr>mem_Total = pmem_Total m, mem_Free = pmem_Free m, mem_Used = pmem_Used m, mem_Type = pmem_Type m\<rparr>"

definition conv_storage :: "ProtoStorageInfo \<Rightarrow> StorageInfo" where
  "conv_storage m = \<lparr>sto_Total = psto_Total m, sto_Free = psto_Free m, sto_Used = psto_Used m\<rparr>"

definition conv_device :: "ProtoComputeDevice \<Rightarrow> ComputeDevice" where
  "conv_device d = \<lparr>cd_Type = pcd_Type d, cd_Vendor = pcd_Vendor d, cd_Model = pcd_Model d, cd_Memory = pcd_Memory d,
     cd_ComputeUnits = pcd_ComputeUnits d, cd_TOPS = to_float64 (pcd_Tops d), cd_PowerDraw = pcd_PowerDrawWatts d,
     cd_IsAvailable = True\<rparr>"

text \<open>The part the two conversions share: what a request says replaces the old value, field by field.\<close>

definition conv_capabilities :: "ProtoResourceCapabilities \<Rightarrow> ResourceCapabilities \<Rightarrow> ResourceCapabilities" where
  "conv_capabilities rc old =
     (let old = (case prc_Memory rc of Some m \<Rightarrow> old\<lparr>rc_Memory := conv_memory m\<rparr> | None \<Rightarrow> old);
          old = (case prc_Storage rc of Some m \<Rightarrow> old\<lparr>rc_Storage := conv_storage m\<rparr> | None \<Rightarrow> old)
      in if 0 < length (prc_ComputeDevices rc)
         then old\<lparr>rc_ComputeDevices := map conv_device (prc_ComputeDevices rc)\<rparr> else old)"

definition protoToStoreNodeInfo :: "ProtoNodeInfo \<Rightarrow> NodeInfo" where
  "protoToStoreNodeInfo p =
     (let info = zero_NodeInfo\<lparr>n_ID := pn_NodeId p, n_Name := pn_Name p, n_IP := pn_Ip p, n_Port := pn_Port p\<rparr>;
          info = (case pn_Metadata p of Some m \<Rightarrow> info\<lparr>n_Metadata := conv_metadata m\<rparr> | None \<Rightarrow> info)
      in case pn_ResourceCapabilities p of
           Some rc \<Rightarrow> info\<lparr>n_ResourceCapabilities := conv_capabilities rc zero_ResourceCapabilities\<rparr>
         | None \<Rightarrow> info)"

definition updateRequestToStoreNodeInfo :: "UpdateNodeRequest \<Rightarrow> NodeInfo \<Rightarrow> NodeInfo" where
  "updateRequestToStoreNodeInfo req existing =
     (let info = (case un_Metadata req of Some m \<Rightarrow> existing\<lparr>n_Metadata := conv_metadata m\<rparr> | None \<Rightarrow> existing)
      in case un_ResourceCapabilities req of
           Some rc \<Rightarrow> info\<lparr>n_ResourceCapabilities := conv_capabilities rc (n_ResourceCapabilities info)\<rparr>
         | None \<Rightarrow> info)"

definition deviceToProto :: "ComputeDevice \<Rightarrow> ProtoComputeDevice" where
  "deviceToProto d = \<lparr>pcd_Type = cd_Type d, pcd_Vendor = cd_Vendor d, pcd_Model = cd_Model d, pcd_Memory = cd_Memory d,
     pcd_ComputeUnits = cd_ComputeUnits d, pcd_Tops = to_float32 (cd_TOPS d), pcd_PowerDrawWatts = cd_PowerDraw d\<rparr>"

definition storeNodeInfoToProto :: "NodeInfo \<Rightarrow> ProtoNodeInfo" where
  "storeNodeInfoToProto info =
     (let md = n_Metadata info; rc = n_ResourceCapabilities info; mem = rc_Memory rc; sto = rc_Storage rc
      in \<lparr>pn_NodeId = n_ID info, pn_Name = n_Name info, pn_Ip = n_IP info, pn_Port = to_int32 (n_Port info),
          pn_Metadata = Some \<lparr>pmd_OsType = md_OSType md, pmd_AgentVersion = md_AgentVersion md, pmd_Hostname = md_Hostname md\<rparr>,
          pn_ResourceCapabilities = Some
            \<lparr>prc_Memory = Some \<lparr>pmem_Total = mem_Total mem, pmem_Free = mem_Free mem, pmem_Used = mem_Used mem, pmem_Type = mem_Type mem\<rparr>,
             prc_Storage = Some \<lparr>psto_Total = sto_Total sto, psto_Free = sto_Free sto, psto_Used = sto_Used sto\<rparr>,
             prc_ComputeDevices = map deviceToProto (rc_ComputeDevices rc)\<rparr>\<rparr>)"

definition srv_RegisterNode ::
    "io \<Rightarrow> time \<Rightarrow> string \<Rightarrow> ProtoNodeInfo option \<Rightarrow> Store \<Rightarrow> string reply \<times> Store" where
  "srv_RegisterNode x now uuid req s =
     (case req of
        None \<Rightarrow> (err_reply InvalidArgument ''request cannot be nil'', s)
      | Some p \<Rightarrow>
          (case RegisterNode x now uuid ((protoToStoreNodeInfo p)\<lparr>n_ID := uuid\<rparr>) s of
             (Some e, s') \<Rightarrow> (err_reply Internal e, s')
           | (None, s') \<Rightarrow> (ok_reply uuid, s')))"

definition srv_DeRegisterNode :: "io \<Rightarrow> string option \<Rightarrow> Store \<Rightarrow> bool reply \<times> Store" where
  "srv_DeRegisterNode x req s =
     (case req of
        None \<Rightarrow> (err_reply InvalidArgument ''node ID cannot be empty'', s)
      | Some i \<Rightarrow>
          if i = [] then (err_reply InvalidArgument ''node ID cannot be empty'', s)
          else (case DeRegisterNode x i s of
                  (Some e, s') \<Rightarrow> ((Some False, Some (Internal, e)), s')
                | (None, s') \<Rightarrow> (ok_reply True, s')))"

definition srv_UpdateNode :: "io \<Rightarrow> time \<Rightarrow> UpdateNodeRequest option \<Rightarrow> Store \<Rightarrow> bool reply \<times> Store" where
  "srv_UpdateNode x now req s =
     (case req of
        None \<Rightarrow> (err_reply InvalidArgument ''node ID cannot be empty'', s)
      | Some p \<Rightarrow>
          if un_NodeId p = [] then (err_reply InvalidArgument ''node ID cannot be empty'', s)
          else
            (case GetNodeByID (un_NodeId p) s of
               Inl e \<Rightarrow> ((Some False, Some (Internal, e)), s)
             | Inr None \<Rightarrow> ((Some False, Some (NotFound, ''node not found'')), s)
             | Inr (Some existing) \<Rightarrow>
                 (case UpdateNodeInfo x now (un_NodeId p) (updateRequestToStoreNodeInfo p existing) s of
                    (Some e, s') \<Rightarrow> ((Some False, Some (Internal, e)), s')
                  | (None, s') \<Rightarrow> (ok_reply True, s'))))"

definition srv_GetNode :: "string option \<Rightarrow> Store \<Rightarrow> ProtoNodeInfo reply" where
  "srv_GetNode req s =
     (case req of
        None \<Rightarrow> err_reply InvalidArgument ''node ID cannot be empty''
      | Some i \<Rightarrow>
          if i = [] then err_reply InvalidArgument ''node ID cannot be empty''
          else (case GetNodeByID i s of
                  Inl e \<Rightarrow> err_reply Internal e
                | Inr None \<Rightarrow> err_reply NotFound ''node not found''
                | Inr (Some info) \<Rightarrow> ok_reply (storeNodeInfoToProto info)))"

definition srv_ListNodes :: "(string list \<Rightarrow> string list) \<Rightarrow> Store \<Rightarrow> ProtoNodeInfo list reply" where
  "srv_ListNodes ord s =
     (case ListNodes ord s of
        Inl e \<Rightarrow> err_reply Internal e
      | Inr nodes \<Rightarrow> ok_reply (map storeNodeInfoToProto nodes))"

text \<open>Discovery: the error of the registry is returned as it is, which gRPC reports as unknown.\<close>

definition GetNodes :: "(string list \<Rightarrow> string list) \<Rightarrow> Store \<Rightarrow> NodeEndpoint list reply" where
  "GetNodes ord s =
     (case ListNodesByStatuses ord [StatusOnline] s of
        Inl e \<Rightarrow> err_reply Unknown e
      | Inr nodes \<Rightarrow>
          ok_reply (map (\<lambda>n. \<lparr>ne_NodeId = n_ID n, ne_Ip = n_IP n, ne_Port = to_int32 (n_Port n)\<rparr>) nodes))"


subsection \<open>Registering and reading back\<close>

text \<open>
  A request with values of the message types: 32-bit port, 64-bit sizes, and single
  precision numbers that are finite (the only ones JSON can hold).
\<close>

definition f32_value :: "float64 \<Rightarrow> bool" where
  "f32_value x \<longleftrightarrow> (\<exists>r. x = Fin r) \<and> is_f64 x \<and> to_float32 x = x"

definition wf_ProtoDevice :: "ProtoComputeDevice \<Rightarrow> bool" where
  "wf_ProtoDevice d \<longleftrightarrow> in_int64 (pcd_Memory d) \<and> in_int64 (pcd_ComputeUnits d) \<and> in_int64 (pcd_PowerDrawWatts d) \<and>
     f32_value (pcd_Tops d)"

definition wf_ProtoCapabilities :: "ProtoResourceCapabilities \<Rightarrow> bool" where
  "wf_ProtoCapabilities rc \<longleftrightarrow>
     pred_option (\<lambda>m. in_int64 (pmem_Total m) \<and> in_int64 (pmem_Free m) \<and> in_int64 (pmem_Used m)) (prc_Memory rc) \<and>
     pred_option (\<lambda>m. in_int64 (psto_Total m) \<and> in_int64 (psto_Free m) \<and> in_int64 (psto_Used m)) (prc_Storage rc) \<and>
     list_all wf_ProtoDevice (prc_ComputeDevices rc)"

definition wf_ProtoNodeInfo :: "ProtoNodeInfo \<Rightarrow> bool" where
  "wf_ProtoNodeInfo p \<longleftrightarrow> in_int32 (pn_Port p) \<and> pred_option wf_ProtoCapabilities (pn_ResourceCapabilities p)"

text \<open>A request with all its parts, missing ones taken as empty.\<close>

definition full_capabilities :: "ProtoResourceCapabilities option \<Rightarrow> ProtoResourceCapabilities" where
  "full_capabilities rc =
     \<lparr>prc_Memory = Some (case Option.bind rc prc_Memory of Some m \<Rightarrow> m
        | None \<Rightarrow> \<lparr>pmem_Total = 0, pmem_Free = 0, pmem_Used = 0, pmem_Type = []\<rparr>),
      prc_Storage = Some (case Option.bind rc prc_Storage of Some m \<Rightarrow> m
        | None \<Rightarrow> \<lparr>psto_Total = 0, psto_Free = 0, psto_Used = 0\<rparr>),
      prc_ComputeDevices = (case rc of Some c \<Rightarrow> prc_ComputeDevices c | None \<Rightarrow> [])\<rparr>"

definition full_metadata :: "ProtoNodeMetadata option \<Rightarrow> ProtoNodeMetadata" where
  "full_metadata m = (case m of Some m \<Rightarrow> m | None \<Rightarrow> \<lparr>pmd_OsType = [], pmd_AgentVersion = [], pmd_Hostname = []\<rparr>)"

lemma wf_zero_capabilities: "wf_ResourceCapabilities zero_ResourceCapabilities"
  by (simp add: wf_ResourceCapabilities_def zero_ResourceCapabilities_def wf_MemoryInfo_def zero_MemoryInfo_def
      wf_StorageInfo_def zero_StorageInfo_def in_int64_def)

lemma wf_conv_capabilities:
  assumes "wf_ProtoCapabilities rc" "wf_ResourceCapabilities old"
  shows "wf_ResourceCapabilities (conv_capabilities rc old)"
  using assms
  by (auto simp: wf_ProtoCapabilities_def wf_ResourceCapabilities_def conv_capabilities_def Let_def conv_memory_def
      conv_storage_def conv_device_def wf_MemoryInfo_def wf_StorageInfo_def wf_ComputeDevice_def wf_ProtoDevice_def
      f32_value_def to_float64_def list_all_iff split: option.splits)

definition finite_tops :: "ResourceCapabilities \<Rightarrow> bool" where
  "finite_tops rc \<longleftrightarrow> (\<forall>d \<in> set (rc_ComputeDevices rc). \<exists>r. cd_TOPS d = Fin r)"

lemma finite_zero_capabilities: "finite_tops zero_ResourceCapabilities"
  by (simp add: finite_tops_def zero_ResourceCapabilities_def)

lemma marshal_finite: "marshal_NodeInfo n \<noteq> None \<longleftrightarrow> finite_tops (n_ResourceCapabilities n)"
  by (auto simp: marshal_NodeInfo_None finite_tops_def)

lemma finite_conv_capabilities:
  assumes "wf_ProtoCapabilities rc" "finite_tops old"
  shows "finite_tops (conv_capabilities rc old)"
  using assms
  by (auto simp: finite_tops_def conv_capabilities_def Let_def conv_device_def wf_ProtoCapabilities_def
      wf_ProtoDevice_def f32_value_def to_float64_def list_all_iff split: option.splits)

lemma protoToStoreNodeInfo_fields [simp]:
  "n_ID (protoToStoreNodeInfo p) = pn_NodeId p" "n_Name (protoToStoreNodeInfo p) = pn_Name p"
  "n_IP (protoToStoreNodeInfo p) = pn_Ip p" "n_Port (protoToStoreNodeInfo p) = pn_Port p"
  "n_Status (protoToStoreNodeInfo p) = []" "n_AssignedModels (protoToStoreNodeInfo p) = []"
  "n_LastHeartbeat (protoToStoreNodeInfo p) = zero_time"
  "n_Metadata (protoToStoreNodeInfo p) = conv_metadata (full_metadata (pn_Metadata p))"
  "n_ResourceCapabilities (protoToStoreNodeInfo p) =
     (case pn_ResourceCapabilities p of Some rc \<Rightarrow> conv_capabilities rc zero_ResourceCapabilities | None \<Rightarrow> zero_ResourceCapabilities)"
  by (simp_all add: protoToStoreNodeInfo_def zero_NodeInfo_def Let_def full_metadata_def conv_metadata_def
      zero_NodeMetadata_def split: option.split)

lemma wf_protoToStoreNodeInfo:
  assumes "wf_ProtoNodeInfo p"
  shows "wf_NodeInfo (protoToStoreNodeInfo p)" "marshal_NodeInfo (protoToStoreNodeInfo p) \<noteq> None"
proof -
  have "wf_ResourceCapabilities (n_ResourceCapabilities (protoToStoreNodeInfo p))"
    "finite_tops (n_ResourceCapabilities (protoToStoreNodeInfo p))"
    using assms wf_conv_capabilities [OF _ wf_zero_capabilities] finite_conv_capabilities [OF _ finite_zero_capabilities]
    by (auto simp: wf_ProtoNodeInfo_def wf_zero_capabilities finite_zero_capabilities split: option.splits)
  moreover have "n_RegisteredAt (protoToStoreNodeInfo p) = 0" "n_UpdatedAt (protoToStoreNodeInfo p) = 0"
    "n_LastActivity (protoToStoreNodeInfo p) = 0"
    by (simp_all add: protoToStoreNodeInfo_def zero_NodeInfo_def Let_def zero_time_def split: option.split)
  ultimately show "wf_NodeInfo (protoToStoreNodeInfo p)" "marshal_NodeInfo (protoToStoreNodeInfo p) \<noteq> None"
    unfolding marshal_finite using assms
    by (simp_all add: wf_NodeInfo_def wf_ProtoNodeInfo_def in_int32_64 zero_time_def) (simp_all add: in_int64_def)
qed

lemma device_roundtrip: "wf_ProtoDevice d \<Longrightarrow> deviceToProto (conv_device d) = d"
  by (cases d) (simp add: deviceToProto_def conv_device_def wf_ProtoDevice_def f32_value_def to_float64_def)

lemma devices_roundtrip:
  "list_all wf_ProtoDevice ds \<Longrightarrow> map deviceToProto (map conv_device ds) = ds"
  by (induction ds) (simp_all add: device_roundtrip)

lemma node_roundtrip:
  assumes "wf_ProtoNodeInfo p"
  shows "storeNodeInfoToProto (stamp now uuid ((protoToStoreNodeInfo p)\<lparr>n_ID := uuid\<rparr>)) =
    p\<lparr>pn_NodeId := uuid, pn_Metadata := Some (full_metadata (pn_Metadata p)),
      pn_ResourceCapabilities := Some (full_capabilities (pn_ResourceCapabilities p))\<rparr>"
proof -
  have md: "\<lparr>pmd_OsType = md_OSType (conv_metadata m), pmd_AgentVersion = md_AgentVersion (conv_metadata m),
      pmd_Hostname = md_Hostname (conv_metadata m)\<rparr> = m" for m
    by (cases m) (simp add: conv_metadata_def)
  show ?thesis
  proof (cases "pn_ResourceCapabilities p")
    case None
    with assms show ?thesis
      by (cases p) (simp add: storeNodeInfoToProto_def Let_def md wf_ProtoNodeInfo_def full_capabilities_def
          zero_ResourceCapabilities_def zero_MemoryInfo_def zero_StorageInfo_def)
  next
    case (Some rc)
    with assms have "list_all wf_ProtoDevice (prc_ComputeDevices rc)"
      by (simp add: wf_ProtoNodeInfo_def wf_ProtoCapabilities_def)
    note d = devices_roundtrip [OF this]
    have "rc_ComputeDevices (conv_capabilities rc zero_ResourceCapabilities) = map conv_device (prc_ComputeDevices rc)"
      by (simp add: conv_capabilities_def Let_def zero_ResourceCapabilities_def split: option.split)
    moreover have "rc_Memory (conv_capabilities rc zero_ResourceCapabilities) = (case prc_Memory rc of Some m \<Rightarrow> conv_memory m | None \<Rightarrow> zero_MemoryInfo)"
      "rc_Storage (conv_capabilities rc zero_ResourceCapabilities) = (case prc_Storage rc of Some m \<Rightarrow> conv_storage m | None \<Rightarrow> zero_StorageInfo)"
      by (simp_all add: conv_capabilities_def Let_def zero_ResourceCapabilities_def split: option.split)
    ultimately show ?thesis using Some assms d
      by (cases p) (auto simp: storeNodeInfoToProto_def Let_def md wf_ProtoNodeInfo_def full_capabilities_def conv_memory_def
          conv_storage_def zero_MemoryInfo_def zero_StorageInfo_def split: option.split)
  qed
qed

lemma srv_RegisterNode_ok:
  assumes "cluster_inv s" "in_int64 now" "uuid \<noteq> []" "wf_ProtoNodeInfo p"
  obtains s' where "srv_RegisterNode io_ok now uuid (Some p) s = (ok_reply uuid, s')" "cluster_inv s'"
    "node_at s' = (node_at s)(uuid \<mapsto> stamp now uuid ((protoToStoreNodeInfo p)\<lparr>n_ID := uuid\<rparr>))"
    "model_at s' = model_at s" "replica_at s' = replica_at s"
proof -
  note D = cluster_invD [OF assms(1)]
  let ?n = "(protoToStoreNodeInfo p)\<lparr>n_ID := uuid\<rparr>"
  note w = wf_protoToStoreNodeInfo [OF assms(4)]
  have m: "marshal_NodeInfo ?n \<noteq> None" using w(2) unfolding marshal_finite by simp
  have wf: "wf_NodeInfo (stamp now uuid ?n)" using w(1) assms(2) by (simp add: wf_stamp)
  obtain b where b: "marshal_NodeInfo (stamp now uuid ?n) = Some b"
    "RegisterNode io_ok now uuid ?n s = (None, put_ok (node_prefix @ uuid) b s)"
    by (rule RegisterNode_ok [OF D(2) assms(3) m])
  have id: "n_ID (stamp now uuid ?n) = uuid" using assms(3) by simp
  note p = node_put_registry [OF D(1) wf b(1) id]
  have "objects_wf (put_ok (node_prefix @ uuid) b s)"
    using assms(1,3) wf b(1) p by (auto simp: objects_wf_def cluster_inv_def)
  then have "cluster_inv (put_ok (node_prefix @ uuid) b s)" using p(1) by (simp add: cluster_inv_def)
  moreover have "srv_RegisterNode io_ok now uuid (Some p) s = (ok_reply uuid, put_ok (node_prefix @ uuid) b s)"
    using b(2) by (simp add: srv_RegisterNode_def)
  ultimately show thesis using p by (intro that [of "put_ok (node_prefix @ uuid) b s"]) simp_all
qed

text \<open>
  C21. Registering a node and reading it back. With a fresh identifier and no I/O fault
  \<open>RegisterNode\<close> succeeds, and \<open>GetNode\<close> then returns the request with that identifier, every
  device figure unchanged by the way through double precision and JSON, and the missing parts
  of the request filled with empty ones. No other entry of the registry changes.
\<close>

theorem node_register_then_get:
  assumes "cluster_inv s" and "in_int64 now" and "uuid \<noteq> []" and "wf_ProtoNodeInfo p"
  shows "\<exists>s'. srv_RegisterNode io_ok now uuid (Some p) s = (ok_reply uuid, s') \<and>
    srv_GetNode (Some uuid) s' = ok_reply (p\<lparr>pn_NodeId := uuid,
      pn_Metadata := Some (full_metadata (pn_Metadata p)),
      pn_ResourceCapabilities := Some (full_capabilities (pn_ResourceCapabilities p))\<rparr>) \<and>
    (\<forall>i. i \<noteq> uuid \<longrightarrow> srv_GetNode (Some i) s' = srv_GetNode (Some i) s) \<and>
    model_at s' = model_at s \<and> replica_at s' = replica_at s"
proof -
  obtain s' where s': "srv_RegisterNode io_ok now uuid (Some p) s = (ok_reply uuid, s')" "cluster_inv s'"
    "node_at s' = (node_at s)(uuid \<mapsto> stamp now uuid ((protoToStoreNodeInfo p)\<lparr>n_ID := uuid\<rparr>))"
    "model_at s' = model_at s" "replica_at s' = replica_at s"
    by (rule srv_RegisterNode_ok [OF assms])
  have get: "srv_GetNode (Some i) t = (if i = [] then err_reply InvalidArgument ''node ID cannot be empty''
      else case node_at t i of None \<Rightarrow> err_reply NotFound ''node not found'' | Some n \<Rightarrow> ok_reply (storeNodeInfoToProto n))"
    if "cluster_inv t" for t i
    using GetNodeByID_at [OF cluster_invD(4) [OF that], of i] by (auto simp: srv_GetNode_def split: option.split)
  show ?thesis
    using s' assms(3) node_roundtrip [OF assms(4), of now uuid] by (auto simp: get [OF s'(2)] get [OF assms(1)])
qed

definition demo_device :: ProtoComputeDevice where
  "demo_device = \<lparr>pcd_Type = ComputeDeviceGPU, pcd_Vendor = ''nvidia'', pcd_Model = ''T4'', pcd_Memory = 16384,
     pcd_ComputeUnits = 40, pcd_Tops = Fin 65, pcd_PowerDrawWatts = 70\<rparr>"

definition demo_node_request :: ProtoNodeInfo where
  "demo_node_request = \<lparr>pn_NodeId = [], pn_Name = ''edge'', pn_Ip = ''10.0.0.9'', pn_Port = 50052, pn_Metadata = None,
     pn_ResourceCapabilities = Some \<lparr>prc_Memory = None, prc_Storage = None, prc_ComputeDevices = [demo_device]\<rparr>\<rparr>"

lemma fl32_65: "fl32 65 = Fin 65"
  using fl_int [of 65 24 "- 149"] by (simp add: fl32_def to_float_def)

lemma demo_node_request_wf: "wf_ProtoNodeInfo demo_node_request"
  using fl64_int [of 65] fl32_65
  by (simp add: demo_node_request_def wf_ProtoNodeInfo_def wf_ProtoCapabilities_def demo_device_def wf_ProtoDevice_def
      f32_value_def in_int32_def in_int64_def)

theorem node_register_then_get_witness:
  "\<exists>s'. srv_RegisterNode io_ok 5 ''u7'' (Some demo_node_request) demo_store3 = (ok_reply ''u7'', s') \<and>
     srv_GetNode (Some ''u7'') s' = ok_reply (demo_node_request\<lparr>pn_NodeId := ''u7'',
       pn_Metadata := Some (full_metadata None),
       pn_ResourceCapabilities := Some (full_capabilities (pn_ResourceCapabilities demo_node_request))\<rparr>)"
proof -
  have t: "in_int64 5" by (simp add: in_int64_def)
  from node_register_then_get [OF demo_store3_facts(1) t _ demo_node_request_wf, of "''u7''"] show ?thesis
    by (auto simp: demo_node_request_def)
qed



subsection \<open>Updating a node\<close>

lemma updateRequest_fields [simp]:
  "n_ID (updateRequestToStoreNodeInfo q n) = n_ID n" "n_Name (updateRequestToStoreNodeInfo q n) = n_Name n"
  "n_IP (updateRequestToStoreNodeInfo q n) = n_IP n" "n_Port (updateRequestToStoreNodeInfo q n) = n_Port n"
  "n_Status (updateRequestToStoreNodeInfo q n) = n_Status n"
  "n_AssignedModels (updateRequestToStoreNodeInfo q n) = n_AssignedModels n"
  "n_RegisteredAt (updateRequestToStoreNodeInfo q n) = n_RegisteredAt n"
  "n_UpdatedAt (updateRequestToStoreNodeInfo q n) = n_UpdatedAt n"
  "n_LastHeartbeat (updateRequestToStoreNodeInfo q n) = n_LastHeartbeat n"
  "n_LastActivity (updateRequestToStoreNodeInfo q n) = n_LastActivity n"
  "n_Metadata (updateRequestToStoreNodeInfo q n) = (case un_Metadata q of Some m \<Rightarrow> conv_metadata m | None \<Rightarrow> n_Metadata n)"
  "n_ResourceCapabilities (updateRequestToStoreNodeInfo q n) = (case un_ResourceCapabilities q of
     Some rc \<Rightarrow> conv_capabilities rc (n_ResourceCapabilities n) | None \<Rightarrow> n_ResourceCapabilities n)"
  by (simp_all add: updateRequestToStoreNodeInfo_def Let_def split: option.split)

text \<open>The times that \<open>UpdateNodeInfo\<close> stores for a node that is already there.\<close>

definition touched :: "time \<Rightarrow> NodeInfo \<Rightarrow> NodeInfo" where
  "touched now n = (let n = n\<lparr>n_UpdatedAt := now\<rparr> in if IsZero (n_LastActivity n) then n\<lparr>n_LastActivity := now\<rparr> else n)"

lemma touched_fields [simp]:
  "n_ID (touched now n) = n_ID n" "n_Name (touched now n) = n_Name n" "n_IP (touched now n) = n_IP n"
  "n_Port (touched now n) = n_Port n" "n_Metadata (touched now n) = n_Metadata n"
  "n_Status (touched now n) = n_Status n" "n_AssignedModels (touched now n) = n_AssignedModels n"
  "n_RegisteredAt (touched now n) = n_RegisteredAt n" "n_LastHeartbeat (touched now n) = n_LastHeartbeat n"
  "n_ResourceCapabilities (touched now n) = n_ResourceCapabilities n" "n_UpdatedAt (touched now n) = now"
  by (simp_all add: touched_def Let_def)

lemma keep_times_same:
  assumes "n_RegisteredAt m = n_RegisteredAt n" "n_LastHeartbeat m = n_LastHeartbeat n" "n_LastActivity m = n_LastActivity n"
  shows "keep_times n m = m"
  using assms by (cases m) (simp add: keep_times_def Let_def)

lemma n_ID_same [simp]: "n_ID n = i \<Longrightarrow> n\<lparr>n_ID := i\<rparr> = n"
  by (cases n) simp

definition wf_UpdateNode :: "UpdateNodeRequest \<Rightarrow> bool" where
  "wf_UpdateNode q \<longleftrightarrow> pred_option wf_ProtoCapabilities (un_ResourceCapabilities q)"

lemma wf_updated_info:
  assumes "wf_UpdateNode q" "wf_NodeInfo n" "marshal_NodeInfo n \<noteq> None"
  shows "wf_NodeInfo (updateRequestToStoreNodeInfo q n)" "marshal_NodeInfo (updateRequestToStoreNodeInfo q n) \<noteq> None"
proof -
  have "wf_ResourceCapabilities (n_ResourceCapabilities (updateRequestToStoreNodeInfo q n))"
    using assms by (auto simp: wf_UpdateNode_def wf_NodeInfo_def wf_conv_capabilities split: option.splits)
  then show "wf_NodeInfo (updateRequestToStoreNodeInfo q n)"
    using assms(2) by (simp add: wf_NodeInfo_def)
  show "marshal_NodeInfo (updateRequestToStoreNodeInfo q n) \<noteq> None"
    using assms(1,3) unfolding marshal_finite
    by (auto simp: wf_UpdateNode_def finite_conv_capabilities split: option.splits)
qed

lemma wf_updated:
  assumes "wf_UpdateNode q" "wf_NodeInfo n" "marshal_NodeInfo n \<noteq> None" "in_int64 now"
  shows "wf_NodeInfo (touched now (updateRequestToStoreNodeInfo q n))"
    "marshal_NodeInfo (touched now (updateRequestToStoreNodeInfo q n)) \<noteq> None"
proof -
  show "wf_NodeInfo (touched now (updateRequestToStoreNodeInfo q n))"
    using wf_updated_info(1) [OF assms(1-3)] assms(4) by (simp add: touched_def Let_def)
  show "marshal_NodeInfo (touched now (updateRequestToStoreNodeInfo q n)) \<noteq> None"
    using wf_updated_info(2) [OF assms(1-3)] unfolding marshal_finite by simp
qed

lemma UpdateNodeInfo_existing:
  assumes "cluster_inv s" "node_at s i = Some n" "wf_UpdateNode q" "in_int64 now"
  obtains b where "marshal_NodeInfo (touched now (updateRequestToStoreNodeInfo q n)) = Some b"
    "UpdateNodeInfo x now i (updateRequestToStoreNodeInfo q n) s = Put x (node_prefix @ i) b s" "i \<noteq> []"
proof -
  note D = cluster_invD [OF assms(1)]
  let ?m = "updateRequestToStoreNodeInfo q n"
  have i: "i \<noteq> []" using assms(2) D(9) by auto
  have id: "n_ID n = i" by (rule node_at_ID [OF D(4) assms(2)])
  from wf_updated(2) [OF assms(3) D(6,7) [OF assms(2)] assms(4)] obtain b where
    b: "marshal_NodeInfo (touched now ?m) = Some b" by blast
  have "keep_times n ?m = ?m" by (rule keep_times_same) simp_all
  moreover have "?m\<lparr>n_ID := i\<rparr> = ?m" by (rule n_ID_same) (simp add: id)
  ultimately have u: "UpdateNodeInfo x now i ?m s = Put x (node_prefix @ i) b s"
    using i id b GetNodeByID_at [OF D(4) i] assms(2)
    by (simp add: UpdateNodeInfo_def Let_def touched_def split: if_splits)
  show thesis by (rule that [OF b u i])
qed

text \<open>
  Updating a node. For a registered node and without an I/O fault \<open>UpdateNode\<close> succeeds; the
  metadata, the memory and storage figures and the device list are replaced where the
  request has them and kept where it does not; the identifier, name, address, port, status,
  assigned replicas, registration time and last heartbeat stay as they were. No other entry
  changes. For a node that is not registered the answer is \<open>NotFound\<close> and nothing changes.
\<close>

lemma srv_UpdateNode_spec:
  assumes "cluster_inv s" and "in_int64 now" and "un_NodeId q \<noteq> []" and "wf_UpdateNode q"
  shows "case node_at s (un_NodeId q) of
      None \<Rightarrow> srv_UpdateNode io_ok now (Some q) s = ((Some False, Some (NotFound, ''node not found'')), s)
    | Some n \<Rightarrow> (\<exists>s'. srv_UpdateNode io_ok now (Some q) s = (ok_reply True, s') \<and> cluster_inv s' \<and>
        node_at s' = (node_at s)(un_NodeId q \<mapsto> touched now (updateRequestToStoreNodeInfo q n)) \<and>
        model_at s' = model_at s \<and> replica_at s' = replica_at s)"
proof (cases "node_at s (un_NodeId q)")
  case None
  with GetNodeByID_at [OF cluster_invD(4) [OF assms(1)] assms(3)] assms(3) show ?thesis
    by (simp add: srv_UpdateNode_def)
next
  case (Some n)
  note D = cluster_invD [OF assms(1)]
  let ?n = "touched now (updateRequestToStoreNodeInfo q n)" and ?i = "un_NodeId q"
  obtain b where b: "marshal_NodeInfo ?n = Some b"
    "UpdateNodeInfo io_ok now ?i (updateRequestToStoreNodeInfo q n) s = Put io_ok (node_prefix @ ?i) b s"
    by (rule UpdateNodeInfo_existing [OF assms(1) Some assms(4,2)])
  note wf = wf_updated(1) [OF assms(4) D(6,7) [OF Some] assms(2)]
  have id: "n_ID ?n = ?i" using node_at_ID [OF D(4) Some] by simp
  note p = node_put_registry [OF D(1) wf b(1) id]
  have "objects_wf (put_ok (node_prefix @ ?i) b s)"
    using assms(1,3) wf b(1) p by (auto simp: objects_wf_def cluster_inv_def)
  moreover have "srv_UpdateNode io_ok now (Some q) s = (ok_reply True, put_ok (node_prefix @ ?i) b s)"
    using Some assms(3) b(2) D(2) GetNodeByID_at [OF D(4) assms(3)]
    by (simp add: srv_UpdateNode_def store_inv_def Put_put_ok)
  ultimately show ?thesis using Some p by (simp add: cluster_inv_def)
qed

definition demo_update :: UpdateNodeRequest where
  "demo_update = \<lparr>un_NodeId = ''n1'', un_Metadata = Some \<lparr>pmd_OsType = ''linux'', pmd_AgentVersion = ''2'', pmd_Hostname = ''h''\<rparr>,
     un_ResourceCapabilities = None\<rparr>"

end
