(* ===== verification/Control_Plane.thy ===== *)
theory Control_Plane
  imports Grpc_Node_Registry
begin

section \<open>The control plane as a state machine\<close>

text \<open>
  \<open>cp_step\<close> has one rule per call that can change the store: the calls of the two registry
  services and the heartbeat rounds, in any order, with any I/O outcome, clock reading and
  iteration order. \<open>cp_inv {[]}\<close> holds in every reachable state. The network delivers well-formed
  messages (numbers in the range of their types), which is what the \<open>wf\<close> conditions of the
  rules say; the device figures are finite.

  The reachable states have a remarkable property: no call ever sets the status of a node to
  online, and a new node has the empty status, so that neither the heartbeat controller nor
  discovery ever sees a node.
\<close>

definition wf_UpdateModel :: "UpdateModelRequest \<Rightarrow> bool" where
  "wf_UpdateModel q \<longleftrightarrow> in_int64 (um_ModelSize q) \<and> in_int32 (um_Replicas q)"

inductive cp_step :: "Store \<Rightarrow> Store \<Rightarrow> bool" where
  register_model: "is_order ord \<Longrightarrow> uuid \<noteq> [] \<Longrightarrow> pred_option wf_ProtoModelInfo req \<Longrightarrow>
    srv_RegisterModel x ord uuid req s = (rep, s') \<Longrightarrow> cp_step s s'"
| deregister_model: "srv_DeRegisterModel x mid s = (rep, s') \<Longrightarrow> cp_step s s'"
| update_model: "pred_option wf_UpdateModel q \<Longrightarrow> srv_UpdateModel x q s = (rep, s') \<Longrightarrow> cp_step s s'"
| register_node: "in_int64 now \<Longrightarrow> uuid \<noteq> [] \<Longrightarrow> pred_option wf_ProtoNodeInfo nreq \<Longrightarrow>
    srv_RegisterNode x now uuid nreq s = (nrep, s') \<Longrightarrow> cp_step s s'"
| deregister_node: "srv_DeRegisterNode x nid s = (rep, s') \<Longrightarrow> cp_step s s'"
| update_node: "in_int64 now \<Longrightarrow> pred_option wf_UpdateNode u \<Longrightarrow>
    srv_UpdateNode x now u s = (rep, s') \<Longrightarrow> cp_step s s'"
| heartbeat: "env_ok env \<Longrightarrow> HandleHeartbeat env s = (err, s') \<Longrightarrow> cp_step s s'"

text \<open>Every node has a status of the set \<open>A\<close>; a node that registers has the empty one.\<close>

definition statuses_in :: "Status set \<Rightarrow> Store \<Rightarrow> bool" where
  "statuses_in A s \<longleftrightarrow> (\<forall>i n. node_at s i = Some n \<longrightarrow> n_Status n \<in> A)"

definition cp_inv :: "Status set \<Rightarrow> Store \<Rightarrow> bool" where
  "cp_inv A s \<longleftrightarrow> cluster_inv s \<and> statuses_in A s"

text \<open>The sets that the calls preserve.\<close>

definition closed_statuses :: "Status set \<Rightarrow> bool" where
  "closed_statuses A \<longleftrightarrow> [] \<in> A \<and> (A \<inter> {StatusOnline, StatusUnknown} = {} \<or> {StatusOffline, StatusUnknown} \<subseteq> A)"

abbreviation idle :: "Store \<Rightarrow> bool" where
  "idle \<equiv> statuses_in {[]}"

lemma closed_sets:
  "closed_statuses {[]}" "closed_statuses {[], StatusOffline, StatusUnknown}" "closed_statuses UNIV"
  by (auto simp: closed_statuses_def Status_defs)

lemma cp_inv_same_data: "data s' = data s \<Longrightarrow> walFile s' = walFile s \<Longrightarrow> cp_inv A s' = cp_inv A s"
  using cluster_inv_same_data [of s' s] same_data_view(3) [of s' s] by (simp add: cp_inv_def statuses_in_def)

lemma cp_inv_model_change:
  assumes "cp_inv A s" "registry_inv s'" "node_at s' = node_at s" "replica_at s' = replica_at s"
  shows "cp_inv A s'"
  using assms by (simp add: cp_inv_def cluster_inv_def objects_wf_def statuses_in_def)

lemma cp_inv_node_put:
  assumes "cp_inv A s" "wf_NodeInfo n" "marshal_NodeInfo n = Some b" "n_ID n = i" "i \<noteq> []" "n_Status n \<in> A"
  shows "cp_inv A (put_ok (node_prefix @ i) b s)"
proof -
  from assms(1) have c: "cluster_inv s" "statuses_in A s" by (simp_all add: cp_inv_def)
  note p = node_put_registry [OF cluster_invD(1) [OF c(1)] assms(2-4)]
  show ?thesis using c p assms(2,3,5,6)
    by (auto simp: cp_inv_def cluster_inv_def objects_wf_def statuses_in_def)
qed

lemma cp_inv_register_model:
  assumes "cp_inv A s" "is_order ord" "uuid \<noteq> []" "pred_option wf_ProtoModelInfo req"
    and "srv_RegisterModel x ord uuid req s = (rep, s')"
  shows "cp_inv A s'"
proof (cases "s' = s")
  case False
  then obtain p e where p: "req = Some p" and r: "RegisterModel x ord uuid ((protoToStoreModelInfo p)\<lparr>m_ID := uuid\<rparr>) s = (e, s')"
    using assms(5) by (auto simp: srv_RegisterModel_def Let_def split: option.splits if_splits prod.splits)
  have wf: "wf_ModelInfo ((protoToStoreModelInfo p)\<lparr>m_ID := uuid, m_ID := uuid\<rparr>)"
    using wf_protoToStore assms(4) p by simp
  show ?thesis
  proof (cases e)
    case None
    obtain b where b: "marshal_ModelInfo ((protoToStoreModelInfo p)\<lparr>m_ID := uuid, m_ID := uuid\<rparr>) = Some b"
      "s' = put_ok (model_prefix @ uuid) b s"
      using RegisterModel_None [OF r [unfolded None]] by blast
    have "registry_inv s" "store_inv s" using assms(1) cluster_invD by (auto simp: cp_inv_def)
    with model_put [OF _ wf b(1), of s uuid] b(2) show ?thesis
      by (intro cp_inv_model_change [OF assms(1)]) simp_all
  next
    case (Some err)
    then show ?thesis using RegisterModel_error_frame r assms(1) cp_inv_same_data by blast
  qed
qed (use assms in simp)

lemma cp_inv_deregister_model:
  assumes "cp_inv A s" "srv_DeRegisterModel x i s = (rep, s')"
  shows "cp_inv A s'"
proof (cases "s' = s")
  case False
  then obtain j e where d: "DeRegisterModel x j s = (e, s')"
    using assms(2) by (auto simp: srv_DeRegisterModel_def split: option.splits if_splits prod.splits)
  have "registry_inv s" "store_inv s" using assms(1) cluster_invD by (auto simp: cp_inv_def)
  then have "cp_inv A (del_ok (model_prefix @ j) s)"
    by (intro cp_inv_model_change [OF assms(1)]) (simp_all add: model_delete)
  with DeRegisterModel_cases [OF d] cp_inv_same_data [of s' s] assms(1) show ?thesis by blast
qed (use assms in simp)

lemma UpdateModelInfo_None:
  assumes "UpdateModelInfo x i info s = (None, s')"
  obtains b where "i \<noteq> []" "marshal_ModelInfo (info\<lparr>m_ID := i\<rparr>) = Some b" "s' = put_ok (model_prefix @ i) b s"
  using assms by (auto simp: UpdateModelInfo_def put_ok_def dest: Put_None split: if_splits option.splits)

lemma UpdateModelInfo_error_frame:
  assumes "UpdateModelInfo x i info s = (Some e, s')"
  shows "data s' = data s \<and> walFile s' = walFile s"
  using assms by (auto simp: UpdateModelInfo_def dest: Put_error_frame split: if_splits option.splits)

lemma wf_updateRequest: "wf_UpdateModel q \<Longrightarrow> wf_ModelInfo (updateRequestToStoreModelInfo q)"
  by (simp add: wf_ModelInfo_def wf_UpdateModel_def updateRequestToStoreModelInfo_def zero_ModelInfo_def Let_def
      in_int32_64) (simp add: in_int64_def)

lemma cp_inv_update_model:
  assumes "cp_inv A s" "pred_option wf_UpdateModel q" "srv_UpdateModel x q s = (rep, s')"
  shows "cp_inv A s'"
proof (cases "s' = s")
  case False
  then obtain p e where p: "q = Some p" and u: "UpdateModelInfo x (um_Id p) (updateRequestToStoreModelInfo p) s = (e, s')"
    using assms(3) by (auto simp: srv_UpdateModel_def split: option.splits if_splits prod.splits)
  show ?thesis
  proof (cases e)
    case None
    obtain b where b: "marshal_ModelInfo ((updateRequestToStoreModelInfo p)\<lparr>m_ID := um_Id p\<rparr>) = Some b"
      "s' = put_ok (model_prefix @ um_Id p) b s"
      using UpdateModelInfo_None [OF u [unfolded None]] by blast
    have wf: "wf_ModelInfo ((updateRequestToStoreModelInfo p)\<lparr>m_ID := um_Id p\<rparr>)"
      using wf_updateRequest assms(2) p by simp
    have "registry_inv s" "store_inv s" using assms(1) cluster_invD by (auto simp: cp_inv_def)
    with model_put [OF _ wf b(1), of s "um_Id p"] b(2) show ?thesis
      by (intro cp_inv_model_change [OF assms(1)]) simp_all
  next
    case (Some err)
    then show ?thesis using UpdateModelInfo_error_frame u assms(1) cp_inv_same_data by blast
  qed
qed (use assms in simp)

lemma cp_inv_register_node:
  assumes "cp_inv A s" "[] \<in> A" "in_int64 now" "uuid \<noteq> []" "pred_option wf_ProtoNodeInfo req"
    and "srv_RegisterNode x now uuid req s = (rep, s')"
  shows "cp_inv A s'"
proof (cases "s' = s")
  case False
  then obtain p e where p: "req = Some p" and r: "RegisterNode x now uuid ((protoToStoreNodeInfo p)\<lparr>n_ID := uuid\<rparr>) s = (e, s')"
    using assms(6) by (auto simp: srv_RegisterNode_def split: option.splits prod.splits)
  show ?thesis
  proof (cases e)
    case None
    obtain b where b: "marshal_NodeInfo (stamp now uuid ((protoToStoreNodeInfo p)\<lparr>n_ID := uuid\<rparr>)) = Some b"
      "s' = put_ok (node_prefix @ uuid) b s"
      using RegisterNode_None [OF r [unfolded None]] by blast
    have "wf_NodeInfo (stamp now uuid ((protoToStoreNodeInfo p)\<lparr>n_ID := uuid\<rparr>))"
      using wf_protoToStoreNodeInfo(1) assms(3,5) p by (simp add: wf_stamp)
    with b assms(1,2,4) show ?thesis by (simp add: cp_inv_node_put)
  next
    case (Some err)
    then show ?thesis using RegisterNode_error_frame r assms(1) cp_inv_same_data by blast
  qed
qed (use assms in simp)

lemma node_delete:
  assumes "registry_inv s"
  shows "registry_inv (del_ok (node_prefix @ i) s)" "node_at (del_ok (node_prefix @ i) s) = (node_at s)(i := None)"
    "replica_at (del_ok (node_prefix @ i) s) = replica_at s" "model_at (del_ok (node_prefix @ i) s) = model_at s"
proof -
  let ?s = "del_ok (node_prefix @ i) s"
  from assms have inv: "store_inv s" by (simp add: registry_inv_def)
  show "node_at ?s = (node_at s)(i := None)"
    by (auto simp: node_at_def fun_eq_iff nodes.other_row [OF inv] wal.get_del [OF inv])
  have m: "model_at ?s = model_at s" "model_rows_ok ?s = model_rows_ok s"
    by (rule model_view_cong, simp add: nodes.other_table [OF inv])+
  have r: "replica_at ?s = replica_at s" "replica_rows_ok ?s = replica_rows_ok s"
    by (rule replica_view_cong, simp add: nodes.other_table [OF inv])+
  show "replica_at ?s = replica_at s" "model_at ?s = model_at s" by (rule r(1), rule m(1))
  show "registry_inv ?s"
    using assms m r nodes.rows_ok_del [OF inv, of n_ID i] wal.invar_del [OF inv]
    by (simp add: registry_inv_def node_rows_ok_def)
qed

lemma cp_inv_deregister_node:
  assumes "cp_inv A s" "srv_DeRegisterNode x i s = (rep, s')"
  shows "cp_inv A s'"
proof (cases "s' = s")
  case False
  then obtain j e where d: "DeRegisterNode x j s = (e, s')" "j \<noteq> []"
    using assms(2) by (auto simp: srv_DeRegisterNode_def split: option.splits if_splits prod.splits)
  have inv: "registry_inv s" using assms(1) by (simp add: cp_inv_def cluster_inv_def)
  show ?thesis
  proof (cases e)
    case None
    with d have "s' = del_ok (node_prefix @ j) s"
      using Delete_None(3) [of x "node_prefix @ j" s s'] by (simp add: DeRegisterNode_def del_ok_def)
    with assms(1) d(2) show ?thesis
      by (simp add: cp_inv_def cluster_inv_def objects_wf_def statuses_in_def node_delete [OF inv])
  next
    case (Some err)
    with d have "data s' = data s" "walFile s' = walFile s"
      using Delete_error_frame [of x "node_prefix @ j" s err s'] by (simp_all add: DeRegisterNode_def)
    with assms(1) show ?thesis using cp_inv_same_data by blast
  qed
qed (use assms in simp)

lemma cp_inv_update_node:
  assumes "cp_inv A s" "in_int64 now" "pred_option wf_UpdateNode q" "srv_UpdateNode x now q s = (rep, s')"
  shows "cp_inv A s'"
proof (cases "s' = s")
  case False
  from assms(1) have c: "cluster_inv s" "statuses_in A s" by (simp_all add: cp_inv_def)
  note D = cluster_invD [OF c(1)]
  from False assms(4) obtain p n e where p: "q = Some p" "un_NodeId p \<noteq> []" "GetNodeByID (un_NodeId p) s = Inr (Some n)"
    and u: "UpdateNodeInfo x now (un_NodeId p) (updateRequestToStoreNodeInfo p n) s = (e, s')"
    by (auto simp: srv_UpdateNode_def split: option.splits if_splits prod.splits sum.splits)
  have n: "node_at s (un_NodeId p) = Some n" using p GetNodeByID_at [OF D(4) p(2)] by simp
  have wf: "wf_UpdateNode p" using assms(3) p(1) by simp
  obtain b where b: "marshal_NodeInfo (touched now (updateRequestToStoreNodeInfo p n)) = Some b"
    "UpdateNodeInfo x now (un_NodeId p) (updateRequestToStoreNodeInfo p n) s = Put x (node_prefix @ un_NodeId p) b s"
    by (rule UpdateNodeInfo_existing [OF c(1) n wf assms(2)])
  show ?thesis
  proof (cases e)
    case None
    with u b(2) have s': "s' = put_ok (node_prefix @ un_NodeId p) b s"
      using Put_None(3) [of x "node_prefix @ un_NodeId p" b s s'] by (simp add: put_ok_def)
    have "n_ID n = un_NodeId p" "n_Status n \<in> A" using node_at_ID [OF D(4) n] n c(2) by (auto simp: statuses_in_def)
    with wf_updated(1) [OF wf D(6,7) [OF n] assms(2)] b(1) p(2) show ?thesis
      unfolding s'
      by (intro cp_inv_node_put [OF assms(1), where n = "touched now (updateRequestToStoreNodeInfo p n)"]) simp_all
  next
    case (Some err)
    with u b(2) have "data s' = data s" "walFile s' = walFile s"
      using Put_error_frame [of x "node_prefix @ un_NodeId p" b s err s'] by simp_all
    with assms(1) show ?thesis using cp_inv_same_data by blast
  qed
qed (use assms in simp)

lemma cp_inv_status:
  assumes "cp_inv A s" "in_int64 now" "st \<in> A"
  shows "cp_inv A (snd (UpdateNodeStatus x now i st s))"
proof -
  from assms(1) have c: "cluster_inv s" "statuses_in A s" by (simp_all add: cp_inv_def)
  obtain e s' where u: "UpdateNodeStatus x now i st s = (e, s')" by fastforce
  show ?thesis
  proof (cases "e = None")
    case True
    obtain n where n: "node_at s i = Some n" by (rule UpdateNodeStatus_None [OF u [unfolded True]])
    note f = UpdateNodeStatus_cluster [OF c(1) assms(2) n u]
    have "node_at s' = (node_at s)(i \<mapsto> set_status now st n)" using f(4) True by simp
    with c(2) assms(3) have "statuses_in A s'" by (simp add: statuses_in_def)
    with f(1) show ?thesis by (simp add: u cp_inv_def)
  next
    case False
    then obtain err where "UpdateNodeStatus x now i st s = (Some err, s')" using u by (cases e) simp_all
    then have f: "data s' = data s" "walFile s' = walFile s" using UpdateNodeStatus_error_frame by blast+
    from assms(1) show ?thesis unfolding u snd_conv cp_inv_same_data [OF f] .
  qed
qed

lemma cp_inv_heartbeat_node:
  assumes "cp_inv A s" "env_ok env" "{StatusOffline, StatusUnknown} \<subseteq> A"
  shows "cp_inv A (heartbeat_node env eps n s)"
proof (cases "answers env eps n")
  case None
  then have "heartbeat_node env eps n s = snd (UpdateNodeStatus (hb_status_io env (n_ID n)) (hb_status_now env (n_ID n)) (n_ID n)
      (if stale (hb_check_now env (n_ID n)) n then StatusOffline else StatusUnknown) s)"
    by (auto simp: heartbeat_node_def answers_def split: sum.splits)
  with assms show ?thesis by (auto simp: env_ok_def intro!: cp_inv_status)
next
  case (Some resp)
  from assms(1) have c: "cluster_inv s" "statuses_in A s" by (simp_all add: cp_inv_def)
  have t: "\<forall>j. in_int64 (hb_replica_now env (n_ID n) j)" using assms(2) by (simp add: env_ok_def)
  from Some have "heartbeat_node env eps n s =
      update_replicas (hb_replica_now env (n_ID n)) (hb_replica_io env (n_ID n)) resp (n_AssignedModels n) 0 s"
    by (auto simp: heartbeat_node_def answers_def split: sum.splits)
  with update_replicas_inv [OF c(1) t answers_codes [OF assms(2) Some]] c(2) show ?thesis
    by (simp add: cp_inv_def statuses_in_def)
qed

lemma cp_inv_heartbeat_nodes:
  "cp_inv A s \<Longrightarrow> env_ok env \<Longrightarrow> {StatusOffline, StatusUnknown} \<subseteq> A \<Longrightarrow> cp_inv A (heartbeat_nodes env eps ns s)"
  by (induction ns arbitrary: s) (simp_all add: cp_inv_heartbeat_node)

lemma not_contacted: "statuses_in A s \<Longrightarrow> A \<inter> {StatusOnline, StatusUnknown} = {} \<Longrightarrow> \<not> contacted s n"
  unfolding statuses_in_def contacted_def by blast

lemma cp_inv_heartbeat:
  assumes "cp_inv A s" "env_ok env" "HandleHeartbeat env s = (err, s')" "closed_statuses A"
  shows "cp_inv A s'" and "A \<inter> {StatusOnline, StatusUnknown} = {} \<Longrightarrow> s' = s"
proof -
  from assms(1) have c: "cluster_inv s" "statuses_in A s" by (simp_all add: cp_inv_def)
  obtain ns where ns: "HandleHeartbeat env s = (None, heartbeat_nodes env (round_endpoints env s) ns s)"
    "listed s ns" "\<And>n. n \<in> set ns \<longleftrightarrow> contacted s n"
    by (rule HandleHeartbeat_nodes [OF c(1) assms(2)]) blast
  show same: "s' = s" if "A \<inter> {StatusOnline, StatusUnknown} = {}"
  proof -
    have "ns = []" using ns(3) not_contacted [OF c(2) that] by (cases ns) auto
    with ns(1) assms(3) show ?thesis by simp
  qed
  show "cp_inv A s'"
  proof (cases "A \<inter> {StatusOnline, StatusUnknown} = {}")
    case False
    with assms(4) have "{StatusOffline, StatusUnknown} \<subseteq> A" unfolding closed_statuses_def by blast
    with cp_inv_heartbeat_nodes [OF assms(1,2)] ns(1) assms(3) show ?thesis by simp
  qed (use same assms(1) in simp)
qed

lemma cp_step_inv: "cp_step s s' \<Longrightarrow> closed_statuses A \<Longrightarrow> cp_inv A s \<Longrightarrow> cp_inv A s'"
  by (induction rule: cp_step.induct)
     (blast intro: cp_inv_register_model cp_inv_deregister_model cp_inv_update_model cp_inv_register_node
       closed_statuses_def [THEN iffD1, THEN conjunct1] cp_inv_deregister_node cp_inv_update_node cp_inv_heartbeat(1))+

lemma cp_inv_empty: "cp_inv A empty_store"
  using empty_store_inv by (simp add: cp_inv_def cluster_inv_def objects_wf_def statuses_in_def)

lemma cp_steps_inv: "cp_step\<^sup>*\<^sup>* s s' \<Longrightarrow> closed_statuses A \<Longrightarrow> cp_inv A s \<Longrightarrow> cp_inv A s'"
  by (induction rule: rtranclp_induct) (auto intro: cp_step_inv)

lemma cp_reachable: "cp_step\<^sup>*\<^sup>* empty_store s \<Longrightarrow> cp_inv {[]} s"
  by (rule cp_steps_inv [OF _ closed_sets(1) cp_inv_empty])

text \<open>What an idle registry hands out.\<close>

lemma idle_lists_nothing:
  assumes "cp_inv {[]} s" "is_order ord"
  shows "ListNodesByStatuses ord [StatusOnline] s = Inr []" "GetNodes ord s = ok_reply []"
    "is_order ordm \<Longrightarrow> buildServiceEndpoints ord ordm s = []"
proof -
  from assms(1) have c: "cluster_inv s" "idle s" by (simp_all add: cp_inv_def)
  note D = cluster_invD [OF c(1)]
  obtain ns where ns: "ListNodesByStatuses ord [StatusOnline] s = Inr ns" "distinct (map n_ID ns)"
    "\<And>n. n \<in> set ns \<longleftrightarrow> node_at s (n_ID n) = Some n \<and> n_Status n \<in> set [StatusOnline]"
    by (rule ListNodesByStatuses_total [OF D(2,4) assms(2)]) blast
  have "n \<notin> set ns" for n using ns(3) c(2) by (auto simp: statuses_in_def Status_defs)
  then have "ns = []" by (cases ns) auto
  with ns(1) show none: "ListNodesByStatuses ord [StatusOnline] s = Inr []" by simp
  then show "GetNodes ord s = ok_reply []" by (simp add: GetNodes_def)
  show "buildServiceEndpoints ord ordm s = []" if "is_order ordm"
    using none is_order_length [OF that, of "[]"] by (simp add: buildServiceEndpoints_def)
qed


text \<open>
  C10. No node is ever seen. In every state that the calls of the registry services and the
  heartbeat rounds reach from an empty store, every node has the empty status it was
  registered with: a heartbeat round contacts no node and changes nothing, the endpoint
  table it would send is empty, and discovery returns no node, however many are registered.
\<close>

theorem no_node_is_ever_contacted:
  assumes "cp_step\<^sup>*\<^sup>* empty_store s" and "env_ok env" and "is_order ord"
  shows "HandleHeartbeat env s = (None, s) \<and> round_endpoints env s = [] \<and> GetNodes ord s = ok_reply [] \<and>
    (\<forall>i n. node_at s i = Some n \<longrightarrow> n_Status n = [])"
proof -
  note c = cp_reachable [OF assms(1)]
  obtain err s' where h: "HandleHeartbeat env s = (err, s')" by fastforce
  from c have inv: "cluster_inv s" "idle s" by (simp_all add: cp_inv_def)
  have "err = None" using HandleHeartbeat_effect [OF inv(1) assms(2)] h by simp
  moreover have "s' = s" by (rule cp_inv_heartbeat(2) [OF c assms(2) h closed_sets(1)]) (simp add: Status_defs)
  moreover have "round_endpoints env s = []"
    using idle_lists_nothing(3) [OF c] assms(2) by (simp add: round_endpoints_def env_ok_def)
  ultimately show ?thesis using h idle_lists_nothing(2) [OF c assms(3)] inv(2) by (simp add: statuses_in_def)
qed

definition demo_registered :: Store where
  "demo_registered = snd (srv_RegisterNode io_ok 5 ''u7'' (Some demo_node_request) empty_store)"

lemma demo_registered_reachable: "cp_step\<^sup>*\<^sup>* empty_store demo_registered"
proof (rule r_into_rtranclp)
  show "cp_step empty_store demo_registered"
    by (rule cp_step.register_node [of 5 "''u7''" "Some demo_node_request" io_ok _ "fst (srv_RegisterNode io_ok 5 ''u7'' (Some demo_node_request) empty_store)"])
       (simp_all add: in_int64_def demo_node_request_wf demo_registered_def)
qed


theorem no_node_is_ever_contacted_witness:
  "node_at demo_registered ''u7'' \<noteq> None \<and> GetNodes rev demo_registered = ok_reply [] \<and>
   HandleHeartbeat (demo_env (150 * Second) up) demo_registered = (None, demo_registered)"
proof -
  have e: "env_ok (demo_env (150 * Second) up)" by (rule demo_env_ok; simp add: in_int64_def Second_def)
  have c: "cluster_inv empty_store" "in_int64 5" using cp_inv_empty by (simp_all add: cp_inv_def in_int64_def)
  obtain s' where "srv_RegisterNode io_ok 5 ''u7'' (Some demo_node_request) empty_store = (ok_reply ''u7'', s')"
    "node_at s' ''u7'' \<noteq> None"
    by (rule srv_RegisterNode_ok [OF c _ demo_node_request_wf, of "''u7''"]) simp_all
  then have "node_at demo_registered ''u7'' \<noteq> None" by (simp add: demo_registered_def)
  with no_node_is_ever_contacted [OF demo_registered_reachable e is_order_id(3)] show ?thesis by blast
qed

end
