(* ===== verification/Go_Sha256.thy ===== *)
theory Go_Sha256
  imports Go_Strings "HOL-Library.Word"
begin

section \<open>SHA-256\<close>

text \<open>
  \<open>crypto/sha256\<close> as the program uses it: the digest of the bytes written so far, printed in
  lower-case hexadecimal. All arithmetic is on 32-bit words.
\<close>

unbundle bit_operations_syntax

type_synonym w32 = "32 word"

text \<open>
  The constants of the standard, eight words to a row, the first word in front: the first 32 bits of
  the fractional parts of the cube roots of the first 64 primes, and below of the square roots of the
  first eight.
\<close>

definition row_words :: "nat \<Rightarrow> w32 list" where
  "row_words r = rev (map (\<lambda>k. of_nat (r div 2 ^ (32 * k) mod 2 ^ 32)) [0..<8])"

lemma length_row_words [simp]: "length (row_words r) = 8"
  by (simp add: row_words_def)

definition sha_K :: "w32 list" where
  "sha_K = concat (map row_words
     [0x428a2f9871374491b5c0fbcfe9b5dba53956c25b59f111f1923f82a4ab1c5ed5,
      0xd807aa9812835b01243185be550c7dc372be5d7480deb1fe9bdc06a7c19bf174,
      0xe49b69c1efbe47860fc19dc6240ca1cc2de92c6f4a7484aa5cb0a9dc76f988da,
      0x983e5152a831c66db00327c8bf597fc7c6e00bf3d5a7914706ca635114292967,
      0x27b70a852e1b21384d2c6dfc53380d13650a7354766a0abb81c2c92e92722c85,
      0xa2bfe8a1a81a664bc24b8b70c76c51a3d192e819d6990624f40e3585106aa070,
      0x19a4c1161e376c082748774c34b0bcb5391c0cb34ed8aa4a5b9cca4f682e6ff3,
      0x748f82ee78a5636f84c878148cc7020890befffaa4506cebbef9a3f7c67178f2])"

definition sha_H0 :: "w32 list" where
  "sha_H0 = row_words 0x6a09e667bb67ae853c6ef372a54ff53a510e527f9b05688c1f83d9ab5be0cd19"

definition rotr :: "nat \<Rightarrow> w32 \<Rightarrow> w32" where
  "rotr n x = word_rotr n x"

definition word_of_bytes :: "bytes \<Rightarrow> w32" where
  "word_of_bytes b = of_nat (foldl (\<lambda>a c. a * 256 + byte_of c) 0 b)"

definition be64 :: "nat \<Rightarrow> bytes" where
  "be64 n = map (\<lambda>k. char_of (n div 256 ^ k mod 256)) [7, 6, 5, 4, 3, 2, 1, 0]"

text \<open>The message padded to a multiple of 64 bytes.\<close>

definition sha_pad :: "bytes \<Rightarrow> bytes" where
  "sha_pad m = m @ [CHR 0x80] @ replicate ((55 + 64 - length m mod 64) mod 64) (CHR 0x00) @ be64 (8 * length m)"

fun chunks :: "nat \<Rightarrow> bytes \<Rightarrow> bytes list" where
  "chunks n b = (if b = [] \<or> n = 0 then [] else take n b # chunks n (drop n b))"

declare chunks.simps [simp del]

definition sig0 :: "w32 \<Rightarrow> w32" where "sig0 x = rotr 7 x XOR rotr 18 x XOR drop_bit 3 x"
definition sig1 :: "w32 \<Rightarrow> w32" where "sig1 x = rotr 17 x XOR rotr 19 x XOR drop_bit 10 x"
definition Sig0 :: "w32 \<Rightarrow> w32" where "Sig0 x = rotr 2 x XOR rotr 13 x XOR rotr 22 x"
definition Sig1 :: "w32 \<Rightarrow> w32" where "Sig1 x = rotr 6 x XOR rotr 11 x XOR rotr 25 x"

text \<open>The schedule is extended at the end of a list that holds the last 16 words in reverse.\<close>

fun schedule :: "nat \<Rightarrow> w32 list \<Rightarrow> w32 list" where
  "schedule 0 w = rev w"
| "schedule (Suc n) w = schedule n ((sig1 (w ! 1) + w ! 6 + sig0 (w ! 14) + w ! 15) # w)"

fun sha_round :: "w32 list \<Rightarrow> w32 \<times> w32 \<Rightarrow> w32 list" where
  "sha_round [a, b, c, d, e, f, g, h] (k, w) =
     (let t1 = h + Sig1 e + ((e AND f) XOR (NOT e AND g)) + k + w;
          t2 = Sig0 a + ((a AND b) XOR (a AND c) XOR (b AND c))
      in [t1 + t2, a, b, c, d + t1, e, f, g])"
| "sha_round st kw = st"

definition sha_block :: "w32 list \<Rightarrow> bytes \<Rightarrow> w32 list" where
  "sha_block st b =
     (let ws = schedule 48 (rev (map word_of_bytes (chunks 4 b)))
      in map2 (+) st (foldl sha_round st (zip sha_K ws)))"

definition hex_digit :: "nat \<Rightarrow> char" where
  "hex_digit n = (if n < 10 then char_of (48 + n) else char_of (87 + n))"

definition hex_word :: "w32 \<Rightarrow> string" where
  "hex_word w = map (\<lambda>k. hex_digit (unat w div 16 ^ k mod 16)) [7, 6, 5, 4, 3, 2, 1, 0]"

text \<open>\<open>fmt.Sprintf("%x", hasher.Sum(nil))\<close> after writing \<open>m\<close>.\<close>

definition sha256_hex :: "bytes \<Rightarrow> string" where
  "sha256_hex m = concat (map hex_word (foldl sha_block sha_H0 (chunks 64 (sha_pad m))))"

lemma length_sha_round: "length st = 8 \<Longrightarrow> length (sha_round st kw) = 8"
  by (induction st kw rule: sha_round.induct) (simp_all add: Let_def)

lemma length_sha_block: "length st = 8 \<Longrightarrow> length (sha_block st b) = 8"
proof -
  assume st: "length st = 8"
  have "length (foldl sha_round st' kws) = 8" if "length st' = 8" for st' kws
    using that by (induction kws arbitrary: st') (simp_all add: length_sha_round)
  with st show ?thesis by (simp add: sha_block_def Let_def)
qed

text \<open>A digest has 64 hexadecimal digits.\<close>

lemma length_sha256_hex: "length (sha256_hex m) = 64"
proof -
  have "length (foldl sha_block st bs) = 8" if "length st = 8" for st bs
    using that by (induction bs arbitrary: st) (simp_all add: length_sha_block)
  moreover have "length (concat (map hex_word ws)) = 8 * length ws" for ws
    by (induction ws) (simp_all add: hex_word_def)
  ultimately show ?thesis by (simp add: sha256_hex_def sha_H0_def)
qed

end
