(* ===== verification/Model_Transfer.thy ===== *)
theory Model_Transfer
  imports Control_Plane Go_Sha256
begin

section \<open>Transfer of model files\<close>

text \<open>
  Models \<open>internal/control-plane/api/grpc/registry/model_transfer.go\<close> (the streaming calls
  \<open>DownloadModel\<close> and \<open>UploadModel\<close>) and \<open>internal/common/modelpath/modelpath.go\<close>. The disk is
  a map from paths to contents. A stream that the server sends is the list of the messages
  that were sent; a stream it receives is the list of what \<open>Recv\<close> returns, the end of the
  list being the end of the stream. Faults of the disk and of the connection are parameters.
\<close>

subsection \<open>Paths of models\<close>

datatype PathType = Local | Network

definition networkPrefixes :: "string list" where
  "networkPrefixes = [''http://'', ''https://'', ''s3://'', ''gs://'', ''az://'']"

definition Classify :: "string \<Rightarrow> PathType" where
  "Classify path =
     (let lower = ToLower (TrimSpace path)
      in if \<exists>prefix \<in> set networkPrefixes. HasPrefix lower prefix then Network else Local)"

definition IsNetworkPath :: "string \<Rightarrow> bool" where
  "IsNetworkPath path \<longleftrightarrow> Classify path = Network"


subsection \<open>Download\<close>

definition chunkSize :: nat where "chunkSize = 2 * 1024 * 1024"

text \<open>What can go wrong in a round of the loop: before the read, at the read, at the send.\<close>

datatype dl_fault = ClientCancelled error | ReadFailed error | SendFailed error

function download_loop :: "(nat \<Rightarrow> dl_fault option) \<Rightarrow> nat \<Rightarrow> bytes \<Rightarrow> int \<Rightarrow> ModelChunk list \<times> status option" where
  "download_loop fault k rest off =
     (case fault k of
        Some (ClientCancelled e) \<Rightarrow> ([], Some (Canceled, ''client cancelled: '' @ e))
      | Some (ReadFailed e) \<Rightarrow> ([], Some (Internal, ''error reading model file: '' @ e))
      | f \<Rightarrow>
          if rest = [] then ([], None)
          else
            (case f of
               Some (SendFailed e) \<Rightarrow> ([], Some (Unknown, ''stream send failed at offset '' @ Itoa off @ '': '' @ e))
             | _ \<Rightarrow>
                 (case download_loop fault (Suc k) (drop chunkSize rest) (off + int (length (take chunkSize rest))) of
                    (cs, r) \<Rightarrow> (\<lparr>ck_ChunkData = take chunkSize rest, ck_ChunkOffset = off\<rparr> # cs, r))))"
  by pat_completeness auto
termination
  by (relation "measure (\<lambda>(f, k, rest, off). length rest)") (auto simp: chunkSize_def)

declare download_loop.simps [simp del]

definition DownloadModel ::
    "(nat \<Rightarrow> dl_fault option) \<Rightarrow> error option \<Rightarrow> (string \<rightharpoonup> bytes) \<Rightarrow> ModelDownloadRequest option \<Rightarrow> Store
      \<Rightarrow> ModelChunk list \<times> status option" where
  "DownloadModel fault dl_seek_err files req s =
     (case req of
        None \<Rightarrow> ([], Some (InvalidArgument, ''model_id cannot be empty''))
      | Some q \<Rightarrow>
          if dl_ModelId q = [] then ([], Some (InvalidArgument, ''model_id cannot be empty''))
          else
            (case GetModelByID (dl_ModelId q) s of
               Inl e \<Rightarrow> ([], Some (Internal, ''failed to look up model: '' @ e))
             | Inr None \<Rightarrow> ([], Some (NotFound, ''model '' @ Quote (dl_ModelId q) @ '' not found in registry''))
             | Inr (Some info) \<Rightarrow>
                 (let filePath = Clean (m_FilePath info) in
                  case files filePath of
                    None \<Rightarrow> ([], Some (Internal, ''failed to open model file '' @ Quote filePath @ '': no such file or directory''))
                  | Some content \<Rightarrow>
                      (let offset = dl_ResumeByteOffset q in
                       if 0 < offset
                       then (case dl_seek_err of
                               Some e \<Rightarrow> ([], Some (Internal, ''failed to seek to offset '' @ Itoa offset @ '': '' @ e))
                             | None \<Rightarrow> download_loop fault 0 (drop (nat offset) content) offset)
                       else download_loop fault 0 content offset))))"


subsection \<open>Upload\<close>

datatype recv = Msg ModelUploadChunk | RecvErr error

record up_io =
  ui_mkdir_err :: "error option"
  ui_create_err :: "error option"
  ui_write_err :: "nat \<Rightarrow> error option"
  ui_abs_err :: "error option"
  ui_rename_err :: "error option"
  ui_send_err :: "status option"

definition up_ok :: up_io where
  "up_ok = \<lparr>ui_mkdir_err = None, ui_create_err = None, ui_write_err = (\<lambda>k. None), ui_abs_err = None,
     ui_rename_err = None, ui_send_err = None\<rparr>"

text \<open>Step 1: the checks of the metadata message; the result is the trimmed name and hash and the size.\<close>

definition check_metadata :: "recv list \<Rightarrow> status + string \<times> string \<times> int" where
  "check_metadata msgs =
     (case msgs of
        [] \<Rightarrow> Inl (Internal, ''failed to receive first message: EOF'')
      | RecvErr e # _ \<Rightarrow> Inl (Internal, ''failed to receive first message: '' @ e)
      | Msg m # _ \<Rightarrow>
          (case uc_Content m of
             Some (CMetadata meta) \<Rightarrow>
               (let filename = TrimSpace (up_Filename meta);
                    expectedHash = TrimSpace (up_Sha256Hash meta);
                    declaredSize = up_TotalSize meta
                in if filename = [] then Inl (InvalidArgument, ''metadata.filename cannot be empty'')
                   else if \<not> HasSuffix (ToLower filename) ''.onnx''
                   then Inl (InvalidArgument, ''filename '' @ Quote filename @ '' must have an .onnx extension'')
                   else if expectedHash = [] then Inl (InvalidArgument, ''metadata.sha256_hash cannot be empty'')
                   else if declaredSize \<le> 0 then Inl (InvalidArgument, ''metadata.total_size must be greater than zero'')
                   else Inr (filename, expectedHash, declaredSize))
           | _ \<Rightarrow> Inl (InvalidArgument, ''first message must contain ModelUploadMetadata'')))"

text \<open>Step 3: the loop over the data messages; \<open>k = 0\<close> is the first one, whose first byte is inspected.\<close>

fun recv_chunks :: "(nat \<Rightarrow> error option) \<Rightarrow> nat \<Rightarrow> recv list \<Rightarrow> bytes \<Rightarrow> status + bytes" where
  "recv_chunks w k [] acc = Inr acc"
| "recv_chunks w k (RecvErr e # msgs) acc = Inl (Internal, ''stream receive error: '' @ e)"
| "recv_chunks w k (Msg m # msgs) acc =
     (case uc_Content m of
        Some (CChunkData d) \<Rightarrow>
          if k = 0 \<and> length d < 2
          then Inl (InvalidArgument, ''first data chunk too small to validate as ONNX'')
          else if k = 0 \<and> byte_of (hd d) mod 8 \<in> {6, 7}
          then Inl (InvalidArgument, ''file does not appear to be a valid ONNX model: invalid protobuf wire type ''
                      @ Itoa (int (byte_of (hd d) mod 8)) @ '' in first byte'')
          else
            (case w k of
               Some e \<Rightarrow> Inl (Internal, ''failed to write chunk at offset '' @ Itoa (uc_ChunkOffset m) @ '': '' @ e)
             | None \<Rightarrow> recv_chunks w (Suc k) msgs (acc @ d))
      | _ \<Rightarrow> Inl (InvalidArgument, ''subsequent messages must carry chunk_data, not metadata''))"

text \<open>Steps 4 and 5.\<close>

definition check_content :: "bytes \<Rightarrow> string \<Rightarrow> int \<Rightarrow> status option" where
  "check_content content expectedHash declaredSize =
     (if int (length content) \<noteq> declaredSize
      then Some (DataLoss, ''upload size mismatch: received '' @ Itoa (int (length content)) @ '' bytes, expected '' @ Itoa declaredSize)
      else if sha256_hex content \<noteq> expectedHash
      then Some (DataLoss, ''SHA256 mismatch: got '' @ sha256_hex content @ '', expected '' @ expectedHash)
      else None)"

definition temp_path :: "string \<Rightarrow> string \<Rightarrow> string" where
  "temp_path modelDir uuid = path_Join [modelDir, uuid @ ''.uploading'']"

definition final_path :: "string \<Rightarrow> string \<Rightarrow> string \<Rightarrow> string" where
  "final_path wd modelDir filename = Abs wd (path_Join [modelDir, Base filename])"

text \<open>
  The whole handler. From the creation of the temporary file on, every failure goes through
  the deferred clean-up that removes it.
\<close>

definition UploadModel ::
    "up_io \<Rightarrow> string \<Rightarrow> string \<Rightarrow> string \<Rightarrow> recv list \<Rightarrow> (string \<rightharpoonup> bytes)
      \<Rightarrow> ModelUploadResponse reply \<times> (string \<rightharpoonup> bytes)" where
  "UploadModel x uuid wd modelDir msgs files =
     (case check_metadata msgs of
        Inl st \<Rightarrow> ((None, Some st), files)
      | Inr (filename, expectedHash, declaredSize) \<Rightarrow>
          (case ui_mkdir_err x of
             Some e \<Rightarrow> (err_reply Internal (''failed to create model directory: '' @ e), files)
           | None \<Rightarrow>
          (case ui_create_err x of
             Some e \<Rightarrow> (err_reply Internal (''failed to create temp file: '' @ e), files)
           | None \<Rightarrow>
          (let tempPath = temp_path modelDir uuid; removed = files(tempPath := None) in
           case recv_chunks (ui_write_err x) 0 (tl msgs) [] of
             Inl st \<Rightarrow> ((None, Some st), removed)
           | Inr content \<Rightarrow>
          (case check_content content expectedHash declaredSize of
             Some st \<Rightarrow> ((None, Some st), removed)
           | None \<Rightarrow>
          (case ui_abs_err x of
             Some e \<Rightarrow> (err_reply Internal (''failed to resolve final path: '' @ e), removed)
           | None \<Rightarrow>
          (case ui_rename_err x of
             Some e \<Rightarrow> (err_reply Internal (''failed to commit model file: '' @ e), removed)
           | None \<Rightarrow>
               (let finalPath = final_path wd modelDir filename in
                ((case ui_send_err x of
                    Some st \<Rightarrow> (None, Some st)
                  | None \<Rightarrow>
                      ok_reply \<lparr>ur_Success = True, ur_FilePath = finalPath,
                        ur_Message = ''model '' @ Quote (Base filename) @ '' uploaded successfully ('' @ Itoa (int (length content)) @ '' bytes)''\<rparr>),
                 removed(finalPath \<mapsto> content))))))))))"


subsection \<open>Properties of the download\<close>

definition next_round :: "(nat \<Rightarrow> dl_fault option) \<Rightarrow> nat \<Rightarrow> bytes \<Rightarrow> int \<Rightarrow> ModelChunk list \<times> status option" where
  "next_round f k rest off = download_loop f (Suc k) (drop chunkSize rest) (off + int (length (take chunkSize rest)))"

lemma download_loop_step:
  "(\<exists>st. download_loop f k rest off = ([], st) \<and> (st = None \<longrightarrow> rest = [])) \<or>
   (rest \<noteq> [] \<and> download_loop f k rest off =
      (\<lparr>ck_ChunkData = take chunkSize rest, ck_ChunkOffset = off\<rparr> # fst (next_round f k rest off), snd (next_round f k rest off)))"
  using download_loop.simps [of f k rest off] unfolding next_round_def
  by (auto split: option.splits dl_fault.splits prod.splits if_splits)

lemma download_loop_cases:
  obtains (stop) st where "download_loop f k rest off = ([], st)" "st = None \<Longrightarrow> rest = []"
  | (chunk) "length (drop chunkSize rest) < length rest" "download_loop f k rest off =
      (\<lparr>ck_ChunkData = take chunkSize rest, ck_ChunkOffset = off\<rparr> # fst (next_round f k rest off), snd (next_round f k rest off))"
proof -
  have "length (drop chunkSize rest) < length rest" if "rest \<noteq> []" using that by (simp add: chunkSize_def)
  with download_loop_step [of f k rest off] that show thesis by blast
qed

definition data_of :: "ModelChunk list \<Rightarrow> bytes" where
  "data_of cs = concat (map ck_ChunkData cs)"

fun contiguous :: "int \<Rightarrow> ModelChunk list \<Rightarrow> bool" where
  "contiguous off [] = True"
| "contiguous off (c # cs) \<longleftrightarrow> ck_ChunkOffset c = off \<and> ck_ChunkData c \<noteq> [] \<and> length (ck_ChunkData c) \<le> chunkSize \<and>
     contiguous (off + int (length (ck_ChunkData c))) cs"

lemma chunkSize_pos [simp]: "0 < chunkSize"
  by (simp add: chunkSize_def)

lemma download_loop_contiguous: "contiguous off (fst (download_loop f k rest off))"
proof (induction "length rest" arbitrary: rest k off rule: less_induct)
  case less
  show ?case
  proof (cases rule: download_loop_cases [of f k rest off])
    case chunk
    from less [OF chunk(1)] have "contiguous (off + int (length (take chunkSize rest))) (fst (next_round f k rest off))"
      unfolding next_round_def .
    moreover have "take chunkSize rest \<noteq> []" using chunk(1) by auto
    ultimately show ?thesis unfolding chunk(2) by simp
  qed simp
qed

lemma download_loop_prefix:
  "\<exists>more. rest = data_of (fst (download_loop f k rest off)) @ more \<and>
     (snd (download_loop f k rest off) = None \<longrightarrow> more = [])"
proof (induction "length rest" arbitrary: rest k off rule: less_induct)
  case less
  show ?case
  proof (cases rule: download_loop_cases [of f k rest off])
    case (stop st)
    then show ?thesis by (auto simp: data_of_def)
  next
    case chunk
    from less [OF chunk(1)] have "\<exists>more. drop chunkSize rest = data_of (fst (next_round f k rest off)) @ more \<and>
        (snd (next_round f k rest off) = None \<longrightarrow> more = [])" unfolding next_round_def .
    then obtain more where m: "drop chunkSize rest = data_of (fst (next_round f k rest off)) @ more"
      "snd (next_round f k rest off) = None \<longrightarrow> more = []" by (elim exE conjE) (rule that)
    have "rest = take chunkSize rest @ data_of (fst (next_round f k rest off)) @ more"
      unfolding m(1) [symmetric] by simp
    then have "rest = data_of (fst (download_loop f k rest off)) @ more" unfolding chunk(2) by (simp add: data_of_def)
    with m(2) chunk(2) show ?thesis by (intro exI [of _ more]) simp
  qed
qed

lemma download_loop_ok: "snd (download_loop (\<lambda>k. None) k rest off) = None"
proof (induction "length rest" arbitrary: rest k off rule: less_induct)
  case less
  show ?case
  proof (cases "rest = []")
    case True
    then show ?thesis by (subst download_loop.simps) simp
  next
    case False
    then have "length (drop chunkSize rest) < length rest" by simp
    from less [OF this] have "snd (next_round (\<lambda>k. None) k rest off) = None" unfolding next_round_def .
    with False show ?thesis by (subst download_loop.simps) (auto simp: next_round_def split: prod.splits)
  qed
qed

text \<open>A request for a registered model whose file is on disk.\<close>

definition serves :: "Store \<Rightarrow> (string \<rightharpoonup> bytes) \<Rightarrow> string \<Rightarrow> bytes \<Rightarrow> bool" where
  "serves s files i content \<longleftrightarrow> i \<noteq> [] \<and>
     (\<exists>m. GetModelByID i s = Inr (Some m) \<and> files (Clean (m_FilePath m)) = Some content)"

lemma DownloadModel_serves:
  assumes "serves s files i content" "0 \<le> off"
  shows "DownloadModel f None files (Some \<lparr>dl_ModelId = i, dl_ResumeByteOffset = off\<rparr>) s =
    download_loop f 0 (drop (nat off) content) off"
  using assms by (auto simp: serves_def DownloadModel_def)

text \<open>
  C22. A download that breaks can be completed. Let the first attempt be cut short by any fault
  of the disk or of the connection, at any point. The chunks it delivered are consecutive,
  at most 2 MB each, and hold a prefix of the file. Asking again from the byte after them, and
  letting that run through, succeeds, its chunks follow on without a gap, and the two parts
  together are exactly the file.
\<close>

theorem download_resumes:
  assumes "serves s files i content"
  shows "\<exists>got rest st.
    DownloadModel fault None files (Some \<lparr>dl_ModelId = i, dl_ResumeByteOffset = 0\<rparr>) s = (got, st) \<and>
    DownloadModel (\<lambda>k. None) None files (Some \<lparr>dl_ModelId = i, dl_ResumeByteOffset = int (length (data_of got))\<rparr>) s = (rest, None) \<and>
    data_of got @ data_of rest = content \<and> contiguous 0 (got @ rest)"
proof -
  obtain got st where got: "DownloadModel fault None files (Some \<lparr>dl_ModelId = i, dl_ResumeByteOffset = 0\<rparr>) s = (got, st)"
    by fastforce
  then have g: "download_loop fault 0 content 0 = (got, st)" using DownloadModel_serves [OF assms, of 0 fault] by simp
  let ?n = "length (data_of got)"
  have c: "contiguous 0 got" using download_loop_contiguous [of 0 fault 0 content] g by simp
  from download_loop_prefix [of content fault 0 0] g obtain more where more: "content = data_of got @ more" by auto
  obtain rest where rest: "download_loop (\<lambda>k. None) 0 more (int ?n) = (rest, None)"
    using download_loop_ok [of 0 more "int ?n"] by (metis prod.collapse)
  have "DownloadModel (\<lambda>k. None) None files (Some \<lparr>dl_ModelId = i, dl_ResumeByteOffset = int ?n\<rparr>) s = (rest, None)"
    using DownloadModel_serves [OF assms, of "int ?n" "\<lambda>k. None"] more rest by simp
  moreover have "more = data_of rest" using download_loop_prefix [of more "\<lambda>k. None" 0 "int ?n"] rest by auto
  moreover have "contiguous off (as @ bs) \<longleftrightarrow> contiguous off as \<and> contiguous (off + int (length (data_of as))) bs" for off as bs
    by (induction as arbitrary: off) (simp_all add: data_of_def add.assoc)
  then have "contiguous 0 (got @ rest)"
    using c download_loop_contiguous [of "int ?n" "\<lambda>k. None" 0 more] rest by simp
  ultimately show ?thesis using got more by blast
qed

definition demo_files :: "string \<rightharpoonup> bytes" where
  "demo_files = [''.'' \<mapsto> ''weights'']"

lemma demo_serves: "serves demo_store1 demo_files ''m1'' ''weights''"
proof -
  have "Clean [] = ''.''" by (simp add: Clean_def clean_step_def HasPrefix_def)
  moreover have "model_rows_ok demo_store1" using demo_store1_facts(1) by (simp add: registry_inv_def)
  then have "GetModelByID ''m1'' demo_store1 = Inr (Some (norm_ModelInfo (demo_model\<lparr>m_ID := ''m1''\<rparr>)))"
    by (simp add: GetModelByID_at demo_store1_facts)
  ultimately show ?thesis
    by (simp add: serves_def norm_ModelInfo_def demo_model_def zero_ModelInfo_def demo_files_def)
qed

theorem download_resumes_witness:
  "\<exists>got rest st.
    DownloadModel (\<lambda>k. Some (SendFailed ''broken'')) None demo_files (Some \<lparr>dl_ModelId = ''m1'', dl_ResumeByteOffset = 0\<rparr>) demo_store1
      = (got, st) \<and>
    DownloadModel (\<lambda>k. None) None demo_files (Some \<lparr>dl_ModelId = ''m1'', dl_ResumeByteOffset = int (length (data_of got))\<rparr>) demo_store1
      = (rest, None) \<and>
    data_of got @ data_of rest = ''weights'' \<and> contiguous 0 (got @ rest)"
  by (rule download_resumes [OF demo_serves])


subsection \<open>Properties of the upload\<close>

text \<open>The bytes of a stream of data messages, if it holds nothing else.\<close>

fun stream_data :: "recv list \<Rightarrow> bytes list option" where
  "stream_data [] = Some []"
| "stream_data (Msg m # msgs) =
     (case uc_Content m of Some (CChunkData d) \<Rightarrow> map_option (\<lambda>ds. d # ds) (stream_data msgs) | _ \<Rightarrow> None)"
| "stream_data (RecvErr e # msgs) = None"

definition onnx_start :: "bytes list \<Rightarrow> bool" where
  "onnx_start ds \<longleftrightarrow> (case ds of [] \<Rightarrow> True | d # _ \<Rightarrow> 2 \<le> length d \<and> byte_of (hd d) mod 8 < 6)"

text \<open>What the documentation of the handler asks of an upload.\<close>

definition acceptable :: "recv list \<Rightarrow> string \<Rightarrow> bytes \<Rightarrow> bool" where
  "acceptable msgs filename content \<longleftrightarrow>
     (\<exists>m meta rest ds. msgs = Msg m # rest \<and> uc_Content m = Some (CMetadata meta) \<and>
        filename = TrimSpace (up_Filename meta) \<and> HasSuffix (ToLower filename) ''.onnx'' \<and>
        stream_data rest = Some ds \<and> content = concat ds \<and> onnx_start ds \<and>
        0 < up_TotalSize meta \<and> int (length content) = up_TotalSize meta \<and>
        sha256_hex content = TrimSpace (up_Sha256Hash meta))"

lemma recv_chunks_later:
  "recv_chunks (\<lambda>k. None) (Suc k) msgs acc =
     (case stream_data msgs of Some ds \<Rightarrow> Inr (acc @ concat ds) | None \<Rightarrow> recv_chunks (\<lambda>k. None) (Suc k) msgs acc)"
  by (induction msgs arbitrary: k acc rule: stream_data.induct) (auto split: option.splits upload_content.splits)

lemma recv_chunks_later_bad:
  "stream_data msgs = None \<Longrightarrow> \<exists>st. recv_chunks w (Suc k) msgs acc = Inl st"
  by (induction msgs arbitrary: k acc rule: stream_data.induct) (auto split: option.splits upload_content.splits)

lemma mod8_cases: "(n::nat) mod 8 \<in> {6, 7} \<longleftrightarrow> \<not> n mod 8 < 6"
proof -
  have "n mod 8 < 8" by simp
  then show ?thesis by auto
qed

lemma recv_chunks_Inr:
  "recv_chunks (\<lambda>k. None) 0 msgs [] = Inr content \<longleftrightarrow>
     (\<exists>ds. stream_data msgs = Some ds \<and> onnx_start ds \<and> content = concat ds)"
proof (cases msgs)
  case (Cons r rest)
  show ?thesis
  proof (cases r)
    case (Msg m)
    show ?thesis
    proof (cases "\<exists>d. uc_Content m = Some (CChunkData d)")
      case True
      then obtain d where d: "uc_Content m = Some (CChunkData d)" by blast
      show ?thesis
      proof (cases "stream_data rest")
        case None
        with recv_chunks_later_bad [OF None, of "\<lambda>k. None" 0 d] show ?thesis
          by (auto simp: Cons Msg d)
      next
        case (Some ds)
        with recv_chunks_later [of 0 rest d] show ?thesis
          by (auto simp: Cons Msg d onnx_start_def mod8_cases)
      qed
    next
      case False
      then show ?thesis by (auto simp: Cons Msg split: option.splits upload_content.splits)
    qed
  qed (simp add: Cons)
qed (auto simp: onnx_start_def)

lemma sha_not_blank [simp]: "sha256_hex c \<noteq> []"
  using length_sha256_hex [of c] by (metis list.size(3) zero_neq_numeral)

lemma check_metadata_Inr:
  "check_metadata msgs = Inr (f, h, n) \<longleftrightarrow>
     (\<exists>m meta rest. msgs = Msg m # rest \<and> uc_Content m = Some (CMetadata meta) \<and> f = TrimSpace (up_Filename meta) \<and>
        f \<noteq> [] \<and> HasSuffix (ToLower f) ''.onnx'' \<and> h = TrimSpace (up_Sha256Hash meta) \<and> h \<noteq> [] \<and>
        n = up_TotalSize meta \<and> 0 < n)"
  by (cases msgs; cases "hd msgs")
     (auto simp: check_metadata_def Let_def split: option.splits upload_content.splits if_splits)

lemma acceptableE:
  assumes "acceptable msgs f c"
  obtains m meta rest ds where "msgs = Msg m # rest" "uc_Content m = Some (CMetadata meta)"
    "f = TrimSpace (up_Filename meta)" "HasSuffix (ToLower f) ''.onnx''" "stream_data rest = Some ds" "c = concat ds"
    "0 < up_TotalSize meta" "sha256_hex c = TrimSpace (up_Sha256Hash meta)"
  using assms unfolding acceptable_def by (elim exE conjE) (rule that)

lemma HasSuffix_not_Nil: "HasSuffix (ToLower f) (c # cs) \<Longrightarrow> f \<noteq> []"
  by (auto simp: HasSuffix_def)

lemma check_content_None: "check_content c h n = None \<longleftrightarrow> int (length c) = n \<and> sha256_hex c = h"
  by (simp add: check_content_def)

lemma acceptable_steps:
  "acceptable msgs f content \<longleftrightarrow>
     (\<exists>h n. check_metadata msgs = Inr (f, h, n) \<and> recv_chunks (\<lambda>k. None) 0 (tl msgs) [] = Inr content \<and>
        check_content content h n = None)"
proof (cases "check_metadata msgs")
  case (Inl st)
  have False if "acceptable msgs f content"
  proof -
    from that obtain m meta rest where m: "msgs = Msg m # rest" "uc_Content m = Some (CMetadata meta)"
      "f = TrimSpace (up_Filename meta)" "HasSuffix (ToLower f) ''.onnx''" "0 < up_TotalSize meta"
      "sha256_hex content = TrimSpace (up_Sha256Hash meta)" by (rule acceptableE)
    moreover have "f \<noteq> []" using m(4) by (rule HasSuffix_not_Nil)
    moreover have "TrimSpace (up_Sha256Hash meta) \<noteq> []" unfolding m(6) [symmetric] by simp
    ultimately show False using Inl by (simp add: check_metadata_def Let_def)
  qed
  then show ?thesis using Inl by auto
next
  case (Inr a)
  obtain f' h n where a: "a = (f', h, n)" by (cases a)
  from Inr a obtain m meta rest where m: "msgs = Msg m # rest" "uc_Content m = Some (CMetadata meta)"
    "f' = TrimSpace (up_Filename meta)" "HasSuffix (ToLower f') ''.onnx''" "h = TrimSpace (up_Sha256Hash meta)"
    "n = up_TotalSize meta" "0 < n"
    by (simp add: check_metadata_Inr) (elim exE conjE, rule that)
  from m(2-) show ?thesis
    unfolding acceptable_def Inr [unfolded a] recv_chunks_Inr by (auto simp: m(1) check_content_None)
qed

lemma UploadModel_accepts:
  assumes "acceptable msgs f c" and "files (temp_path modelDir uuid) = None"
  shows "UploadModel up_ok uuid wd modelDir msgs files =
    (ok_reply \<lparr>ur_Success = True, ur_FilePath = final_path wd modelDir f,
       ur_Message = ''model '' @ Quote (Base f) @ '' uploaded successfully ('' @ Itoa (int (length c)) @ '' bytes)''\<rparr>,
     files(final_path wd modelDir f \<mapsto> c))"
proof -
  obtain h n where "check_metadata msgs = Inr (f, h, n)" "recv_chunks (\<lambda>k. None) 0 (tl msgs) [] = Inr c"
    "check_content c h n = None"
    using assms(1) unfolding acceptable_steps by (elim exE conjE) (rule that)
  with assms(2) show ?thesis by (simp add: UploadModel_def up_ok_def Let_def fun_upd_idem)
qed

lemma UploadModel_rejects:
  assumes "\<And>f c. \<not> acceptable msgs f c" and "files (temp_path modelDir uuid) = None"
  obtains st where "UploadModel up_ok uuid wd modelDir msgs files = ((None, Some st), files)"
proof -
  have rm: "files(temp_path modelDir uuid := None) = files" using assms(2) by (simp add: fun_upd_idem)
  have "\<exists>st. UploadModel up_ok uuid wd modelDir msgs files = ((None, Some st), files)"
  proof (cases "check_metadata msgs")
    case (Inl st)
    then show ?thesis by (simp add: UploadModel_def)
  next
    case (Inr a)
    obtain f h n where a: "a = (f, h, n)" by (cases a)
    show ?thesis
    proof (cases "recv_chunks (\<lambda>k. None) 0 (tl msgs) []")
      case (Inl st)
      with Inr a rm show ?thesis by (simp add: UploadModel_def up_ok_def Let_def)
    next
      case (Inr c)
      then have "check_content c h n \<noteq> None"
        using assms(1) [of f c] \<open>check_metadata msgs = Inr a\<close> a by (auto simp: acceptable_steps)
      with Inr \<open>check_metadata msgs = Inr a\<close> a rm show ?thesis by (auto simp: UploadModel_def up_ok_def Let_def)
    qed
  qed
  with that show thesis by blast
qed

text \<open>
  C23. What \<open>UploadModel\<close> accepts. Without a fault of disk or connection it answers with success
  exactly when the stream is acceptable: a metadata message first, with a name that ends in
  \<open>.onnx\<close>, then data messages only, the first of at least two bytes and with a wire type that
  protobuf allows, and in all the announced number of bytes with the announced SHA-256. The
  content is then the file under the final path and nothing else changed; otherwise the answer
  is an error. In both cases no temporary file is left.
\<close>

theorem UploadModel_spec:
  assumes "UploadModel up_ok uuid wd modelDir msgs files = ((rep, err), files')"
    and "files (temp_path modelDir uuid) = None"
  shows "if \<exists>f c. acceptable msgs f c
    then \<exists>f c r. acceptable msgs f c \<and> rep = Some r \<and> err = None \<and> ur_Success r \<and>
      ur_FilePath r = final_path wd modelDir f \<and> files' = files(final_path wd modelDir f \<mapsto> c)
    else rep = None \<and> err \<noteq> None \<and> files' = files"
proof (cases "\<exists>f c. acceptable msgs f c")
  case True
  then obtain f c where "acceptable msgs f c" by blast
  with True UploadModel_accepts [where files = files, OF this assms(2), of wd] assms(1) show ?thesis by auto
next
  case False
  then have no: "\<And>f c. \<not> acceptable msgs f c" by blast
  obtain st where "UploadModel up_ok uuid wd modelDir msgs files = ((None, Some st), files)"
    by (rule UploadModel_rejects [of msgs files modelDir uuid wd]) (use no assms(2) in simp_all)
  with False assms(1) show ?thesis by auto
qed

text \<open>
  C24. An upload stays in the model directory. Whatever name the client sends, if the metadata is
  accepted and the directory is given by an absolute path, the final path is a direct child of
  that directory: the directory, a slash and a name without a slash that is not a dot entry.
\<close>

theorem upload_path_confined:
  assumes "check_metadata msgs = Inr (f, h, n)" and "HasPrefix modelDir ''/''"
  shows "\<exists>b. ordinary b \<and> final_path wd modelDir f = (if elements modelDir = [] then SL # b else Clean modelDir @ SL # b)"
proof -
  have "HasSuffix (ToLower f) (CHR ''.'' # ''onnx'')" using assms(1) unfolding check_metadata_Inr by (elim exE conjE)
  then have "ordinary (Base f)" by (rule Base_ordinary) simp_all
  with Abs_child [OF assms(2) this, of wd] show ?thesis by (auto simp: final_path_def)
qed

lemma TrimSpace_no_space: "\<forall>x \<in> set xs. \<not> is_space x \<Longrightarrow> TrimSpace xs = xs"
proof -
  have "dropWhile is_space ys = ys" if "\<forall>x \<in> set ys. \<not> is_space x" for ys
    using that by (cases ys) auto
  note d = this [of xs] this [of "rev xs"]
  assume "\<forall>x \<in> set xs. \<not> is_space x"
  with d show "TrimSpace xs = xs" unfolding TrimSpace_def by (simp only: set_rev rev_rev_ident)
qed

text \<open>A digest survives \<open>TrimSpace\<close>.\<close>

lemma TrimSpace_sha: "TrimSpace (sha256_hex c) = sha256_hex c"
proof -
  have "\<not> is_space (hex_digit (n mod 16))" for n
  proof -
    have "n mod 16 < 16" by simp
    then show ?thesis by (auto simp: hex_digit_def is_space_def byte_of_def)
  qed
  then have "\<not> is_space x" if "x \<in> set (sha256_hex c)" for x
    using that by (auto simp: sha256_hex_def hex_word_def simp del: unat_div unat_mod)
  then show ?thesis by (intro TrimSpace_no_space ballI)
qed

definition demo_upload :: "recv list" where
  "demo_upload =
     [Msg \<lparr>uc_Content = Some
        (CMetadata \<lparr>up_Filename = ''../iris.onnx'', up_TotalSize = 3, up_Sha256Hash = sha256_hex ''HIJ''\<rparr>), uc_ChunkOffset = 0\<rparr>,
      Msg \<lparr>uc_Content = Some (CChunkData ''HI''), uc_ChunkOffset = 0\<rparr>,
      Msg \<lparr>uc_Content = Some (CChunkData ''J''), uc_ChunkOffset = 2\<rparr>]"

lemma demo_upload_metadata: "check_metadata demo_upload = Inr (''../iris.onnx'', sha256_hex ''HIJ'', 3)"
proof -
  have "TrimSpace ''../iris.onnx'' = ''../iris.onnx''" "HasSuffix (ToLower ''../iris.onnx'') ''.onnx''" by code_simp+
  then show ?thesis by (simp add: check_metadata_def demo_upload_def TrimSpace_sha)
qed

lemma demo_upload_acceptable: "acceptable demo_upload ''../iris.onnx'' ''HIJ''"
  unfolding acceptable_steps demo_upload_metadata
  by (simp add: demo_upload_def byte_of_def check_content_None)

theorem UploadModel_spec_witness:
  "\<exists>rep err files'.
    UploadModel up_ok ''u'' ''/'' ''/m'' demo_upload Map.empty = ((rep, err), files') \<and>
    (\<exists>f c r. acceptable demo_upload f c \<and> rep = Some r \<and> err = None \<and> ur_Success r \<and>
      ur_FilePath r = final_path ''/'' ''/m'' f \<and> files' = Map.empty(final_path ''/'' ''/m'' f \<mapsto> c))"
proof -
  obtain rep err files' where u: "UploadModel up_ok ''u'' ''/'' ''/m'' demo_upload Map.empty = ((rep, err), files')"
    by (metis prod.collapse)
  have "\<exists>f c. acceptable demo_upload f c" using demo_upload_acceptable by blast
  with u UploadModel_spec [OF u] show ?thesis by simp
qed

theorem upload_path_confined_witness:
  "\<exists>b. ordinary b \<and> final_path ''/'' ''/m'' ''../iris.onnx'' = (if elements ''/m'' = [] then SL # b else Clean ''/m'' @ SL # b)"
  by (rule upload_path_confined [OF demo_upload_metadata]) (simp add: HasPrefix_def)

end
