(* ===== verification/Overlapping_Calls.thy ===== *)
theory Overlapping_Calls
  imports Control_Plane
begin

section \<open>Overlapping calls on the node registry\<close>

text \<open>
  The server answers every call in a goroutine of its own, and the heartbeat rounds run in
  another. The mutex of the store makes one \<open>Get\<close>, \<open>Put\<close> or \<open>Delete\<close> atomic, not a whole call:
  \<open>UpdateNode\<close> reads the node, \<open>UpdateNodeInfo\<close> reads it once more, and then it writes;
  \<open>UpdateNodeStatus\<close>, which the heartbeat controller calls for a node that does not answer, reads
  and writes. Here these calls are cut at their accesses to the store. A call in progress is a
  value of \<open>node_call\<close>, \<open>call_step\<close> is its next access, and \<open>overlap\<close> interleaves any number
  of them with each other and with whole calls of the registry services.

  Left alone, a call in steps does what the handler does. Interleaved in any way, the calls keep
  the registry well formed; but what a call read first is what it writes, so that changes made
  in between are lost and a node that was deregistered in between is back.
\<close>

subsection \<open>The accesses of a call\<close>

text \<open>\<open>UpdateNode\<close> up to its first read; \<open>Inl\<close> is a call that returns here.\<close>

definition update_find :: "UpdateNodeRequest option \<Rightarrow> Store \<Rightarrow> bool reply + UpdateNodeRequest \<times> NodeInfo" where
  "update_find req s =
     (case req of
        None \<Rightarrow> Inl (err_reply InvalidArgument ''node ID cannot be empty'')
      | Some p \<Rightarrow>
          if un_NodeId p = [] then Inl (err_reply InvalidArgument ''node ID cannot be empty'')
          else
            (case GetNodeByID (un_NodeId p) s of
               Inl e \<Rightarrow> Inl (Some False, Some (Internal, e))
             | Inr None \<Rightarrow> Inl (Some False, Some (NotFound, ''node not found''))
             | Inr (Some existing) \<Rightarrow> Inr (p, existing)))"

text \<open>\<open>UpdateNodeInfo\<close> and \<open>UpdateNodeStatus\<close> up to their write: the row they are about to put.\<close>

definition update_row :: "time \<Rightarrow> string \<Rightarrow> NodeInfo \<Rightarrow> Store \<Rightarrow> bytes result" where
  "update_row now nodeID info s =
     (if nodeID = [] then Inl ''nodeID cannot be empty''
      else if n_ID info \<noteq> [] \<and> n_ID info \<noteq> nodeID
      then Inl (''node info ID '' @ Quote (n_ID info) @ '' does not match nodeID '' @ Quote nodeID)
      else
        (let info = info\<lparr>n_ID := nodeID\<rparr> in
         case GetNodeByID nodeID s of
           Inl e \<Rightarrow> Inl e
         | Inr found \<Rightarrow>
             (let info = (case found of Some existing \<Rightarrow> keep_times existing info | None \<Rightarrow> info);
                  info = info\<lparr>n_UpdatedAt := now\<rparr>;
                  info = (if IsZero (n_LastActivity info) then info\<lparr>n_LastActivity := now\<rparr> else info)
              in case marshal_NodeInfo info of
                   None \<Rightarrow> Inl ''marshal node info: unsupported value''
                 | Some b \<Rightarrow> Inr b)))"

definition status_row :: "time \<Rightarrow> string \<Rightarrow> Status \<Rightarrow> Store \<Rightarrow> bytes result" where
  "status_row now nodeID status s =
     (if nodeID = [] then Inl ''nodeID cannot be empty''
      else case getNodeRaw nodeID s of
        Inl e \<Rightarrow> Inl e
      | Inr None \<Rightarrow> Inl (''node '' @ Quote nodeID @ '' not found'')
      | Inr (Some raw) \<Rightarrow>
          (case unmarshal_NodeInfo raw of
             None \<Rightarrow> Inl ''unmarshal node info: invalid JSON''
           | Some info \<Rightarrow>
               (case marshal_NodeInfo (set_status now status info) of
                  None \<Rightarrow> Inl ''marshal updated node info: unsupported value''
                | Some b \<Rightarrow> Inr b)))"

lemma UpdateNodeInfo_cut:
  "UpdateNodeInfo x now i info s = (case update_row now i info s of Inl e \<Rightarrow> (Some e, s) | Inr b \<Rightarrow> Put x (node_prefix @ i) b s)"
proof (cases "i = [] \<or> n_ID info \<noteq> [] \<and> n_ID info \<noteq> i")
  case True
  then show ?thesis by (auto simp: UpdateNodeInfo_def update_row_def)
next
  case False
  then have g: "(i = []) = False" "(n_ID info \<noteq> [] \<and> n_ID info \<noteq> i) = False" by blast+
  show ?thesis unfolding UpdateNodeInfo_def update_row_def g if_False Let_def
    by (simp split del: if_split split: sum.split option.split)
qed

lemma UpdateNodeStatus_cut:
  "UpdateNodeStatus x now i st s = (case status_row now i st s of Inl e \<Rightarrow> (Some e, s) | Inr b \<Rightarrow> Put x (node_prefix @ i) b s)"
  by (simp add: UpdateNodeStatus_def status_row_def del: marshal_set_status split: sum.split option.split)


subsection \<open>Calls in progress\<close>

datatype node_call =
    Update_Start "UpdateNodeRequest option"
  | Update_Found UpdateNodeRequest NodeInfo
  | Update_Row string bytes
  | Replied "bool reply"
  | Round_Start hb_env
  | Round hb_env "ServiceEndpoints list" "NodeInfo list"
  | Round_Row hb_env "ServiceEndpoints list" string bytes "NodeInfo list"
  | Round_Done "error option"

text \<open>
  The replica rows are written by the heartbeat controller alone, so that a round may update those
  of a node in one step; so are the listings at its start.
\<close>

fun call_step :: "io \<Rightarrow> time \<Rightarrow> node_call \<Rightarrow> Store \<Rightarrow> node_call \<times> Store" where
  "call_step x now (Update_Start req) s =
     (case update_find req s of Inl r \<Rightarrow> (Replied r, s) | Inr (p, existing) \<Rightarrow> (Update_Found p existing, s))"
| "call_step x now (Update_Found p existing) s =
     (case update_row now (un_NodeId p) (updateRequestToStoreNodeInfo p existing) s of
        Inl e \<Rightarrow> (Replied (Some False, Some (Internal, e)), s)
      | Inr b \<Rightarrow> (Update_Row (un_NodeId p) b, s))"
| "call_step x now (Update_Row i b) s =
     (case Put x (node_prefix @ i) b s of
        (Some e, s') \<Rightarrow> (Replied (Some False, Some (Internal, e)), s')
      | (None, s') \<Rightarrow> (Replied (ok_reply True), s'))"
| "call_step x now (Replied r) s = (Replied r, s)"
| "call_step x now (Round_Start env) s =
     (case ListNodesByStatuses (hb_ord_nodes env) [StatusOnline, StatusUnknown] s of
        Inl e \<Rightarrow> (Round_Done (Some e), s)
      | Inr nodes \<Rightarrow> (Round env (round_endpoints env s) nodes, s))"
| "call_step x now (Round env eps []) s = (Round_Done None, s)"
| "call_step x now (Round env eps (node # nodes)) s =
     (case CallHeartbeat (hb_rpc env) node eps of
        Inl e \<Rightarrow>
          (case status_row (hb_status_now env (n_ID node)) (n_ID node)
                  (if stale (hb_check_now env (n_ID node)) node then StatusOffline else StatusUnknown) s of
             Inl e \<Rightarrow> (Round env eps nodes, s)
           | Inr b \<Rightarrow> (Round_Row env eps (n_ID node) b nodes, s))
      | Inr resp \<Rightarrow>
          (Round env eps nodes,
           update_replicas (hb_replica_now env (n_ID node)) (hb_replica_io env (n_ID node)) resp (n_AssignedModels node) 0 s))"
| "call_step x now (Round_Row env eps i b nodes) s =
     (Round env eps nodes, snd (Put (hb_status_io env i) (node_prefix @ i) b s))"
| "call_step x now (Round_Done e) s = (Round_Done e, s)"

definition alone :: "io \<Rightarrow> time \<Rightarrow> nat \<Rightarrow> node_call \<times> Store \<Rightarrow> node_call \<times> Store" where
  "alone x now k = ((\<lambda>(c, s). call_step x now c s) ^^ k)"

lemma alone_0 [simp]: "alone x now 0 cs = cs"
  by (simp add: alone_def)

lemma alone_Suc [simp]: "alone x now (Suc k) (c, s) = alone x now k (call_step x now c s)"
  by (simp add: alone_def funpow_swap1)

lemma alone_round:
  "\<exists>k. alone x now k (Round env eps nodes, s) = (Round_Done None, heartbeat_nodes env eps nodes s)"
proof (induction nodes arbitrary: s)
  case Nil
  have "alone x now (Suc 0) (Round env eps [], s) = (Round_Done None, heartbeat_nodes env eps [] s)"
    by (simp del: One_nat_def)
  then show ?case ..
next
  case (Cons node nodes)
  obtain k where k: "alone x now k (Round env eps nodes, heartbeat_node env eps node s) =
      (Round_Done None, heartbeat_nodes env eps nodes (heartbeat_node env eps node s))" using Cons.IH by blast
  have "\<exists>j. alone x now (j + k) (Round env eps (node # nodes), s) =
      alone x now k (Round env eps nodes, heartbeat_node env eps node s)"
  proof (cases "CallHeartbeat (hb_rpc env) node eps")
    case (Inr resp)
    then have "call_step x now (Round env eps (node # nodes)) s = (Round env eps nodes, heartbeat_node env eps node s)"
      by (simp add: heartbeat_node_def)
    then show ?thesis by (intro exI [of _ 1]) simp
  next
    case (Inl e)
    let ?row = "status_row (hb_status_now env (n_ID node)) (n_ID node)
      (if stale (hb_check_now env (n_ID node)) node then StatusOffline else StatusUnknown) s"
    show ?thesis
    proof (cases ?row)
      case (Inl e')
      with \<open>CallHeartbeat (hb_rpc env) node eps = Inl e\<close>
      have "call_step x now (Round env eps (node # nodes)) s = (Round env eps nodes, heartbeat_node env eps node s)"
        by (auto simp: heartbeat_node_def UpdateNodeStatus_cut)
      then show ?thesis by (intro exI [of _ 1]) simp
    next
      case (Inr b)
      with \<open>CallHeartbeat (hb_rpc env) node eps = Inl e\<close>
      have "call_step x now (Round env eps (node # nodes)) s = (Round_Row env eps (n_ID node) b nodes, s)"
        "call_step x now (Round_Row env eps (n_ID node) b nodes) s = (Round env eps nodes, heartbeat_node env eps node s)"
        by (auto simp: heartbeat_node_def UpdateNodeStatus_cut split: if_splits)
      then show ?thesis by (intro exI [of _ 2]) (simp add: numeral_2_eq_2)
    qed
  qed
  with k show ?case by auto
qed

text \<open>
  C14. Without interference the steps are the call. The three steps of \<open>UpdateNode\<close> that run with
  no other call in between give the reply and the store of the handler, on every branch; and the
  steps of a heartbeat round give what the round gives.
\<close>

theorem alone_is_atomic:
  "alone x now 3 (Update_Start req, s) = (case srv_UpdateNode x now req s of (r, s') \<Rightarrow> (Replied r, s')) \<and>
   (\<exists>k. alone x now k (Round_Start env, s) = (case HandleHeartbeat env s of (e, s') \<Rightarrow> (Round_Done e, s')))"
proof
  show "alone x now 3 (Update_Start req, s) = (case srv_UpdateNode x now req s of (r, s') \<Rightarrow> (Replied r, s'))"
    by (auto simp: numeral_3_eq_3 update_find_def srv_UpdateNode_def UpdateNodeInfo_cut split: option.split sum.split prod.split)
  show "\<exists>k. alone x now k (Round_Start env, s) = (case HandleHeartbeat env s of (e, s') \<Rightarrow> (Round_Done e, s'))"
  proof (cases "ListNodesByStatuses (hb_ord_nodes env) [StatusOnline, StatusUnknown] s")
    case (Inl e)
    then show ?thesis by (intro exI [of _ 1]) (simp add: HandleHeartbeat_def)
  next
    case (Inr nodes)
    obtain k where "alone x now k (Round env (round_endpoints env s) nodes, s) =
        (Round_Done None, heartbeat_nodes env (round_endpoints env s) nodes s)" using alone_round by blast
    with Inr show ?thesis by (intro exI [of _ "Suc k"]) (simp add: HandleHeartbeat_def)
  qed
qed


subsection \<open>Interleavings\<close>

inductive overlap :: "node_call list \<times> Store \<Rightarrow> node_call list \<times> Store \<Rightarrow> bool" where
  update: "pred_option wf_UpdateNode q \<Longrightarrow> overlap (cs, s) (cs @ [Update_Start q], s)"
| round: "env_ok env \<Longrightarrow> overlap (cs, s) (cs @ [Round_Start env], s)"
| advance: "k < length cs \<Longrightarrow> in_int64 now \<Longrightarrow> call_step x now (cs ! k) s = (c, s') \<Longrightarrow> overlap (cs, s) (cs[k := c], s')"
| whole: "cp_step s s' \<Longrightarrow> overlap (cs, s) (cs, s')"

inductive_cases overlapE: "overlap (cs, s) st"

text \<open>A row that may be written at any time: a node with its identifier and one of the statuses.\<close>

definition row_ok :: "Status set \<Rightarrow> string \<Rightarrow> bytes \<Rightarrow> bool" where
  "row_ok A i b \<longleftrightarrow> i \<noteq> [] \<and> (\<exists>n. wf_NodeInfo n \<and> marshal_NodeInfo n = Some b \<and> n_ID n = i \<and> n_Status n \<in> A)"

fun pending_ok :: "Status set \<Rightarrow> node_call \<Rightarrow> bool" where
  "pending_ok A (Update_Start q) \<longleftrightarrow> pred_option wf_UpdateNode q"
| "pending_ok A (Update_Found q n) \<longleftrightarrow> wf_UpdateNode q \<and> un_NodeId q \<noteq> [] \<and> n_ID n = un_NodeId q \<and>
     wf_NodeInfo n \<and> marshal_NodeInfo n \<noteq> None \<and> n_Status n \<in> A"
| "pending_ok A (Update_Row i b) \<longleftrightarrow> row_ok A i b"
| "pending_ok A (Replied r) \<longleftrightarrow> True"
| "pending_ok A (Round_Start env) \<longleftrightarrow> env_ok env"
| "pending_ok A (Round env eps nodes) \<longleftrightarrow> env_ok env \<and> (nodes = [] \<or> {StatusOffline, StatusUnknown} \<subseteq> A)"
| "pending_ok A (Round_Row env eps i b nodes) \<longleftrightarrow>
     env_ok env \<and> {StatusOffline, StatusUnknown} \<subseteq> A \<and> row_ok A i b"
| "pending_ok A (Round_Done e) \<longleftrightarrow> True"

definition overlap_inv :: "Status set \<Rightarrow> node_call list \<times> Store \<Rightarrow> bool" where
  "overlap_inv A st \<longleftrightarrow> list_all (pending_ok A) (fst st) \<and> cp_inv A (snd st)"

lemma cp_inv_put_row:
  assumes "cp_inv A s" "row_ok A i b"
  shows "cp_inv A (snd (Put x (node_prefix @ i) b s))"
proof -
  obtain e s' where p: "Put x (node_prefix @ i) b s = (e, s')" by fastforce
  show ?thesis
  proof (cases e)
    case None
    then have "s' = put_ok (node_prefix @ i) b s" using p Put_None(3) [of x _ b s s'] by (simp add: put_ok_def)
    with assms p show ?thesis by (auto simp: row_ok_def intro: cp_inv_node_put)
  next
    case (Some err)
    then have f: "data s' = data s" "walFile s' = walFile s" using p Put_error_frame [of x _ b s err s'] by simp_all
    from assms(1) show ?thesis unfolding p snd_conv cp_inv_same_data [OF f] .
  qed
qed

lemma update_find_at:
  assumes "cp_inv A s" "update_find req s = Inr (p, n)"
  shows "req = Some p" "node_at s (un_NodeId p) = Some n" "un_NodeId p \<noteq> []"
proof -
  have "node_rows_ok s" using assms(1) cluster_invD(4) by (simp add: cp_inv_def)
  then show "req = Some p" "node_at s (un_NodeId p) = Some n" "un_NodeId p \<noteq> []"
    using assms(2) GetNodeByID_at [of s "un_NodeId p"] by (auto simp: update_find_def split: option.splits if_splits sum.splits)
qed

lemma keep_times_fields [simp]:
  "n_ID (keep_times m n) = n_ID n" "n_Name (keep_times m n) = n_Name n" "n_IP (keep_times m n) = n_IP n"
  "n_Port (keep_times m n) = n_Port n" "n_Metadata (keep_times m n) = n_Metadata n"
  "n_Status (keep_times m n) = n_Status n" "n_AssignedModels (keep_times m n) = n_AssignedModels n"
  "n_ResourceCapabilities (keep_times m n) = n_ResourceCapabilities n"
  by (simp_all add: keep_times_def Let_def)

lemma wf_keep_times: "wf_NodeInfo m \<Longrightarrow> wf_NodeInfo n \<Longrightarrow> wf_NodeInfo (keep_times m n)"
  by (simp add: keep_times_def Let_def wf_NodeInfo_def)

text \<open>What an update writes: its fields over the node it read, with times of the node that is stored when it prepares the row.\<close>

definition merged :: "time \<Rightarrow> NodeInfo option \<Rightarrow> NodeInfo \<Rightarrow> NodeInfo" where
  "merged now found info = touched now (case found of Some existing \<Rightarrow> keep_times existing info | None \<Rightarrow> info)"

lemma merged_fields [simp]:
  "n_ID (merged now m n) = n_ID n" "n_Name (merged now m n) = n_Name n" "n_IP (merged now m n) = n_IP n"
  "n_Port (merged now m n) = n_Port n" "n_Metadata (merged now m n) = n_Metadata n"
  "n_Status (merged now m n) = n_Status n" "n_AssignedModels (merged now m n) = n_AssignedModels n"
  "n_ResourceCapabilities (merged now m n) = n_ResourceCapabilities n"
  by (simp_all add: merged_def split: option.split)

lemma update_row_at:
  assumes "cluster_inv s" "in_int64 now" "n_ID n = i" "i \<noteq> []" "wf_NodeInfo n" "marshal_NodeInfo n \<noteq> None"
  obtains b where "update_row now i n s = Inr b" "marshal_NodeInfo (merged now (node_at s i) n) = Some b"
    "wf_NodeInfo (merged now (node_at s i) n)"
proof -
  note D = cluster_invD [OF assms(1)]
  let ?m = "merged now (node_at s i) n"
  have "marshal_NodeInfo ?m \<noteq> None" using assms(6) unfolding marshal_finite by simp
  then obtain b where b: "marshal_NodeInfo ?m = Some b" by blast
  have "n\<lparr>n_ID := i\<rparr> = n" using assms(3) by simp
  then have "update_row now i n s = Inr b"
    using assms(3,4) b GetNodeByID_at [OF D(4) assms(4)]
    by (simp add: update_row_def merged_def touched_def Let_def split del: if_split split: option.split_asm)
  moreover have "wf_NodeInfo ?m"
    using assms(2,5) D(6) wf_keep_times by (auto simp: merged_def touched_def Let_def split: option.split)
  ultimately show thesis using b that by blast
qed

lemma status_row_ok:
  assumes "cp_inv A s" "in_int64 now" "st \<in> A" "status_row now i st s = Inr b"
  shows "row_ok A i b"
proof -
  from assms(1) have c: "cluster_inv s" by (simp add: cp_inv_def)
  note D = cluster_invD [OF c]
  from assms(4) obtain n where n: "i \<noteq> []" "node_at s i = Some n" "marshal_NodeInfo (set_status now st n) = Some b"
    by (auto simp: status_row_def getNodeRaw_def node_at_def simp del: marshal_set_status split: if_splits option.splits)
  have "n_ID n = i" by (rule node_at_ID [OF D(4) n(2)])
  with n assms(3) wf_set_status [OF assms(2) D(6) [OF n(2)], of st] show ?thesis
    unfolding row_ok_def by (intro conjI exI [of _ "set_status now st n"]) simp_all
qed

lemma call_step_inv:
  assumes "call_step x now c s = (c', s')" "pending_ok A c" "cp_inv A s" "closed_statuses A" "in_int64 now"
  shows "pending_ok A c' \<and> cp_inv A s'"
  using assms(1,2)
proof (cases c)
  case (Update_Start req)
  from assms(3) have c: "cluster_inv s" "statuses_in A s" by (simp_all add: cp_inv_def)
  show ?thesis
  proof (cases "update_find req s")
    case (Inr pn)
    obtain p n where pn: "pn = (p, n)" by (cases pn)
    note f = update_find_at [OF assms(3) Inr [unfolded pn]]
    have "n_ID n = un_NodeId p" by (rule node_at_ID [OF cluster_invD(4) [OF c(1)] f(2)])
    moreover have "wf_NodeInfo n" "marshal_NodeInfo n \<noteq> None" "n_Status n \<in> A"
      using cluster_invD(6,7) [OF c(1) f(2)] c(2) f(2) by (auto simp: statuses_in_def)
    ultimately show ?thesis using assms(1,2,3) f(1,3) Update_Start Inr pn by auto
  qed (use assms(1,3) Update_Start in auto)
next
  case (Update_Found q n)
  from assms(3) have c: "cluster_inv s" by (simp add: cp_inv_def)
  let ?u = "updateRequestToStoreNodeInfo q n" and ?i = "un_NodeId q"
  from assms(2) Update_Found have q: "wf_UpdateNode q" "?i \<noteq> []" "n_ID n = ?i" "wf_NodeInfo n" "marshal_NodeInfo n \<noteq> None"
    "n_Status n \<in> A" by simp_all
  have u: "n_ID ?u = ?i" "wf_NodeInfo ?u" "marshal_NodeInfo ?u \<noteq> None" "n_Status ?u \<in> A"
    using q wf_updated_info [OF q(1,4,5)] by simp_all
  obtain b where b: "update_row now ?i ?u s = Inr b" "marshal_NodeInfo (merged now (node_at s ?i) ?u) = Some b"
    "wf_NodeInfo (merged now (node_at s ?i) ?u)"
    by (rule update_row_at [OF c assms(5) u(1) q(2) u(2,3)])
  have "row_ok A ?i b" unfolding row_ok_def
    using b(2,3) q(2) u(1,4) by (intro conjI exI [of _ "merged now (node_at s ?i) ?u"]) simp_all
  with assms(1,3) Update_Found b(1) show ?thesis by auto
next
  case (Update_Row i b)
  with assms cp_inv_put_row [of A s i b x] show ?thesis by (auto split: prod.splits option.splits)
next
  case (Round_Start env)
  from assms(3) have c: "cluster_inv s" "statuses_in A s" by (simp_all add: cp_inv_def)
  from assms(2) Round_Start have e: "env_ok env" by simp
  then have o: "is_order (hb_ord_nodes env)" by (simp add: env_ok_def)
  obtain ns where ns: "ListNodesByStatuses (hb_ord_nodes env) [StatusOnline, StatusUnknown] s = Inr ns"
    "\<And>n. n \<in> set ns \<longleftrightarrow> node_at s (n_ID n) = Some n \<and> n_Status n \<in> set [StatusOnline, StatusUnknown]"
    by (rule ListNodesByStatuses_total [OF cluster_invD(2,4) [OF c(1)] o]) blast
  have "ns = [] \<or> {StatusOffline, StatusUnknown} \<subseteq> A"
  proof (cases "A \<inter> {StatusOnline, StatusUnknown} = {}")
    case True
    then have "n \<notin> set ns" for n using ns(2) c(2) unfolding statuses_in_def by fastforce
    then show ?thesis by (cases ns) auto
  next
    case False
    with assms(4) show ?thesis unfolding closed_statuses_def by blast
  qed
  with assms(1,3) e ns(1) Round_Start show ?thesis by auto
next
  case (Round env eps nodes)
  show ?thesis
  proof (cases nodes)
    case (Cons node rest)
    from assms(2) Round Cons have e: "env_ok env" "StatusOffline \<in> A" "StatusUnknown \<in> A" by simp_all
    then have t: "in_int64 (hb_status_now env i)" for i by (simp add: env_ok_def)
    let ?st = "if stale (hb_check_now env (n_ID node)) node then StatusOffline else StatusUnknown"
    have st: "?st \<in> A" using e by simp
    show ?thesis
    proof (cases "CallHeartbeat (hb_rpc env) node eps")
      case (Inl er)
      show ?thesis
      proof (cases "status_row (hb_status_now env (n_ID node)) (n_ID node) ?st s")
        case (Inr b)
        with status_row_ok [OF assms(3) t st Inr] Inl assms(1,3) Round Cons e show ?thesis by auto
      qed (use Inl assms(1,3) Round Cons e in auto)
    next
      case (Inr resp)
      then have "heartbeat_node env eps node s = s'" "c' = Round env eps rest"
        using assms(1) Round Cons by (auto simp: heartbeat_node_def)
      with cp_inv_heartbeat_node [OF assms(3) e(1), of eps node] e show ?thesis by auto
    qed
  qed (use assms(1,3) Round in auto)
next
  case (Round_Row env eps i b nodes)
  with assms cp_inv_put_row [of A s i b "hb_status_io env i"] show ?thesis by auto
qed (use assms in auto)

lemma overlap_inv_step:
  assumes "overlap (cs, s) st" "overlap_inv A (cs, s)" "closed_statuses A"
  shows "overlap_inv A st"
proof -
  from assms(2) have inv: "\<forall>c \<in> set cs. pending_ok A c" "cp_inv A s" by (simp_all add: overlap_inv_def list_all_iff)
  from assms(1) show ?thesis
  proof (rule overlapE)
    fix k now x c s'
    assume *: "st = (cs[k := c], s')" "k < length cs" "in_int64 now" "call_step x now (cs ! k) s = (c, s')"
    from inv(1) *(2) have "pending_ok A (cs ! k)" by simp
    with call_step_inv [OF *(4) _ inv(2) assms(3) *(3)] have "pending_ok A c" "cp_inv A s'" by blast+
    with inv(1) *(1) show ?thesis using set_update_subset_insert [of cs k c] by (auto simp: overlap_inv_def list_all_iff)
  next
    fix s'
    assume *: "st = (cs, s')" "cp_step s s'"
    with cp_step_inv [OF *(2) assms(3) inv(2)] inv(1) show ?thesis by (simp add: overlap_inv_def list_all_iff)
  qed (use inv in \<open>simp_all add: overlap_inv_def list_all_iff\<close>)
qed

lemma overlap_steps_inv:
  "overlap\<^sup>*\<^sup>* st st' \<Longrightarrow> closed_statuses A \<Longrightarrow> overlap_inv A st \<Longrightarrow> overlap_inv A st'"
  by (induction rule: rtranclp_induct) (use overlap_inv_step in \<open>force+\<close>)



subsection \<open>Lost changes\<close>

lemma cp_steps_cluster: "cp_step\<^sup>*\<^sup>* s s' \<Longrightarrow> cluster_inv s \<Longrightarrow> cluster_inv s'"
  using cp_steps_inv [OF _ closed_sets(3)] by (simp add: cp_inv_def statuses_in_def)

text \<open>A row that was computed for an earlier state of the registry replaces whatever is stored now.\<close>

lemma late_write:
  assumes "cluster_inv s" "wf_NodeInfo n" "marshal_NodeInfo n = Some b" "n_ID n = i" "i \<noteq> []"
  obtains s' where "Put io_ok (node_prefix @ i) b s = (None, s')" "cluster_inv s'" "node_at s' = (node_at s)(i \<mapsto> n)"
    "model_at s' = model_at s" "replica_at s' = replica_at s"
proof -
  note D = cluster_invD [OF assms(1)]
  note p = node_put_registry [OF D(1) assms(2-4)]
  have "cp_inv UNIV s" using assms(1) by (simp add: cp_inv_def statuses_in_def)
  then have "cluster_inv (put_ok (node_prefix @ i) b s)"
    using cp_inv_node_put [of UNIV s n b i] assms(2-5) by (simp add: cp_inv_def)
  then show thesis using p D(2) by (intro that [of "put_ok (node_prefix @ i) b s"]) (simp_all add: store_inv_def Put_put_ok)
qed

text \<open>
  C15. An update writes what it read first. \<open>UpdateNode\<close> reads the node \<open>n\<close>, other calls complete,
  it reads again, more calls complete, and it writes. It always reports success and always
  leaves the node in the registry with everything the request does not mention as it was in \<open>n\<close>:
  what the other calls changed in between is lost, and a node that they deregistered is back.
\<close>

theorem late_update_overwrites:
  assumes "cluster_inv s" and "node_at s (un_NodeId q) = Some n" and "wf_UpdateNode q" and "in_int64 now"
    and "cp_step\<^sup>*\<^sup>* s s1" and "cp_step\<^sup>*\<^sup>* s1 s2"
  shows "\<exists>b m s3. call_step x now (Update_Start (Some q)) s = (Update_Found q n, s) \<and>
    call_step x now (Update_Found q n) s1 = (Update_Row (un_NodeId q) b, s1) \<and>
    call_step io_ok now (Update_Row (un_NodeId q) b) s2 = (Replied (ok_reply True), s3) \<and>
    node_at s3 = (node_at s2)(un_NodeId q \<mapsto> m) \<and> model_at s3 = model_at s2 \<and> replica_at s3 = replica_at s2 \<and>
    n_ID m = un_NodeId q \<and> n_Name m = n_Name n \<and> n_IP m = n_IP n \<and> n_Port m = n_Port n \<and>
    n_Status m = n_Status n \<and> n_AssignedModels m = n_AssignedModels n \<and>
    n_Metadata m = (case un_Metadata q of Some d \<Rightarrow> conv_metadata d | None \<Rightarrow> n_Metadata n) \<and>
    n_ResourceCapabilities m =
      (case un_ResourceCapabilities q of Some c \<Rightarrow> conv_capabilities c (n_ResourceCapabilities n) | None \<Rightarrow> n_ResourceCapabilities n)"
proof -
  let ?i = "un_NodeId q" and ?u = "updateRequestToStoreNodeInfo q n"
  note D = cluster_invD [OF assms(1)]
  have i: "?i \<noteq> []" using assms(2) D(9) by auto
  have n: "n_ID n = ?i" by (rule node_at_ID [OF D(4) assms(2)])
  have c: "cluster_inv s1" "cluster_inv s2" using assms(1,5,6) cp_steps_cluster by blast+
  have "update_find (Some q) s = Inr (q, n)"
    using GetNodeByID_at [OF D(4) i] assms(2) i by (simp add: update_find_def)
  then have start: "call_step x now (Update_Start (Some q)) s = (Update_Found q n, s)" by simp
  note u = wf_updated_info [OF assms(3) D(6,7) [OF assms(2)]]
  have id: "n_ID ?u = ?i" by (simp add: n)
  obtain b where b: "update_row now ?i ?u s1 = Inr b" "marshal_NodeInfo (merged now (node_at s1 ?i) ?u) = Some b"
    "wf_NodeInfo (merged now (node_at s1 ?i) ?u)"
    by (rule update_row_at [OF c(1) assms(4) id i u])
  obtain s3 where s3: "Put io_ok (node_prefix @ ?i) b s2 = (None, s3)"
    "node_at s3 = (node_at s2)(?i \<mapsto> merged now (node_at s1 ?i) ?u)" "model_at s3 = model_at s2" "replica_at s3 = replica_at s2"
    using late_write [OF c(2) b(3,2) _ i] id by (metis merged_fields(1))
  from start b(1) s3 show ?thesis
    by (intro exI [of _ b] exI [of _ "merged now (node_at s1 ?i) ?u"] exI [of _ s3]) (simp add: n)
qed

text \<open>The same holds for the status that the heartbeat controller writes for a node that does not answer.\<close>

lemma late_status_overwrites:
  assumes "cluster_inv s" "node_at s i = Some n" "in_int64 now" "cp_step\<^sup>*\<^sup>* s s1"
  shows "\<exists>b s2. status_row now i st s = Inr b \<and> Put io_ok (node_prefix @ i) b s1 = (None, s2) \<and>
    node_at s2 = (node_at s1)(i \<mapsto> set_status now st n)"
proof -
  note D = cluster_invD [OF assms(1)]
  have i: "i \<noteq> []" "n_ID n = i" using assms(2) D(9) node_at_ID [OF D(4) assms(2)] by auto
  from D(7) [OF assms(2)] obtain b where b: "marshal_NodeInfo (set_status now st n) = Some b"
    by (metis marshal_set_status not_None_eq)
  then have "status_row now i st s = Inr b"
    using assms(2) i by (auto simp: status_row_def getNodeRaw_def node_at_def bind_eq_Some_conv)
  moreover obtain s2 where "Put io_ok (node_prefix @ i) b s1 = (None, s2)" "node_at s2 = (node_at s1)(i \<mapsto> set_status now st n)"
    using late_write [OF cp_steps_cluster [OF assms(4,1)] wf_set_status [OF assms(3) D(6) [OF assms(2)]] b _ i(1)] i(2)
    by (metis set_status_fields(1))
  ultimately show ?thesis by blast
qed


subsection \<open>Examples\<close>

text \<open>The node \<open>n1\<close> is deregistered while an update of it is under way.\<close>

definition demo_gone :: Store where
  "demo_gone = snd (srv_DeRegisterNode io_ok (Some ''n1'') demo_store3)"

lemma demo_gone_facts: "cp_step\<^sup>*\<^sup>* demo_store3 demo_gone" "node_at demo_gone ''n1'' = None"
proof -
  have "cp_step demo_store3 demo_gone"
    by (rule cp_step.deregister_node [of io_ok "Some ''n1''" _ "fst (srv_DeRegisterNode io_ok (Some ''n1'') demo_store3)"])
      (simp add: demo_gone_def)
  then show "cp_step\<^sup>*\<^sup>* demo_store3 demo_gone" by (rule r_into_rtranclp)
  have r: "registry_inv demo_store3" using demo_store3_facts(1) by (simp add: cluster_inv_def)
  then have "walFile demo_store3" by (simp add: registry_inv_def store_inv_def)
  then have g: "demo_gone = del_ok (node_prefix @ ''n1'') demo_store3"
    by (simp add: demo_gone_def srv_DeRegisterNode_def DeRegisterNode_def del_ok_def Delete_ok node_prefix_def)
  show "node_at demo_gone ''n1'' = None" unfolding g node_delete(2) [OF r] by simp
qed

theorem late_update_overwrites_witness:
  "node_at demo_gone ''n1'' = None \<and>
   (\<exists>b s3. call_step io_ok 7 (Update_Row ''n1'' b) demo_gone = (Replied (ok_reply True), s3) \<and>
      map_option n_Status (node_at s3 ''n1'') = Some StatusOnline)"
proof -
  have t: "in_int64 7" by (simp add: in_int64_def)
  have q: "un_NodeId demo_update = ''n1''" "wf_UpdateNode demo_update" by (simp_all add: demo_update_def wf_UpdateNode_def)
  obtain n where n: "node_at demo_store3 (un_NodeId demo_update) = Some n" "n_Status n = StatusOnline"
    by (simp add: q demo_store3_facts demo_node_def)
  from late_update_overwrites [OF demo_store3_facts(1) n(1) q(2) t demo_gone_facts(1) rtranclp.rtrancl_refl, of io_ok]
  show ?thesis using demo_gone_facts(2) n(2) unfolding q(1) by (elim exE conjE) (intro conjI exI, simp, assumption, simp)
qed


end
