(* ===== verification/Balancer.thy ===== *)
theory Balancer
  imports Messages
begin

section \<open>The weighted round-robin balancer\<close>

text \<open>
  Models \<open>internal/agent/balancer/balancer.go\<close>. The loop of \<open>Pick\<close> has no bound, so it is a
  partial function: \<open>None\<close> is a call that never returns, and then never releases the mutex.
  The mutex makes a call atomic, so a history of the balancer is a sequence of calls.
\<close>

record WeightedRoundRobin =
  currentIndex :: int
  currentWeight :: float64

definition NewWeightedRoundRobin :: WeightedRoundRobin where
  "NewWeightedRoundRobin = \<lparr>currentIndex = - 1, currentWeight = Fin 0\<rparr>"

definition FilterHealthy :: "EndpointDetail list \<Rightarrow> EndpointDetail list" where
  "FilterHealthy endpoints = filter ed_Healthy endpoints"

definition maxWeight :: "EndpointDetail list \<Rightarrow> float64" where
  "maxWeight eps = foldl (\<lambda>m ep. if f64_less m (ed_Weight ep) then ed_Weight ep else m) (Fin 0) eps"

text \<open>One round of the loop: the new state, and the endpoint when the round returns one.\<close>

definition pick_round :: "EndpointDetail list \<Rightarrow> WeightedRoundRobin \<Rightarrow> WeightedRoundRobin \<times> EndpointDetail option" where
  "pick_round eps w =
     (let i = (currentIndex w + 1) mod int (length eps);
          less = f64_sub (currentWeight w) (Fin 1);
          reset = (i = 0 \<and> f64_le less (Fin 0));
          cw = (if i = 0 then if reset then maxWeight eps else less else currentWeight w);
          w' = \<lparr>currentIndex = i, currentWeight = cw\<rparr>;
          ep = eps ! nat i
      in if reset \<and> f64_eq cw (Fin 0) then (w', Some ep)
         else if f64_le cw (ed_Weight ep) then (w', Some ep)
         else (w', None))"

partial_function (option) pick_loop ::
    "EndpointDetail list \<Rightarrow> WeightedRoundRobin \<Rightarrow> (WeightedRoundRobin \<times> EndpointDetail) option" where
  "pick_loop eps w =
     (case snd (pick_round eps w) of
        Some ep \<Rightarrow> Some (fst (pick_round eps w), ep)
      | None \<Rightarrow> pick_loop eps (fst (pick_round eps w)))"

definition Pick ::
    "EndpointDetail list \<Rightarrow> WeightedRoundRobin \<Rightarrow> (WeightedRoundRobin \<times> EndpointDetail result) option" where
  "Pick endpoints w =
     (let healthy = FilterHealthy endpoints
      in if healthy = [] then Some (w, Inl ''no healthy endpoints available'')
         else map_option (\<lambda>(w', ep). (w', Inr ep)) (pick_loop healthy w))"


subsection \<open>Pick returns\<close>

text \<open>The invariant of the state, and the weights for which the arithmetic is exact enough.\<close>

definition light :: "float64 \<Rightarrow> bool" where
  "light x \<longleftrightarrow> \<not> f64_less (Fin (2 ^ 53)) x"

definition level :: "float64 \<Rightarrow> bool" where
  "level x \<longleftrightarrow> (\<exists>c. x = Fin c \<and> 0 \<le> c \<and> c \<le> 2 ^ 53)"

definition balancer_inv :: "WeightedRoundRobin \<Rightarrow> bool" where
  "balancer_inv w \<longleftrightarrow> - 1 \<le> currentIndex w \<and> level (currentWeight w)"

lemma foldl_max_weight:
  assumes "level m" "\<forall>ep \<in> set eps. light (ed_Weight ep)"
  shows "\<exists>x. foldl (\<lambda>m ep. if f64_less m (ed_Weight ep) then ed_Weight ep else m) m eps = x \<and> level x \<and>
    (x = m \<or> x \<in> ed_Weight ` set eps)"
  using assms
proof (induction eps arbitrary: m)
  case (Cons e eps)
  let ?m = "if f64_less m (ed_Weight e) then ed_Weight e else m"
  have "level ?m"
    using Cons.prems by (cases "ed_Weight e") (auto simp: level_def light_def)
  from Cons.IH [OF this] Cons.prems(2) show ?case by (auto split: if_splits)
qed simp

lemma level_0 [simp]: "level (Fin 0)"
  by (simp add: level_def)

lemma maxWeight_level:
  assumes "\<forall>ep \<in> set eps. light (ed_Weight ep)"
  shows "level (maxWeight eps)" and "maxWeight eps = Fin 0 \<or> maxWeight eps \<in> ed_Weight ` set eps"
  using foldl_max_weight [OF level_0 assms] by (auto simp: maxWeight_def)

lemma f64_le_refl: "level x \<Longrightarrow> f64_le x x"
  by (auto simp: level_def f64_le_def f64_eq_def)

text \<open>Lowering a level takes it below the next integer.\<close>

lemma lowered:
  assumes "x = Fin c" "0 \<le> c" "c \<le> of_nat (Suc k)" "int k \<le> 2 ^ 53"
  shows "f64_le (f64_sub x (Fin 1)) (Fin 0) \<or> (\<exists>d. f64_sub x (Fin 1) = Fin d \<and> 0 \<le> d \<and> d \<le> of_nat k)"
proof -
  let ?v = "fl 53 (- 1074) (c - 1)"
  have "c - 1 \<le> of_int (int k)" using assms(3) by simp
  then have v: "?v \<le> of_int (int k)" using assms(4) by (intro fl_le_int) simp_all
  have "f64_sub x (Fin 1) = to_float 53 (- 1074) 1024 (c - 1)"
    by (simp add: f64_sub_def assms(1) fl64_def)
  moreover have "of_int (int k) < (2::rat) ^ 1024"
  proof -
    have "of_int (int k) \<le> (of_int (2 ^ 53) :: rat)" using assms(4) by (simp only: of_int_le_iff)
    also have "\<dots> < 2 ^ 1024" by simp
    finally show ?thesis .
  qed
  ultimately show ?thesis
    using v by (cases "0 < ?v") (auto simp: to_float_def Let_def f64_le_def f64_eq_def)
qed

text \<open>What it is that a call promises when it returns.\<close>

definition picks_one :: "EndpointDetail list \<Rightarrow> WeightedRoundRobin \<Rightarrow> bool" where
  "picks_one eps w \<longleftrightarrow> (\<exists>w' ep. pick_loop eps w = Some (w', ep) \<and> balancer_inv w' \<and> ep \<in> set eps)"

lemma picks_one_step:
  assumes "pick_round eps w = (w', r)"
    and "\<forall>ep. r = Some ep \<longrightarrow> balancer_inv w' \<and> ep \<in> set eps"
    and "r = None \<longrightarrow> picks_one eps w'"
  shows "picks_one eps w"
  using assms by (cases r) (auto simp: picks_one_def pick_loop.simps [of eps w])

lemma pick_round_inside:
  assumes "0 < i" "i < length eps"
  shows "pick_round eps \<lparr>currentIndex = int i - 1, currentWeight = cw\<rparr> =
    (\<lparr>currentIndex = int i, currentWeight = cw\<rparr>, if f64_le cw (ed_Weight (eps ! i)) then Some (eps ! i) else None)"
  using assms by (simp add: pick_round_def Let_def mod_pos_pos_trivial)

lemma sweep_picks:
  assumes "0 < i" "i \<le> length eps" "level cw"
    and "(\<exists>ep \<in> set (drop i eps). f64_le cw (ed_Weight ep)) \<or>
      picks_one eps \<lparr>currentIndex = int (length eps) - 1, currentWeight = cw\<rparr>"
  shows "picks_one eps \<lparr>currentIndex = int i - 1, currentWeight = cw\<rparr>"
  using assms
proof (induction "length eps - i" arbitrary: i)
  case 0
  then show ?case by simp
next
  case (Suc n)
  then have i: "i < length eps" by simp
  then have d: "drop i eps = eps ! i # drop (Suc i) eps" by (simp add: Cons_nth_drop_Suc)
  have n: "n = length eps - Suc i" using Suc.hyps(2) by simp
  show ?case
  proof (rule picks_one_step [OF pick_round_inside])
    show "(if f64_le cw (ed_Weight (eps ! i)) then Some (eps ! i) else None) = None \<longrightarrow>
        picks_one eps \<lparr>currentIndex = int i, currentWeight = cw\<rparr>"
      using Suc.hyps(1) [OF n] Suc.prems i d by (auto simp: Suc_le_eq)
  qed (use Suc.prems i in \<open>auto simp: balancer_inv_def\<close>)
qed

lemma pick_round_start:
  assumes "(idx + 1) mod int (length eps) = 0"
  shows "pick_round eps \<lparr>currentIndex = idx, currentWeight = cw\<rparr> =
    (let less = f64_sub cw (Fin 1); cw' = (if f64_le less (Fin 0) then maxWeight eps else less)
     in (\<lparr>currentIndex = 0, currentWeight = cw'\<rparr>,
         if f64_le less (Fin 0) \<and> f64_eq cw' (Fin 0) \<or> f64_le cw' (ed_Weight (eps ! 0)) then Some (eps ! 0) else None))"
  using assms by (simp add: pick_round_def Let_def)

lemma from_first:
  assumes "eps \<noteq> []" "level cw"
    and "(\<exists>ep \<in> set eps. f64_le cw (ed_Weight ep)) \<or>
      picks_one eps \<lparr>currentIndex = int (length eps) - 1, currentWeight = cw\<rparr>"
    and "\<not> f64_le cw (ed_Weight (eps ! 0))"
  shows "picks_one eps \<lparr>currentIndex = 0, currentWeight = cw\<rparr>"
proof -
  have e: "eps = eps ! 0 # drop 1 eps" using assms(1) by (cases eps) simp_all
  have "(\<exists>ep \<in> set (drop 1 eps). f64_le cw (ed_Weight ep)) \<or>
      picks_one eps \<lparr>currentIndex = int (length eps) - 1, currentWeight = cw\<rparr>"
    using assms(3,4) by (subst (asm) e) auto
  moreover have "1 \<le> length eps" using assms(1) by (cases eps) simp_all
  ultimately show ?thesis using sweep_picks [of 1 eps cw] assms(2) by simp
qed

lemma start_reset:
  assumes "eps \<noteq> []" "\<forall>ep \<in> set eps. light (ed_Weight ep)"
    and "(idx + 1) mod int (length eps) = 0" "f64_le (f64_sub cw (Fin 1)) (Fin 0)"
  shows "picks_one eps \<lparr>currentIndex = idx, currentWeight = cw\<rparr>"
proof (rule picks_one_step [OF pick_round_start [OF assms(3), unfolded Let_def]])
  note M = maxWeight_level [OF assms(2)]
  have "maxWeight eps = Fin 0 \<or> (\<exists>ep \<in> set eps. f64_le (maxWeight eps) (ed_Weight ep))"
    using M(2) f64_le_refl [OF M(1)] by auto
  then show "(if f64_le (f64_sub cw (Fin 1)) (Fin 0) \<and>
        f64_eq (if f64_le (f64_sub cw (Fin 1)) (Fin 0) then maxWeight eps else f64_sub cw (Fin 1)) (Fin 0) \<or>
        f64_le (if f64_le (f64_sub cw (Fin 1)) (Fin 0) then maxWeight eps else f64_sub cw (Fin 1)) (ed_Weight (eps ! 0))
      then Some (eps ! 0) else None) = None \<longrightarrow>
    picks_one eps \<lparr>currentIndex = 0,
      currentWeight = if f64_le (f64_sub cw (Fin 1)) (Fin 0) then maxWeight eps else f64_sub cw (Fin 1)\<rparr>"
    using from_first [OF assms(1) M(1)] assms(4) by (auto simp: f64_eq_def)
qed (use maxWeight_level(1) [OF assms(2)] assms(1,4) in \<open>auto simp: balancer_inv_def split: if_splits\<close>)

lemma start_picks:
  assumes "eps \<noteq> []" "\<forall>ep \<in> set eps. light (ed_Weight ep)"
    and "(idx + 1) mod int (length eps) = 0" "cw = Fin c" "0 \<le> c" "c \<le> of_nat k" "int k \<le> 2 ^ 53"
  shows "picks_one eps \<lparr>currentIndex = idx, currentWeight = cw\<rparr>"
  using assms(3-)
proof (induction k arbitrary: idx cw c)
  case (0 idx cw c)
  then have "c \<le> of_nat (Suc 0)" by simp
  from lowered [OF 0(2,3) this] have "f64_le (f64_sub cw (Fin 1)) (Fin 0)"
    by (auto simp: f64_le_def f64_eq_def)
  then show ?case by (rule start_reset [OF assms(1,2) 0(1)])
next
  case (Suc k)
  have k: "int k \<le> 2 ^ 53" using Suc.prems(5) by simp
  show ?case
  proof (cases "f64_le (f64_sub cw (Fin 1)) (Fin 0)")
    case True
    then show ?thesis by (rule start_reset [OF assms(1,2) Suc.prems(1)])
  next
    case False
    with lowered [OF Suc.prems(2,3,4) k] obtain d where d: "f64_sub cw (Fin 1) = Fin d" "0 \<le> d" "d \<le> of_nat k"
      by blast
    have "(of_nat k :: rat) = of_int (int k)" by simp
    also have "\<dots> \<le> of_int (2 ^ 53)" using k by (simp only: of_int_le_iff)
    finally have l: "level (Fin d)" using d(2,3) by (auto simp: level_def)
    have "picks_one eps \<lparr>currentIndex = int (length eps) - 1, currentWeight = Fin d\<rparr>"
      by (rule Suc.IH [OF _ refl d(2,3) k]) simp
    then have next_sweep: "\<not> f64_le (Fin d) (ed_Weight (eps ! 0)) \<Longrightarrow>
        picks_one eps \<lparr>currentIndex = 0, currentWeight = Fin d\<rparr>"
      by (intro from_first [OF assms(1) l]) simp_all
    show ?thesis
      by (rule picks_one_step [OF pick_round_start [OF Suc.prems(1), unfolded Let_def]])
        (use next_sweep l assms(1) False in \<open>auto simp: d(1) balancer_inv_def split: if_splits\<close>)
  qed
qed

lemma pick_round_index:
  "(idx + 1) mod int (length eps) = (idx' + 1) mod int (length eps) \<Longrightarrow>
    pick_round eps \<lparr>currentIndex = idx, currentWeight = cw\<rparr> = pick_round eps \<lparr>currentIndex = idx', currentWeight = cw\<rparr>"
  unfolding pick_round_def by (simp only: WeightedRoundRobin.simps)

lemma pick_loop_index:
  "(idx + 1) mod int (length eps) = (idx' + 1) mod int (length eps) \<Longrightarrow>
    pick_loop eps \<lparr>currentIndex = idx, currentWeight = cw\<rparr> = pick_loop eps \<lparr>currentIndex = idx', currentWeight = cw\<rparr>"
  by (subst (1 2) pick_loop.simps) (simp only: pick_round_index [of idx eps idx' cw])

lemma loop_returns:
  assumes "eps \<noteq> []" "\<forall>ep \<in> set eps. light (ed_Weight ep)" "balancer_inv w"
  shows "picks_one eps w"
proof -
  obtain idx cw where w: "w = \<lparr>currentIndex = idx, currentWeight = cw\<rparr>" by (cases w)
  let ?n = "int (length eps)"
  from assms(3) obtain c where c: "cw = Fin c" "0 \<le> c" "c \<le> 2 ^ 53" by (auto simp: w balancer_inv_def level_def)
  have start: "picks_one eps \<lparr>currentIndex = j, currentWeight = cw\<rparr>" if "(j + 1) mod ?n = 0" for j
    by (rule start_picks [OF assms(1,2) that c(1,2), of "2 ^ 53"]) (use c(3) in simp_all)
  define i where "i = nat ((idx + 1) mod ?n)"
  have n: "0 < ?n" using assms(1) by simp
  have i: "int i = (idx + 1) mod ?n" "i < length eps"
    using n by (simp_all add: i_def nat_less_iff)
  show ?thesis
  proof (cases "i = 0")
    case True
    then show ?thesis using start i(1) w by simp
  next
    case False
    have "picks_one eps \<lparr>currentIndex = int i - 1, currentWeight = cw\<rparr>"
      using start [of "?n - 1"] i(2) False c by (intro sweep_picks) (simp_all add: level_def)
    moreover have "(int i - 1 + 1) mod ?n = (idx + 1) mod ?n" using i(1) by simp
    ultimately show ?thesis unfolding picks_one_def w using pick_loop_index [of idx eps "int i - 1" cw] by simp
  qed
qed

subsection \<open>The interface of a balancer\<close>

text \<open>
  The agent knows its balancer by the interface \<open>LoadBalancer\<close>: one method \<open>Pick\<close>. What it relies
  on is the contract of the locale: in a state the balancer can reach and for endpoints it is
  fit for, a call returns, leaves it in such a state, and answers with a healthy endpoint of
  the table, or with an error when the table has none. A history is a sequence of calls, each
  with the endpoints known at that time.
\<close>

definition answers :: "EndpointDetail list \<Rightarrow> EndpointDetail result \<Rightarrow> bool" where
  "answers eps r \<longleftrightarrow>
     (case r of
        Inl e \<Rightarrow> e = ''no healthy endpoints available'' \<and> (\<forall>ep \<in> set eps. \<not> ed_Healthy ep)
      | Inr ep \<Rightarrow> ep \<in> set eps \<and> ed_Healthy ep)"

type_synonym 'b picker = "EndpointDetail list \<Rightarrow> 'b \<Rightarrow> ('b \<times> EndpointDetail result) option"

fun pick_seq :: "'b picker \<Rightarrow> EndpointDetail list list \<Rightarrow> 'b \<Rightarrow> ('b \<times> EndpointDetail result list) option" where
  "pick_seq pick [] w = Some (w, [])"
| "pick_seq pick (eps # es) w =
     (case pick eps w of
        None \<Rightarrow> None
      | Some (w', r) \<Rightarrow> map_option (\<lambda>(w'', rs). (w'', r # rs)) (pick_seq pick es w'))"

locale load_balancer =
  fixes pick :: "EndpointDetail list \<Rightarrow> 'b \<Rightarrow> ('b \<times> EndpointDetail result) option"
    and inv :: "'b \<Rightarrow> bool"
    and fit :: "EndpointDetail \<Rightarrow> bool"
  assumes pick_returns: "inv w \<Longrightarrow> \<forall>ep \<in> set eps. fit ep \<Longrightarrow> \<exists>w' r. pick eps w = Some (w', r) \<and> inv w' \<and> answers eps r"
begin

lemma pick_answers:
  assumes "inv w" "\<forall>ep \<in> set eps. fit ep"
  obtains w' r where "pick eps w = Some (w', r)" "inv w'" "answers eps r"
  using pick_returns [OF assms] by (elim exE conjE) (rule that)

lemma pick_healthy:
  assumes "inv w" "\<forall>ep \<in> set eps. fit ep" "\<exists>ep \<in> set eps. ed_Healthy ep"
  obtains w' ep where "pick eps w = Some (w', Inr ep)" "inv w'" "ep \<in> set eps" "ed_Healthy ep"
proof -
  obtain w' r where r: "pick eps w = Some (w', r)" "inv w'" "answers eps r" by (rule pick_answers [OF assms(1,2)])
  with assms(3) obtain ep where "r = Inr ep" "ep \<in> set eps" "ed_Healthy ep" by (cases r) (auto simp: answers_def)
  with r that show thesis by simp
qed

lemma history_answers:
  assumes "\<forall>eps \<in> set tables. \<forall>ep \<in> set eps. fit ep" "inv w"
  shows "\<exists>w' rs. pick_seq pick tables w = Some (w', rs) \<and> inv w' \<and> list_all2 answers tables rs"
  using assms
proof (induction tables arbitrary: w)
  case (Cons eps es)
  obtain w1 r where r: "pick eps w = Some (w1, r)" "inv w1" "answers eps r"
    by (rule pick_answers [OF Cons.prems(2), of eps]) (use Cons.prems(1) in auto)
  with Cons.IH [OF _ r(2)] Cons.prems(1) show ?case by auto
qed simp

end

lemma Pick_returns:
  assumes "balancer_inv w" "\<forall>ep \<in> set eps. light (ed_Weight ep)"
  shows "\<exists>w' r. Pick eps w = Some (w', r) \<and> balancer_inv w' \<and> answers eps r"
proof (cases "FilterHealthy eps = []")
  case True
  then show ?thesis using assms(1) by (auto simp: Pick_def answers_def FilterHealthy_def filter_empty_conv)
next
  case False
  have "picks_one (FilterHealthy eps) w"
    using False assms by (intro loop_returns) (auto simp: FilterHealthy_def)
  with False show ?thesis by (auto simp: Pick_def picks_one_def answers_def FilterHealthy_def)
qed

interpretation wrr: load_balancer Pick balancer_inv "\<lambda>ep. light (ed_Weight ep)"
  by unfold_locales (rule Pick_returns)

abbreviation pick_all :: "EndpointDetail list list \<Rightarrow> WeightedRoundRobin \<Rightarrow> (WeightedRoundRobin \<times> EndpointDetail result list) option" where
  "pick_all \<equiv> pick_seq Pick"

lemma new_balancer_inv: "balancer_inv NewWeightedRoundRobin"
  by (simp add: balancer_inv_def NewWeightedRoundRobin_def)

text \<open>
  C25. \<open>Pick\<close> terminates. Start from a new balancer and call \<open>Pick\<close> any number of times, with a
  table of endpoints that may change from call to call: as long as no weight is above
  \<open>2 ^ 53\<close>, every call returns, with a healthy endpoint of the table it was given, or with the
  error that there is none exactly when there is none.
\<close>

theorem pick_terminates:
  assumes "\<forall>eps \<in> set tables. \<forall>ep \<in> set eps. light (ed_Weight ep)"
  shows "\<exists>w rs. pick_all tables NewWeightedRoundRobin = Some (w, rs) \<and> list_all2 answers tables rs"
  using wrr.history_answers [OF assms new_balancer_inv] by blast

definition demo_ep :: "string \<Rightarrow> bool \<Rightarrow> float64 \<Rightarrow> EndpointDetail" where
  "demo_ep n h x = \<lparr>ed_NodeId = n, ed_ReplicaId = n, ed_Ip = ''10.0.0.1'', ed_Port = 50052, ed_Healthy = h, ed_Weight = x\<rparr>"

theorem pick_terminates_witness:
  "\<exists>w rs. pick_all [[demo_ep ''a'' True (Fin 10), demo_ep ''b'' False (Fin 50)], [], [demo_ep ''c'' True NaN]] NewWeightedRoundRobin
      = Some (w, rs) \<and>
    list_all2 answers [[demo_ep ''a'' True (Fin 10), demo_ep ''b'' False (Fin 50)], [], [demo_ep ''c'' True NaN]] rs"
  by (rule pick_terminates) (simp add: demo_ep_def light_def)


subsection \<open>Pick can hang\<close>

lemma pick_loop_stuck:
  assumes "pick_loop eps w = Some r" "currentWeight w = cw" "f64_sub cw (Fin 1) = cw" "\<not> f64_le cw (Fin 0)"
    and "\<forall>ep \<in> set eps. \<not> f64_le cw (ed_Weight ep)" "eps \<noteq> []"
  shows False
  using assms
proof (induction eps w r rule: pick_loop.raw_induct)
  case (1 loop eps w r)
  let ?i = "(currentIndex w + 1) mod int (length eps)"
  have "0 \<le> ?i" "?i < int (length eps)" using 1(8) by simp_all
  then have "eps ! nat ?i \<in> set eps" by (simp add: nat_less_iff)
  then have r: "pick_round eps w = (\<lparr>currentIndex = ?i, currentWeight = cw\<rparr>, None)"
    using 1(4-7) by (cases "?i = 0") (auto simp: pick_round_def Let_def)
  show ?case
    by (rule 1(1) [of eps "\<lparr>currentIndex = ?i, currentWeight = cw\<rparr>" r])
      (use 1(2-) r pick_loop.simps [of eps w] in simp_all)
qed (rule assms(1))

text \<open>
  C27. \<open>Pick\<close> can also hang, and it holds the mutex while it does. It takes a weight \<open>x\<close> so large
  that \<open>x - 1\<close> is \<open>x\<close> in floating point, or infinite. Once an endpoint of that weight was
  picked, and is gone when \<open>Pick\<close> is called again, the loop lowers the current weight for ever
  without reaching the weights of the endpoints that are left.
\<close>

theorem pick_can_hang:
  assumes "ed_Healthy a" "ed_Weight a = x" "f64_less (Fin 0) x" "f64_sub x (Fin 1) = x"
    and "b \<in> set eps" "ed_Healthy b" "\<forall>ep \<in> set eps. f64_less (ed_Weight ep) x"
  shows "\<exists>w. Pick [a] NewWeightedRoundRobin = Some (w, Inr a) \<and> Pick eps w = None"
proof -
  let ?w = "\<lparr>currentIndex = 0, currentWeight = x\<rparr>"
  have x: "f64_le x x" "\<not> f64_le x (Fin 0)" using assms(3) by (cases x; simp add: f64_le_def f64_eq_def)+
  have "f64_le (f64_sub (Fin 0) (Fin 1)) (Fin 0)"
    using lowered [of "Fin 0" 0 0] by (auto simp: f64_le_def f64_eq_def)
  then have "pick_round [a] NewWeightedRoundRobin = (?w, Some a)"
    using assms(2,3) x by (simp add: pick_round_def NewWeightedRoundRobin_def maxWeight_def Let_def f64_eq_def)
  then have "Pick [a] NewWeightedRoundRobin = Some (?w, Inr a)"
    using assms(1) by (simp add: Pick_def FilterHealthy_def pick_loop.simps)
  moreover have "\<not> f64_le x y" if "f64_less y x" for y
    using that by (cases x; cases y) (auto simp: f64_le_def f64_eq_def)
  then have "pick_loop (FilterHealthy eps) ?w = None"
    using pick_loop_stuck [of "FilterHealthy eps" ?w _ x] assms(4-7) x(2)
    by (cases "pick_loop (FilterHealthy eps) ?w") (auto simp: FilterHealthy_def filter_empty_conv)
  then have "Pick eps ?w = None" using assms(5,6) by (auto simp: Pick_def FilterHealthy_def filter_empty_conv)
  ultimately show ?thesis by blast
qed

lemma sub_one_2_60: "f64_sub (Fin (2 ^ 60)) (Fin 1) = Fin (2 ^ 60)"
proof -
  let ?x = "2 ^ 60 - 1 :: rat"
  have x: "\<bar>?x\<bar> = 1152921504606846975" by simp
  have "expo \<bar>?x\<bar> = 59"
  proof (rule antisym)
    show "59 \<le> expo \<bar>?x\<bar>" using expo_ge [of 59 "\<bar>?x\<bar>"] by simp
    have "\<not> 60 \<le> expo \<bar>?x\<bar>"
    proof
      assume "60 \<le> expo \<bar>?x\<bar>"
      then have "(2::rat) powi 60 \<le> 2 powi expo \<bar>?x\<bar>" by (intro power_int_increasing) auto
      also have "\<dots> \<le> \<bar>?x\<bar>" by (rule expo_bounds(1)) simp
      finally show False by simp
    qed
    then show "expo \<bar>?x\<bar> \<le> 59" by simp
  qed
  then have u: "ulp 53 (- 1074) ?x = 128" by (simp add: ulp_def)
  have "round_half_even (?x / 128) = 2 ^ 53"
    by (simp add: round_half_even_def Let_def floor_divide_of_int_eq [of 1152921504606846975 128, simplified])
  moreover have "fl 53 (- 1074) ?x = of_int (round_half_even (?x / 128)) * 128" unfolding fl_def u by simp
  ultimately have "fl 53 (- 1074) ?x = 2 ^ 60" by simp
  then show ?thesis by (simp add: f64_sub_def fl64_def to_float_def Let_def)
qed

theorem pick_can_hang_witness:
  "\<exists>w. Pick [demo_ep ''a'' True (Fin (2 ^ 60))] NewWeightedRoundRobin = Some (w, Inr (demo_ep ''a'' True (Fin (2 ^ 60)))) \<and>
    Pick [demo_ep ''b'' True (Fin 10)] w = None"
proof (rule pick_can_hang)
  show "demo_ep ''b'' True (Fin 10) \<in> set [demo_ep ''b'' True (Fin 10)]" by simp
  show "f64_sub (Fin (2 ^ 60)) (Fin 1) = Fin (2 ^ 60)" by (rule sub_one_2_60)
qed (simp_all add: demo_ep_def)


subsection \<open>The order of the picks\<close>

text \<open>
  The reference: with the weights read as whole numbers, a cycle goes through the levels from the
  largest weight down to 1, and at each level through the endpoints that reach it, in the
  order of the table.
\<close>

definition whole :: "EndpointDetail \<Rightarrow> nat" where
  "whole ep = (case ed_Weight ep of Fin r \<Rightarrow> nat \<lfloor>r\<rfloor> | _ \<Rightarrow> 0)"

definition has_whole_weight :: "EndpointDetail \<Rightarrow> bool" where
  "has_whole_weight ep \<longleftrightarrow> ed_Weight ep = Fin (of_nat (whole ep)) \<and> whole ep \<le> 2 ^ 53"

fun levels :: "nat \<Rightarrow> EndpointDetail list \<Rightarrow> EndpointDetail list" where
  "levels 0 eps = []"
| "levels (Suc v) eps = filter (\<lambda>ep. Suc v \<le> whole ep) eps @ levels v eps"

definition top_level :: "EndpointDetail list \<Rightarrow> nat" where
  "top_level eps = foldr (max \<circ> whole) eps 0"

definition cycle :: "EndpointDetail list \<Rightarrow> EndpointDetail list" where
  "cycle eps = levels (top_level eps) eps"

text \<open>Rounds of the loop, across the calls, and the endpoints they pick.\<close>

fun rounds :: "nat \<Rightarrow> EndpointDetail list \<Rightarrow> WeightedRoundRobin \<Rightarrow> WeightedRoundRobin \<times> EndpointDetail list" where
  "rounds 0 eps w = (w, [])"
| "rounds (Suc k) eps w =
     (let (w1, r) = pick_round eps w; (w2, es) = rounds k eps w1
      in (w2, (case r of None \<Rightarrow> es | Some ep \<Rightarrow> ep # es)))"

fun picks :: "nat \<Rightarrow> EndpointDetail list \<Rightarrow> WeightedRoundRobin \<Rightarrow> (WeightedRoundRobin \<times> EndpointDetail list) option" where
  "picks 0 eps w = Some (w, [])"
| "picks (Suc k) eps w =
     (case pick_loop eps w of
        None \<Rightarrow> None
      | Some (w', ep) \<Rightarrow> map_option (\<lambda>(w'', es). (w'', ep # es)) (picks k eps w'))"

lemma picks_rounds: "rounds k eps w = (w', es) \<Longrightarrow> \<exists>w''. picks (length es) eps w = Some (w'', es)"
proof (induction k arbitrary: w w' es)
  case (Suc k)
  obtain w1 r where r: "pick_round eps w = (w1, r)" by fastforce
  obtain w2 es1 where es1: "rounds k eps w1 = (w2, es1)" by fastforce
  from Suc.IH [OF es1] obtain w'' where IH: "picks (length es1) eps w1 = Some (w'', es1)" by blast
  show ?case
  proof (cases r)
    case None
    then have "es = es1" "pick_loop eps w = pick_loop eps w1"
      using Suc.prems r es1 by (simp_all add: pick_loop.simps [of eps w])
    with IH show ?thesis by (cases es1) simp_all
  next
    case (Some ep)
    then have "es = ep # es1" "pick_loop eps w = Some (w1, ep)"
      using Suc.prems r es1 by (simp_all add: pick_loop.simps [of eps w])
    with IH show ?thesis by simp
  qed
qed simp

lemma rounds_add:
  "rounds (m + k) eps w = (let (w1, es) = rounds m eps w; (w2, fs) = rounds k eps w1 in (w2, es @ fs))"
  by (induction m arbitrary: w) (simp_all add: Let_def split: prod.splits option.splits)

lemma rounds_inside:
  assumes "0 < i" "i \<le> length eps"
  shows "rounds (length eps - i) eps \<lparr>currentIndex = int i - 1, currentWeight = cw\<rparr> =
    (\<lparr>currentIndex = int (length eps) - 1, currentWeight = cw\<rparr>, filter (\<lambda>ep. f64_le cw (ed_Weight ep)) (drop i eps))"
  using assms
proof (induction "length eps - i" arbitrary: i)
  case (Suc n)
  then have i: "i < length eps" by simp
  then have d: "drop i eps = eps ! i # drop (Suc i) eps" by (simp add: Cons_nth_drop_Suc)
  have n: "n = length eps - Suc i" "length eps - i = Suc n" using Suc.hyps(2) by simp_all
  from Suc.hyps(1) [OF n(1)] i n(1) show ?case
    by (simp add: n(2) pick_round_inside [OF Suc.prems(1) i] d)
qed simp

text \<open>A sweep over the table that lowers the level to \<open>v\<close>, or resets it to \<open>v\<close>.\<close>

lemma rounds_sweep:
  assumes "eps \<noteq> []" "(idx + 1) mod int (length eps) = 0" "0 < v"
    and "(if f64_le (f64_sub cw (Fin 1)) (Fin 0) then maxWeight eps else f64_sub cw (Fin 1)) = Fin v"
  shows "rounds (length eps) eps \<lparr>currentIndex = idx, currentWeight = cw\<rparr> =
    (\<lparr>currentIndex = int (length eps) - 1, currentWeight = Fin v\<rparr>, filter (\<lambda>ep. f64_le (Fin v) (ed_Weight ep)) eps)"
proof -
  obtain e es where e: "eps = e # es" using assms(1) by (cases eps) auto
  have "pick_round eps \<lparr>currentIndex = idx, currentWeight = cw\<rparr> =
      (\<lparr>currentIndex = 0, currentWeight = Fin v\<rparr>, if f64_le (Fin v) (ed_Weight e) then Some e else None)"
    using assms(3) unfolding pick_round_start [OF assms(2)] Let_def assms(4) by (simp add: e f64_eq_def)
  moreover have "rounds (length es) eps \<lparr>currentIndex = 0, currentWeight = Fin v\<rparr> =
      (\<lparr>currentIndex = int (length eps) - 1, currentWeight = Fin v\<rparr>, filter (\<lambda>ep. f64_le (Fin v) (ed_Weight ep)) es)"
    using rounds_inside [of 1 eps "Fin v"] by (simp add: e)
  ultimately show ?thesis by (simp add: e)
qed

lemma whole_le:
  assumes "has_whole_weight ep"
  shows "f64_le (Fin (of_nat v)) (ed_Weight ep) \<longleftrightarrow> v \<le> whole ep"
  using assms unfolding has_whole_weight_def by (metis f64_eq_def f64_le_def f64_less.simps(1) float64.distinct(3)
    float64.inject(1) of_nat_eq_iff of_nat_less_iff order_le_less)

lemma whole_sub_one: "Suc v \<le> 2 ^ 53 \<Longrightarrow> f64_sub (Fin (of_nat (Suc v))) (Fin 1) = Fin (of_nat v)"
proof -
  assume "Suc v \<le> 2 ^ 53"
  then have "int v \<le> 2 ^ 53" by simp
  from fl64_int [OF _ this] show ?thesis by (simp add: f64_sub_def)
qed

lemma whole_le_0 [simp]: "f64_le (Fin (of_nat v)) (Fin 0) \<longleftrightarrow> v = 0"
  by (simp add: f64_le_def f64_eq_def)

lemma filter_whole:
  assumes "\<forall>ep \<in> set eps. has_whole_weight ep"
  shows "filter (\<lambda>ep. f64_le (Fin (of_nat v)) (ed_Weight ep)) eps = filter (\<lambda>ep. v \<le> whole ep) eps"
  using assms by (intro filter_cong) (simp_all add: whole_le)

lemma maxWeight_whole:
  assumes "\<forall>ep \<in> set eps. has_whole_weight ep"
  shows "maxWeight eps = Fin (of_nat (top_level eps))"
proof -
  have "foldl (\<lambda>m ep. if f64_less m (ed_Weight ep) then ed_Weight ep else m) (Fin (of_nat m)) eps =
      Fin (of_nat (max m (top_level eps)))" for m
    using assms
  proof (induction eps arbitrary: m)
    case (Cons e eps)
    have "ed_Weight e = Fin (of_nat (whole e))" using Cons.prems by (simp add: has_whole_weight_def)
    then have "(if f64_less (Fin (of_nat m)) (ed_Weight e) then ed_Weight e else Fin (of_nat m)) = Fin (of_nat (max m (whole e)))"
      by simp
    with Cons.IH [of "max m (whole e)"] Cons.prems show ?case by (simp add: top_level_def max.assoc)
  qed (simp add: top_level_def)
  from this [of 0] show ?thesis by (simp add: maxWeight_def)
qed

lemma rounds_levels:
  assumes "eps \<noteq> []" "\<forall>ep \<in> set eps. has_whole_weight ep" "(idx + 1) mod int (length eps) = 0" "Suc v \<le> 2 ^ 53"
  shows "rounds (v * length eps) eps \<lparr>currentIndex = idx, currentWeight = Fin (of_nat (Suc v))\<rparr> =
    (\<lparr>currentIndex = if v = 0 then idx else int (length eps) - 1, currentWeight = Fin 1\<rparr>, levels v eps)"
  using assms(3,4)
proof (induction v arbitrary: idx)
  case (Suc v)
  note sub = whole_sub_one [OF Suc.prems(2)]
  have "rounds (length eps) eps \<lparr>currentIndex = idx, currentWeight = Fin (of_nat (Suc (Suc v)))\<rparr> =
      (\<lparr>currentIndex = int (length eps) - 1, currentWeight = Fin (of_nat (Suc v))\<rparr>, filter (\<lambda>ep. Suc v \<le> whole ep) eps)"
    unfolding filter_whole [OF assms(2), symmetric]
    by (rule rounds_sweep [OF assms(1) Suc.prems(1)]) (unfold sub, simp_all only: whole_le_0, simp_all)
  moreover have "(int (length eps) - 1 + 1) mod int (length eps) = 0" by simp
  note Suc.IH [OF this]
  moreover have "Suc v \<le> 2 ^ 53" using Suc.prems(2) by simp
  ultimately show ?case by (simp add: rounds_add del: of_nat_Suc)
qed simp

lemma rounds_cycle:
  assumes "eps \<noteq> []" "\<forall>ep \<in> set eps. has_whole_weight ep" "top_level eps \<noteq> 0"
    and "(idx + 1) mod int (length eps) = 0" "f64_le (f64_sub cw (Fin 1)) (Fin 0)"
  shows "rounds (top_level eps * length eps) eps \<lparr>currentIndex = idx, currentWeight = cw\<rparr> =
    (\<lparr>currentIndex = int (length eps) - 1, currentWeight = Fin 1\<rparr>, cycle eps)"
proof -
  obtain v where v: "top_level eps = Suc v" using assms(3) by (cases "top_level eps") auto
  have "top_level eps \<le> 2 ^ 53"
    using assms(2) unfolding top_level_def by (induction eps) (simp_all add: has_whole_weight_def)
  then have b: "Suc v \<le> 2 ^ 53" using v by simp
  have "rounds (length eps) eps \<lparr>currentIndex = idx, currentWeight = cw\<rparr> =
      (\<lparr>currentIndex = int (length eps) - 1, currentWeight = Fin (of_nat (Suc v))\<rparr>, filter (\<lambda>ep. Suc v \<le> whole ep) eps)"
    unfolding filter_whole [OF assms(2), symmetric]
    by (rule rounds_sweep [OF assms(1,4)]) (use assms(5) v in \<open>simp_all add: maxWeight_whole [OF assms(2)]\<close>)
  moreover have "(int (length eps) - 1 + 1) mod int (length eps) = 0" by simp
  note rounds_levels [OF assms(1,2) this b]
  ultimately show ?thesis by (simp add: v rounds_add cycle_def del: of_nat_Suc)
qed

lemma rounds_cycles:
  assumes "eps \<noteq> []" "\<forall>ep \<in> set eps. has_whole_weight ep" "top_level eps \<noteq> 0"
    and "(idx + 1) mod int (length eps) = 0" "f64_le (f64_sub cw (Fin 1)) (Fin 0)"
  shows "\<exists>w'. rounds (c * (top_level eps * length eps)) eps \<lparr>currentIndex = idx, currentWeight = cw\<rparr> =
    (w', concat (replicate c (cycle eps)))"
  using assms(4,5)
proof (induction c arbitrary: idx cw)
  case (Suc c)
  have "f64_sub (Fin 1) (Fin 1) = Fin 0" using whole_sub_one [of 0] by simp
  then have "f64_le (f64_sub (Fin 1) (Fin 1)) (Fin 0)" by (simp add: f64_le_def f64_eq_def)
  then obtain w' where "rounds (c * (top_level eps * length eps)) eps
      \<lparr>currentIndex = int (length eps) - 1, currentWeight = Fin 1\<rparr> = (w', concat (replicate c (cycle eps)))"
    using Suc.IH [of "int (length eps) - 1" "Fin 1"] by auto
  with rounds_cycle [OF assms(1-3) Suc.prems] show ?case by (simp add: rounds_add)
qed simp

lemma length_levels: "length (levels v eps) = (\<Sum>ep\<leftarrow>eps. min v (whole ep))"
proof (induction v)
  case (Suc v)
  have "length (filter (\<lambda>ep. Suc v \<le> whole ep) eps) + (\<Sum>ep\<leftarrow>eps. min v (whole ep)) = (\<Sum>ep\<leftarrow>eps. min (Suc v) (whole ep))"
    by (induction eps) auto
  with Suc show ?case by simp
qed simp

lemma count_list_filter: "count_list (filter P xs) x = (if P x then count_list xs x else 0)"
  by (induction xs) auto

lemma count_levels: "count_list (levels v eps) ep = min v (whole ep) * count_list eps ep"
  by (induction v) (auto simp: count_list_filter min_def not_less_eq_eq le_Suc_eq)

lemma whole_le_top: "ep \<in> set eps \<Longrightarrow> whole ep \<le> top_level eps"
  by (induction eps) (auto simp: top_level_def le_max_iff_disj)

lemma length_cycle: "length (cycle eps) = (\<Sum>ep\<leftarrow>eps. whole ep)"
  unfolding cycle_def length_levels by (intro arg_cong [of _ _ sum_list] map_cong) (simp_all add: whole_le_top min_absorb2)

lemma count_cycle: "ep \<in> set eps \<Longrightarrow> count_list (cycle eps) ep = whole ep * count_list eps ep"
  by (simp add: cycle_def count_levels whole_le_top min_absorb2)

lemma pick_all_picks:
  assumes "FilterHealthy eps \<noteq> []" "picks k (FilterHealthy eps) w = Some (w', es)"
  shows "pick_all (replicate k eps) w = Some (w', map Inr es)"
  using assms(2)
proof (induction k arbitrary: w es)
  case (Suc k)
  then show ?case using assms(1) by (auto simp: Pick_def Let_def split: option.splits)
qed simp

text \<open>
  C26. The balancer is exact for whole weights. With a fixed table whose healthy endpoints have
  whole weights of at most \<open>2 ^ 53\<close>, not all of them zero, the picks of a new balancer follow the
  reference cycle again and again, and in one cycle an endpoint of weight \<open>n\<close> that is listed
  once is picked exactly \<open>n\<close> times. Endpoints that are not healthy are never picked.
\<close>

theorem picks_follow_cycle:
  assumes "\<forall>ep \<in> set eps. ed_Healthy ep \<longrightarrow> has_whole_weight ep"
    and "\<exists>ep \<in> set eps. ed_Healthy ep \<and> whole ep \<noteq> 0"
  shows "(\<exists>w. pick_all (replicate (c * (\<Sum>ep\<leftarrow>FilterHealthy eps. whole ep)) eps) NewWeightedRoundRobin =
      Some (w, map Inr (concat (replicate c (cycle (FilterHealthy eps)))))) \<and>
    (\<forall>ep \<in> set eps. count_list (cycle (FilterHealthy eps)) ep =
      (if ed_Healthy ep then whole ep * count_list eps ep else 0))"
proof -
  let ?hs = "FilterHealthy eps"
  have ne: "?hs \<noteq> []" using assms(2) by (auto simp: FilterHealthy_def filter_empty_conv)
  have w: "\<forall>ep \<in> set ?hs. has_whole_weight ep" using assms(1) by (simp add: FilterHealthy_def)
  from assms(2) obtain ep where "ep \<in> set ?hs" "whole ep \<noteq> 0" by (auto simp: FilterHealthy_def)
  then have t: "top_level ?hs \<noteq> 0" using whole_le_top [of ep ?hs] by simp
  have "f64_le (f64_sub (Fin 0) (Fin 1)) (Fin 0)"
    using lowered [of "Fin 0" 0 0] by (auto simp: f64_le_def f64_eq_def)
  then obtain w' where "rounds (c * (top_level ?hs * length ?hs)) ?hs NewWeightedRoundRobin =
      (w', concat (replicate c (cycle ?hs)))"
    unfolding NewWeightedRoundRobin_def using rounds_cycles [OF ne w t, of "- 1"] by fastforce
  from picks_rounds [OF this] obtain w'' where
    "picks (length (concat (replicate c (cycle ?hs)))) ?hs NewWeightedRoundRobin = Some (w'', concat (replicate c (cycle ?hs)))"
    by blast
  moreover have "length (concat (replicate c (cycle ?hs))) = c * (\<Sum>ep\<leftarrow>?hs. whole ep)"
    by (induction c) (simp_all add: length_cycle)
  ultimately have "\<exists>w. pick_all (replicate (c * (\<Sum>ep\<leftarrow>?hs. whole ep)) eps) NewWeightedRoundRobin =
      Some (w, map Inr (concat (replicate c (cycle ?hs))))"
    using pick_all_picks [OF ne] by auto
  moreover have "\<forall>ep \<in> set eps. count_list (cycle ?hs) ep = (if ed_Healthy ep then whole ep * count_list eps ep else 0)"
    using count_cycle [of _ ?hs] by (auto simp: FilterHealthy_def count_list_filter cycle_def count_levels)
  ultimately show ?thesis by blast
qed

definition demo_table :: "EndpointDetail list" where
  "demo_table = [demo_ep ''node1'' True (Fin 10), demo_ep ''node2'' True (Fin 30), demo_ep ''node3'' False (Fin 50)]"

theorem picks_follow_cycle_witness:
  "(\<exists>w. pick_all (replicate (10 * 40) demo_table) NewWeightedRoundRobin =
      Some (w, map Inr (concat (replicate 10 (cycle (FilterHealthy demo_table)))))) \<and>
    count_list (cycle (FilterHealthy demo_table)) (demo_ep ''node2'' True (Fin 30)) = 30"
proof -
  have a: "\<forall>ep \<in> set demo_table. ed_Healthy ep \<longrightarrow> has_whole_weight ep"
    and b: "\<exists>ep \<in> set demo_table. ed_Healthy ep \<and> whole ep \<noteq> 0"
    by (simp_all add: demo_table_def demo_ep_def has_whole_weight_def whole_def)
  have "(\<Sum>ep\<leftarrow>FilterHealthy demo_table. whole ep) = 40"
    by (simp add: FilterHealthy_def demo_table_def demo_ep_def whole_def)
  moreover have "demo_ep ''node2'' True (Fin 30) \<in> set demo_table" "count_list demo_table (demo_ep ''node2'' True (Fin 30)) = 1"
    by (simp_all add: demo_table_def demo_ep_def)
  ultimately show ?thesis
    using picks_follow_cycle [OF a b, of 10]
    by (auto simp: demo_ep_def whole_def)
qed

end
