(* ===== verification/Runway.thy ===== *)
theory Runway
  imports Messages Go_Strings
begin

section \<open>The inference workers of an agent\<close>

text \<open>
  Models \<open>internal/agent/runway\<close>: the scaling of features (\<open>runway.go\<close>) and the worker pools
  with their job queues (\<open>worker.go\<close>). The ONNX runtime is not part of the program: what it does
  with a job is a parameter. Goroutines, channels and the registry are a state, and the atomic
  actions of the goroutines are steps on it: a lock region, a send, a receive.
\<close>

subsection \<open>Scaling\<close>

text \<open>Single-precision arithmetic: one rounding per operation.\<close>

fun f32_add :: "float32 \<Rightarrow> float32 \<Rightarrow> float32" where
  "f32_add (Fin x) (Fin y) = fl32 (x + y)"
| "f32_add x y = f64_add x y"

definition f32_sub :: "float32 \<Rightarrow> float32 \<Rightarrow> float32" where
  "f32_sub x y = f32_add x (f64_neg y)"

fun f32_mul :: "float32 \<Rightarrow> float32 \<Rightarrow> float32" where
  "f32_mul (Fin x) (Fin y) = fl32 (x * y)"
| "f32_mul (Inf s) (Fin y) = (if y = 0 then NaN else Inf (s \<noteq> (y < 0)))"
| "f32_mul (Fin x) (Inf t) = (if x = 0 then NaN else Inf (t \<noteq> (x < 0)))"
| "f32_mul (Inf s) (Inf t) = Inf (s \<noteq> t)"
| "f32_mul _ _ = NaN"

text \<open>Division; a zero divisor counts as positive.\<close>

fun f32_div :: "float32 \<Rightarrow> float32 \<Rightarrow> float32" where
  "f32_div (Fin x) (Fin y) = (if y = 0 then if x = 0 then NaN else Inf (x < 0) else fl32 (x / y))"
| "f32_div (Inf s) (Fin y) = Inf (s \<noteq> (y < 0))"
| "f32_div (Fin x) (Inf t) = Fin 0"
| "f32_div _ _ = NaN"

definition xMeans :: "float32 list" where "xMeans = replicate 12 (Fin 0)"
definition xScales :: "float32 list" where "xScales = replicate 12 (Fin 1)"
definition yMean :: float32 where "yMean = Fin 0"
definition yScale :: float32 where "yScale = Fin 1"

text \<open>\<open>None\<close> is the panic of an index out of range.\<close>

definition ScaleFeatures :: "float32 list \<Rightarrow> float32 list option" where
  "ScaleFeatures raw =
     those (map (\<lambda>i. if i < length xMeans \<and> i < length xScales
                     then Some (f32_div (f32_sub (raw ! i) (xMeans ! i)) (xScales ! i)) else None) [0..<length raw])"


subsection \<open>The runtime\<close>

text \<open>
  \<open>InitRuntime\<close> with the operating system and the outcome of the library's own initialisation: the
  message the process exits with, if it does. The program itself never calls it.
\<close>

definition InitRuntime :: "string \<Rightarrow> error option \<Rightarrow> error option" where
  "InitRuntime GOOS initialized =
     (if GOOS = ''windows'' then map_option (\<lambda>e. ''Failed to initialize onnxruntime: '' @ e) initialized
      else Some (''Failed to initialize onnxruntime: Unsupported OS - '' @ GOOS))"

subsection \<open>One job\<close>

record InferenceJob =
  InputData :: "float32 list"
  ScalingEnabled :: bool
  Result :: "float32 list"
  Err :: "error list"

text \<open>What the runtime does for a job: create two tensors and run the session.\<close>

record ort =
  ort_output_err :: "error option"
  ort_input_err :: "float32 list \<Rightarrow> error option"
  ort_run :: "float32 list \<Rightarrow> float32 result"

datatype outcome = Predicted float32 | Failed error | Panicked

definition processJob :: "ort \<Rightarrow> InferenceJob \<Rightarrow> outcome" where
  "processJob rt job =
     (case (if ScalingEnabled job then ScaleFeatures (InputData job) else Some (InputData job)) of
        None \<Rightarrow> Panicked
      | Some d \<Rightarrow>
          (case ort_output_err rt of
             Some e \<Rightarrow> Failed (''failed to create output tensor: '' @ e)
           | None \<Rightarrow>
               (case ort_input_err rt d of
                  Some e \<Rightarrow> Failed (''failed to create input tensor: '' @ e)
                | None \<Rightarrow>
                    (case ort_run rt d of
                       Inl e \<Rightarrow> Failed (''inference run failed: '' @ e)
                     | Inr y \<Rightarrow> Predicted (if ScalingEnabled job then f32_add (f32_mul y yScale) yMean else y)))))"


subsection \<open>The state\<close>

text \<open>
  A pool is a \<open>ModelWorker\<close> of the source: its session, given by the path of the model and
  whether it was destroyed, its queue of jobs and whether \<open>Quit\<close> is closed. Pools and jobs are
  heap objects that goroutines share, so they are named by their position in a list. A
  goroutine belongs to a pool and is idle, busy with a job, or gone. \<open>returned\<close> is what the
  caller of a job got; \<open>submitted\<close> is a history: the pool that the job was sent to.
\<close>

record ModelWorker =
  Session :: string
  Destroyed :: bool
  Queue :: "nat list"
  Quit :: bool

datatype worker = Idle | Busy nat | Gone

record runway =
  workerRegistry :: "string \<rightharpoonup> nat"
  pools :: "ModelWorker list"
  workers :: "(nat \<times> worker) list"
  jobs :: "InferenceJob list"
  returned :: "nat \<rightharpoonup> float32 result"
  submitted :: "nat list"
  panicked :: bool

definition new_runway :: runway where
  "new_runway = \<lparr>workerRegistry = Map.empty, pools = [], workers = [], jobs = [], returned = Map.empty,
     submitted = [], panicked = False\<rparr>"

definition queueCapacity :: nat where "queueCapacity = 100"

definition StartModelWorkers :: "error option \<Rightarrow> string \<Rightarrow> string \<Rightarrow> int \<Rightarrow> runway \<Rightarrow> error option \<times> runway" where
  "StartModelWorkers load_err replicaID modelPath instanceCount s =
     (case workerRegistry s replicaID of
        Some _ \<Rightarrow> (Some (''workers for replica '' @ replicaID @ '' are already running''), s)
      | None \<Rightarrow>
          (let n = (if instanceCount \<le> 0 then 1 else instanceCount)
           in case load_err of
                Some e \<Rightarrow> (Some (''failed to load model '' @ modelPath @ '': '' @ e), s)
              | None \<Rightarrow>
                  (None,
                   s\<lparr>pools := pools s @ [\<lparr>Session = modelPath, Destroyed = False, Queue = [], Quit = False\<rparr>],
                     workers := workers s @ replicate (nat n) (length (pools s), Idle),
                     workerRegistry := (workerRegistry s)(replicaID \<mapsto> length (pools s))\<rparr>)))"

definition StopModelWorkers :: "error option \<Rightarrow> string \<Rightarrow> runway \<Rightarrow> error option \<times> runway" where
  "StopModelWorkers destroy_err replicaID s =
     (case workerRegistry s replicaID of
        None \<Rightarrow> (Some (''replica '' @ replicaID @ '' is not running''), s)
      | Some p \<Rightarrow>
          if Quit (pools s ! p) then (Some ''close of closed channel'', s\<lparr>panicked := True\<rparr>)
          else
            (destroy_err,
             s\<lparr>pools := (pools s)[p := (pools s ! p)\<lparr>Quit := True, Destroyed := True\<rparr>],
               workerRegistry := (workerRegistry s)(replicaID := None)\<rparr>))"

text \<open>The two halves of \<open>ModelInference\<close>: the lookup and the send, which does not block, \dots\<close>

definition lookup_worker :: "string \<Rightarrow> runway \<Rightarrow> nat result" where
  "lookup_worker replicaID s =
     (case workerRegistry s replicaID of
        None \<Rightarrow> Inl (''model replica '' @ replicaID @ '' is not currently loaded'')
      | Some p \<Rightarrow> Inr p)"

definition send_job :: "nat \<Rightarrow> float32 list \<Rightarrow> bool \<Rightarrow> runway \<Rightarrow> nat result \<times> runway" where
  "send_job p inputData scalingEnabled s =
     (if length (Queue (pools s ! p)) < queueCapacity
      then (Inr (length (jobs s)),
            s\<lparr>jobs := jobs s @ [\<lparr>InputData = inputData, ScalingEnabled = scalingEnabled, Result = [], Err = []\<rparr>],
              pools := (pools s)[p := (pools s ! p)\<lparr>Queue := Queue (pools s ! p) @ [length (jobs s)]\<rparr>],
              submitted := submitted s @ [p]\<rparr>)
      else (Inl ''inference worker queue is full'', s))"

text \<open>\dots and the wait for the answer, until it is there or five seconds have passed.\<close>

definition timeout_msg :: error where
  "timeout_msg = ''timeout waiting for inference result''"

definition set_job :: "nat \<Rightarrow> InferenceJob \<Rightarrow> runway \<Rightarrow> runway" where
  "set_job j job s = s\<lparr>jobs := (jobs s)[j := job]\<rparr>"

definition receive :: "nat \<Rightarrow> runway \<Rightarrow> (float32 result \<times> runway) option" where
  "receive j s =
     (case Result (jobs s ! j) of
        y # ys \<Rightarrow> Some (Inr y, set_job j ((jobs s ! j)\<lparr>Result := ys\<rparr>) s)
      | [] \<Rightarrow>
          (case Err (jobs s ! j) of
             e # es \<Rightarrow> Some (Inl e, set_job j ((jobs s ! j)\<lparr>Err := es\<rparr>) s)
           | [] \<Rightarrow> None))"

text \<open>
  The loop of a worker goroutine: it takes a job or sees that \<open>Quit\<close> is closed, and when it has a
  job it processes it and sends the answer. A send needs room in the channel, which holds one.
\<close>

definition worker_quit :: "nat \<Rightarrow> runway \<Rightarrow> runway option" where
  "worker_quit g s =
     (let p = fst (workers s ! g)
      in if snd (workers s ! g) = Idle \<and> Quit (pools s ! p)
         then Some (s\<lparr>workers := (workers s)[g := (p, Gone)]\<rparr>) else None)"

definition worker_take :: "nat \<Rightarrow> runway \<Rightarrow> runway option" where
  "worker_take g s =
     (let p = fst (workers s ! g)
      in case Queue (pools s ! p) of
           [] \<Rightarrow> None
         | j # js \<Rightarrow>
             if snd (workers s ! g) = Idle
             then Some (s\<lparr>pools := (pools s)[p := (pools s ! p)\<lparr>Queue := js\<rparr>], workers := (workers s)[g := (p, Busy j)]\<rparr>)
             else None)"

definition worker_answer :: "(nat \<Rightarrow> string \<Rightarrow> ort) \<Rightarrow> nat \<Rightarrow> runway \<Rightarrow> runway option" where
  "worker_answer rt g s =
     (case workers s ! g of
        (p, Busy j) \<Rightarrow>
          (let job = jobs s ! j; idle = s\<lparr>workers := (workers s)[g := (p, Idle)]\<rparr>
           in case processJob (rt j (Session (pools s ! p))) job of
                Panicked \<Rightarrow> Some (s\<lparr>panicked := True\<rparr>)
              | Failed e \<Rightarrow> if Err job = [] then Some (set_job j (job\<lparr>Err := [e]\<rparr>) idle) else None
              | Predicted y \<Rightarrow> if Result job = [] then Some (set_job j (job\<lparr>Result := [y]\<rparr>) idle) else None)
      | _ \<Rightarrow> None)"

text \<open>
  A call as a whole, where \<open>wait\<close> is what the wait for the answer ends with; the state is the one
  after the send.
\<close>

definition ModelInference ::
    "(nat \<Rightarrow> float32 result) \<Rightarrow> string \<Rightarrow> float32 list \<Rightarrow> bool \<Rightarrow> runway \<Rightarrow> float32 result \<times> runway" where
  "ModelInference wait replicaID inputData scalingEnabled s =
     (case lookup_worker replicaID s of
        Inl e \<Rightarrow> (Inl e, s)
      | Inr p \<Rightarrow>
          (case send_job p inputData scalingEnabled s of
             (Inl e, s') \<Rightarrow> (Inl e, s')
           | (Inr j, s') \<Rightarrow> (wait j, s')))"

text \<open>
  The steps. The lookup and the send of a call are two actions, and the pool may have been stopped
  in between, so a send may go to any pool there is.
\<close>

inductive runway_step :: "(nat \<Rightarrow> string \<Rightarrow> ort) \<Rightarrow> runway \<Rightarrow> runway \<Rightarrow> bool" for rt where
  start: "\<not> panicked s \<Longrightarrow> StartModelWorkers le r path n s = (e, s') \<Longrightarrow> runway_step rt s s'"
| stop: "\<not> panicked s \<Longrightarrow> StopModelWorkers de r s = (e, s') \<Longrightarrow> runway_step rt s s'"
| send: "\<not> panicked s \<Longrightarrow> p < length (pools s) \<Longrightarrow>
    send_job p input scaling s = (x, s') \<Longrightarrow> runway_step rt s s'"
| receive: "\<not> panicked s \<Longrightarrow> j < length (jobs s) \<Longrightarrow> returned s j = None \<Longrightarrow> receive j s = Some (x, s') \<Longrightarrow>
    runway_step rt s (s'\<lparr>returned := (returned s')(j \<mapsto> x)\<rparr>)"
| timeout: "\<not> panicked s \<Longrightarrow> j < length (jobs s) \<Longrightarrow> returned s j = None \<Longrightarrow>
    runway_step rt s (s\<lparr>returned := (returned s)(j \<mapsto> Inl timeout_msg)\<rparr>)"
| quit: "\<not> panicked s \<Longrightarrow> g < length (workers s) \<Longrightarrow> worker_quit g s = Some s' \<Longrightarrow> runway_step rt s s'"
| take: "\<not> panicked s \<Longrightarrow> g < length (workers s) \<Longrightarrow> worker_take g s = Some s' \<Longrightarrow> runway_step rt s s'"
| answer: "\<not> panicked s \<Longrightarrow> g < length (workers s) \<Longrightarrow> worker_answer rt g s = Some s' \<Longrightarrow> runway_step rt s s'"



subsection \<open>The invariant\<close>

definition outcome_of :: "(nat \<Rightarrow> string \<Rightarrow> ort) \<Rightarrow> runway \<Rightarrow> nat \<Rightarrow> outcome" where
  "outcome_of rt s j = processJob (rt j (Session (pools s ! (submitted s ! j)))) (jobs s ! j)"

definition fresh :: "runway \<Rightarrow> nat \<Rightarrow> bool" where
  "fresh s j \<longleftrightarrow> j < length (jobs s) \<and> Result (jobs s ! j) = [] \<and> Err (jobs s ! j) = []"

definition refs_ok :: "runway \<Rightarrow> bool" where
  "refs_ok s \<longleftrightarrow> length (submitted s) = length (jobs s) \<and> (\<forall>j < length (jobs s). submitted s ! j < length (pools s)) \<and>
     (\<forall>g < length (workers s). fst (workers s ! g) < length (pools s)) \<and> (\<forall>j. returned s j \<noteq> None \<longrightarrow> j < length (jobs s))"

definition registry_ok :: "runway \<Rightarrow> bool" where
  "registry_ok s \<longleftrightarrow>
     (\<forall>r p. workerRegistry s r = Some p \<longrightarrow> p < length (pools s) \<and> \<not> Quit (pools s ! p) \<and> \<not> Destroyed (pools s ! p)) \<and>
     (\<forall>r r' p. workerRegistry s r = Some p \<longrightarrow> workerRegistry s r' = Some p \<longrightarrow> r = r')"

definition queues_ok :: "runway \<Rightarrow> bool" where
  "queues_ok s \<longleftrightarrow>
     (\<forall>p < length (pools s). length (Queue (pools s ! p)) \<le> queueCapacity \<and> distinct (Queue (pools s ! p)) \<and>
        (\<forall>j \<in> set (Queue (pools s ! p)). submitted s ! j = p \<and> fresh s j))"

definition busy_ok :: "runway \<Rightarrow> bool" where
  "busy_ok s \<longleftrightarrow>
     (\<forall>g < length (workers s). \<forall>p j. workers s ! g = (p, Busy j) \<longrightarrow>
        submitted s ! j = p \<and> fresh s j \<and> j \<notin> set (Queue (pools s ! p)) \<and>
        (\<forall>g' < length (workers s). snd (workers s ! g') = Busy j \<longrightarrow> g' = g))"

definition right_answer :: "outcome \<Rightarrow> float32 result \<Rightarrow> bool" where
  "right_answer out r \<longleftrightarrow> (case r of Inr y \<Rightarrow> out = Predicted y | Inl e \<Rightarrow> e = timeout_msg \<or> out = Failed e)"

definition answers_ok :: "(nat \<Rightarrow> string \<Rightarrow> ort) \<Rightarrow> runway \<Rightarrow> bool" where
  "answers_ok rt s \<longleftrightarrow>
     (\<forall>j < length (jobs s). length (Result (jobs s ! j)) + length (Err (jobs s ! j)) \<le> 1 \<and>
        (\<forall>y \<in> set (Result (jobs s ! j)). outcome_of rt s j = Predicted y) \<and>
        (\<forall>e \<in> set (Err (jobs s ! j)). outcome_of rt s j = Failed e) \<and>
        (\<forall>r. returned s j = Some r \<longrightarrow> right_answer (outcome_of rt s j) r))"

definition runway_inv :: "(nat \<Rightarrow> string \<Rightarrow> ort) \<Rightarrow> runway \<Rightarrow> bool" where
  "runway_inv rt s \<longleftrightarrow> refs_ok s \<and> registry_ok s \<and> queues_ok s \<and> busy_ok s \<and> answers_ok rt s"

lemma processJob_channels [simp]:
  "processJob rt (job\<lparr>Result := ys\<rparr>) = processJob rt job" "processJob rt (job\<lparr>Err := es\<rparr>) = processJob rt job"
  by (cases job; simp only: processJob_def InferenceJob.simps)+

lemmas inv_defs = runway_inv_def refs_ok_def registry_ok_def queues_ok_def busy_ok_def answers_ok_def fresh_def

lemma new_runway_inv: "runway_inv rt new_runway"
  by (simp add: inv_defs new_runway_def)

lemma busyD:
  assumes "runway_inv rt s" "g < length (workers s)" "workers s ! g = (p, Busy j)"
  shows "submitted s ! j = p" "fresh s j" "j \<notin> set (Queue (pools s ! p))" "p < length (pools s)"
    "\<forall>g' < length (workers s). snd (workers s ! g') = Busy j \<longrightarrow> g' = g"
proof -
  show "submitted s ! j = p" "fresh s j" "j \<notin> set (Queue (pools s ! p))"
    "\<forall>g' < length (workers s). snd (workers s ! g') = Busy j \<longrightarrow> g' = g"
    using assms unfolding runway_inv_def busy_ok_def by blast+
  have "fst (workers s ! g) < length (pools s)" using assms(1,2) by (simp add: runway_inv_def refs_ok_def)
  then show "p < length (pools s)" by (simp add: assms(3))
qed

lemma outcome_of_append:
  "j < length (jobs s) \<Longrightarrow> refs_ok s \<Longrightarrow> outcome_of rt (s\<lparr>pools := pools s @ ps, workers := ws, workerRegistry := m\<rparr>) j = outcome_of rt s j"
  by (simp add: outcome_of_def refs_ok_def nth_append)

lemma start_inv:
  assumes "runway_inv rt s" "StartModelWorkers le r path n s = (e, s')"
  shows "runway_inv rt s'"
proof (cases "s' = s")
  case False
  let ?s = "s\<lparr>pools := pools s @ [\<lparr>Session = path, Destroyed = False, Queue = [], Quit = False\<rparr>],
      workers := workers s @ replicate (nat (if n \<le> 0 then 1 else n)) (length (pools s), Idle),
      workerRegistry := (workerRegistry s)(r \<mapsto> length (pools s))\<rparr>"
  from assms(2) False have s': "s' = ?s" by (auto simp: StartModelWorkers_def Let_def split: option.splits)
  have o: "j < length (jobs s) \<Longrightarrow> outcome_of rt ?s j = outcome_of rt s j" for j
    using assms(1) by (simp add: outcome_of_append runway_inv_def)
  have "refs_ok ?s" using assms(1) by (auto simp: inv_defs nth_append)
  moreover have lt: "workerRegistry s r' = Some p \<Longrightarrow> p < length (pools s)" for r' p
    using assms(1) by (simp add: runway_inv_def registry_ok_def)
  have "registry_ok ?s"
    using assms(1) unfolding runway_inv_def registry_ok_def by (auto simp: nth_append dest: lt intro: less_SucI)
  moreover have "queues_ok ?s" using assms(1) by (auto simp: inv_defs nth_append)
  moreover
  have w: "g < length (workers s) \<and> workers ?s ! g = workers s ! g"
    if "g < length (workers ?s)" "snd (workers ?s ! g) = Busy j" for g j
    using that by (simp add: nth_append split: if_splits)
  have "busy_ok ?s" unfolding busy_ok_def
  proof (intro allI impI)
    fix g p j assume g: "g < length (workers ?s)" "workers ?s ! g = (p, Busy j)"
    with w [of g j] have g': "g < length (workers s)" "workers s ! g = (p, Busy j)" by simp_all
    note b = busyD [OF assms(1) g']
    have "\<forall>g' < length (workers ?s). snd (workers ?s ! g') = Busy j \<longrightarrow> g' = g"
    proof (intro allI impI)
      fix g' assume "g' < length (workers ?s)" "snd (workers ?s ! g') = Busy j"
      with w [of g' j] b(5) show "g' = g" by simp
    qed
    with b show "submitted ?s ! j = p \<and> fresh ?s j \<and> j \<notin> set (Queue (pools ?s ! p)) \<and>
        (\<forall>g' < length (workers ?s). snd (workers ?s ! g') = Busy j \<longrightarrow> g' = g)"
      by (simp add: fresh_def nth_append)
  qed
  moreover have "answers_ok rt ?s" using assms(1) o by (auto simp: runway_inv_def answers_ok_def)
  ultimately show ?thesis by (simp add: runway_inv_def s')
qed (use assms(1) in simp)

lemma busy_update:
  assumes "runway_inv rt s" "h < length (workers s)" "workers s ! h = (a, Busy k)" "g < length (workers s)" "snd v \<noteq> Busy k"
  shows "\<forall>g' < length ((workers s)[g := v]). snd ((workers s)[g := v] ! g') = Busy k \<longrightarrow> g' = h"
proof (intro allI impI)
  fix g' assume g': "g' < length ((workers s)[g := v])" "snd ((workers s)[g := v] ! g') = Busy k"
  then have "g' \<noteq> g" using assms(4,5) by auto
  with g' busyD(5) [OF assms(1-3)] show "g' = h" by simp
qed

lemma refs_update:
  assumes "refs_ok s" "fst v < length (pools s)"
  shows "\<forall>h < length (workers s). fst ((workers s)[g := v] ! h) < length (pools s)"
proof (intro allI impI)
  fix h assume "h < length (workers s)"
  with assms show "fst ((workers s)[g := v] ! h) < length (pools s)" by (cases "h = g") (simp_all add: refs_ok_def)
qed

lemma busy_ok_cong:
  assumes "workers s' = workers s" "submitted s' = submitted s" "jobs s' = jobs s"
    and "\<forall>p. Queue (pools s' ! p) = Queue (pools s ! p)"
  shows "busy_ok s' = busy_ok s"
  unfolding busy_ok_def fresh_def assms(1-3) assms(4) [rule_format] ..

lemma queueD:
  assumes "runway_inv rt s" "p < length (pools s)"
  shows "length (Queue (pools s ! p)) \<le> queueCapacity" "distinct (Queue (pools s ! p))"
    "j \<in> set (Queue (pools s ! p)) \<Longrightarrow> submitted s ! j = p" "j \<in> set (Queue (pools s ! p)) \<Longrightarrow> fresh s j"
  using assms unfolding runway_inv_def queues_ok_def by blast+

lemma busy_not_queued:
  assumes "runway_inv rt s" "g < length (workers s)" "workers s ! g = (p, Busy j)" "q < length (pools s)"
  shows "j \<notin> set (Queue (pools s ! q))"
  using busyD [OF assms(1-3)] queueD(3) [OF assms(1,4)] by blast

lemma runway_inv_panicked [simp]: "runway_inv rt (s\<lparr>panicked := b\<rparr>) = runway_inv rt s"
  by (simp add: inv_defs outcome_of_def)

lemma stop_inv:
  assumes "runway_inv rt s" "StopModelWorkers de r s = (e, s')"
  shows "runway_inv rt s' \<and> panicked s' = panicked s"
proof (cases "workerRegistry s r")
  case (Some p)
  let ?ps = "(pools s)[p := (pools s ! p)\<lparr>Quit := True, Destroyed := True\<rparr>]"
  let ?s = "s\<lparr>pools := ?ps, workerRegistry := (workerRegistry s)(r := None)\<rparr>"
  have reg: "registry_ok s" using assms(1) by (simp add: runway_inv_def)
  have "\<not> Quit (pools s ! p)" and p: "p < length (pools s)" using reg Some by (auto simp: registry_ok_def)
  then have s': "s' = ?s" using assms(2) Some by (simp add: StopModelWorkers_def)
  have q: "Queue (?ps ! i) = Queue (pools s ! i)" "Session (?ps ! i) = Session (pools s ! i)" for i
    using p by (cases "i = p"; simp)+
  have "registry_ok ?s" using reg Some p by (auto simp: registry_ok_def nth_list_update)
  moreover have "queues_ok ?s" "refs_ok ?s"
    using assms(1) by (simp_all add: runway_inv_def queues_ok_def refs_ok_def q fresh_def)
  moreover have "busy_ok ?s = busy_ok s" by (rule busy_ok_cong) (simp_all add: q)
  then have "busy_ok ?s" using assms(1) by (simp add: runway_inv_def)
  moreover have "outcome_of rt ?s j = outcome_of rt s j" for j by (simp add: outcome_of_def q)
  then have "answers_ok rt ?s" using assms(1) by (simp add: runway_inv_def answers_ok_def)
  ultimately show ?thesis by (simp add: runway_inv_def s')
qed (use assms in \<open>simp add: StopModelWorkers_def\<close>)

lemma timeout_inv:
  assumes "runway_inv rt s" "j < length (jobs s)"
  shows "runway_inv rt (s\<lparr>returned := (returned s)(j \<mapsto> Inl timeout_msg)\<rparr>)"
proof -
  let ?s = "s\<lparr>returned := (returned s)(j \<mapsto> Inl timeout_msg)\<rparr>"
  have "outcome_of rt ?s i = outcome_of rt s i" for i by (simp add: outcome_of_def)
  then have "answers_ok rt ?s" using assms by (simp add: runway_inv_def answers_ok_def right_answer_def)
  moreover have "refs_ok ?s" using assms by (auto simp: runway_inv_def refs_ok_def)
  moreover have "registry_ok ?s" "queues_ok ?s"
    using assms(1) by (simp_all add: runway_inv_def registry_ok_def queues_ok_def fresh_def)
  moreover have "busy_ok ?s = busy_ok s" by (rule busy_ok_cong) simp_all
  then have "busy_ok ?s" using assms(1) by (simp add: runway_inv_def)
  ultimately show ?thesis by (simp add: runway_inv_def)
qed

lemma quit_inv:
  assumes "runway_inv rt s" "g < length (workers s)" "worker_quit g s = Some s'"
  shows "runway_inv rt s'"
proof -
  from assms(3) have g: "snd (workers s ! g) = Idle" and
    s': "s' = s\<lparr>workers := (workers s)[g := (fst (workers s ! g), Gone)]\<rparr>"
    by (auto simp: worker_quit_def Let_def split: if_splits)
  have "busy_ok s'" unfolding busy_ok_def
  proof (intro allI impI)
    fix h p j assume h: "h < length (workers s')" "workers s' ! h = (p, Busy j)"
    then have h': "h < length (workers s)" "workers s ! h = (p, Busy j)" "h \<noteq> g"
      using assms(2) by (cases "h = g"; simp add: s')+
    have "\<forall>g' < length (workers s'). snd (workers s' ! g') = Busy j \<longrightarrow> g' = h"
      using busy_update [OF assms(1) h'(1,2) assms(2), of "(fst (workers s ! g), Gone)"] by (simp add: s')
    with busyD(1-3) [OF assms(1) h'(1,2)] show "submitted s' ! j = p \<and> fresh s' j \<and> j \<notin> set (Queue (pools s' ! p)) \<and>
        (\<forall>g' < length (workers s'). snd (workers s' ! g') = Busy j \<longrightarrow> g' = h)"
      by (simp add: s' fresh_def)
  qed
  moreover have r: "refs_ok s" using assms(1) by (simp add: runway_inv_def)
  then have "fst (fst (workers s ! g), Gone) < length (pools s)" using assms(2) by (simp add: refs_ok_def)
  from refs_update [OF r this, of g] have "refs_ok s'" using r by (simp add: s' refs_ok_def)
  moreover have "registry_ok s'" "queues_ok s'"
    using assms(1) by (simp_all add: s' runway_inv_def registry_ok_def queues_ok_def fresh_def)
  moreover have "outcome_of rt s' i = outcome_of rt s i" for i by (simp add: s' outcome_of_def)
  then have "answers_ok rt s'" using assms(1) by (simp add: s' runway_inv_def answers_ok_def)
  ultimately show ?thesis by (simp add: runway_inv_def)
qed

lemma take_inv:
  assumes "runway_inv rt s" "g < length (workers s)" "worker_take g s = Some s'"
  shows "runway_inv rt s'"
proof -
  obtain p where p: "p = fst (workers s ! g)" by simp
  from assms(3) obtain j js where q: "Queue (pools s ! p) = j # js" and g: "snd (workers s ! g) = Idle" and
    s': "s' = s\<lparr>pools := (pools s)[p := (pools s ! p)\<lparr>Queue := js\<rparr>], workers := (workers s)[g := (p, Busy j)]\<rparr>"
    by (auto simp: worker_take_def Let_def p split: list.splits if_splits)
  have pl: "p < length (pools s)" using assms(1,2) by (simp add: p runway_inv_def refs_ok_def)
  note Q = queueD [OF assms(1) pl, unfolded q]
  have sub: "set (Queue (pools s' ! i)) \<subseteq> set (Queue (pools s ! i))" for i
    using pl q by (cases "i = p") (auto simp: s')
  have ses: "Session (pools s' ! i) = Session (pools s ! i)" "Quit (pools s' ! i) = Quit (pools s ! i)"
    "Destroyed (pools s' ! i) = Destroyed (pools s ! i)" for i
    using pl by (cases "i = p"; simp add: s')+
  have fr: "fresh s' i = fresh s i" for i by (simp add: s' fresh_def)
  have "queues_ok s'"
  proof -
    have "length (Queue (pools s' ! i)) \<le> queueCapacity \<and> distinct (Queue (pools s' ! i))" if "i < length (pools s)" for i
      using queueD(1,2) [OF assms(1) that] Q pl by (cases "i = p") (simp_all add: s')
    moreover have "submitted s' ! k = i \<and> fresh s' k" if "i < length (pools s)" "k \<in> set (Queue (pools s' ! i))" for i k
    proof -
      have k: "k \<in> set (Queue (pools s ! i))" using that(2) sub [of i] by blast
      show ?thesis using queueD(3,4) [OF assms(1) that(1) k] by (simp add: fr) (simp add: s')
    qed
    ultimately show ?thesis by (simp add: queues_ok_def) (simp add: s')
  qed
  moreover have "busy_ok s'" unfolding busy_ok_def
  proof (intro allI impI)
    fix h a k assume h: "h < length (workers s')" "workers s' ! h = (a, Busy k)"
    have others: "i = g" if "i < length (workers s)" "snd (workers s' ! i) = Busy j" for i
    proof (rule ccontr)
      assume "i \<noteq> g"
      with that obtain b where "workers s ! i = (b, Busy j)" by (cases "workers s ! i") (simp add: s')
      from busy_not_queued [OF assms(1) that(1) this pl] q show False by simp
    qed
    show "submitted s' ! k = a \<and> fresh s' k \<and> k \<notin> set (Queue (pools s' ! a)) \<and>
        (\<forall>g' < length (workers s'). snd (workers s' ! g') = Busy k \<longrightarrow> g' = h)"
    proof (cases "h = g")
      case True
      with h assms(2) have "a = p" "k = j" by (simp_all add: s')
      with True Q pl others show ?thesis by (simp add: fr) (simp add: s')
    next
      case False
      with h have h': "h < length (workers s)" "workers s ! h = (a, Busy k)" by (simp_all add: s')
      have "k \<noteq> j" using others [of h] h' False h(2) by auto
      then have "\<forall>g' < length (workers s'). snd (workers s' ! g') = Busy k \<longrightarrow> g' = h"
        using busy_update [OF assms(1) h' assms(2), of "(p, Busy j)"] by (simp add: s')
      moreover have "submitted s' = submitted s" by (simp add: s')
      ultimately show ?thesis using busyD(1-3) [OF assms(1) h'] sub [of a] unfolding fr by auto
    qed
  qed
  moreover have r: "refs_ok s" using assms(1) by (simp add: runway_inv_def)
  have "fst (p, Busy j) < length (pools s)" using pl by simp
  from refs_update [OF r this, of g] have "refs_ok s'" using r pl by (simp add: s' refs_ok_def)
  moreover have "registry_ok s'" using assms(1) by (simp add: runway_inv_def registry_ok_def ses) (simp add: s')
  moreover have "outcome_of rt s' i = outcome_of rt s i" for i by (simp add: outcome_of_def ses) (simp add: s')
  then have "answers_ok rt s'" using assms(1) by (simp add: runway_inv_def answers_ok_def) (simp add: s')
  ultimately show ?thesis by (simp add: runway_inv_def)
qed

lemma send_inv:
  assumes "runway_inv rt s" "p < length (pools s)" "send_job p input scaling s = (x, s')"
  shows "runway_inv rt s' \<and> panicked s' = panicked s"
proof (cases "length (Queue (pools s ! p)) < queueCapacity")
  case True
  let ?n = "length (jobs s)"
  from assms(3) True have s': "s' = s\<lparr>jobs := jobs s @ [\<lparr>InputData = input, ScalingEnabled = scaling, Result = [], Err = []\<rparr>],
      pools := (pools s)[p := (pools s ! p)\<lparr>Queue := Queue (pools s ! p) @ [?n]\<rparr>], submitted := submitted s @ [p]\<rparr>"
    by (simp add: send_job_def)
  have r: "refs_ok s" using assms(1) by (simp add: runway_inv_def)
  then have sub: "i < ?n \<Longrightarrow> submitted s' ! i = submitted s ! i" "submitted s' ! ?n = p" for i
    by (simp_all add: s' refs_ok_def nth_append)
  have ses: "Session (pools s' ! i) = Session (pools s ! i)" "Quit (pools s' ! i) = Quit (pools s ! i)"
    "Destroyed (pools s' ! i) = Destroyed (pools s ! i)" for i
    using assms(2) by (cases "i = p"; simp add: s')+
  have fr: "fresh s i \<Longrightarrow> fresh s' i" "fresh s' ?n" for i by (simp_all add: s' fresh_def nth_append)
  have "queues_ok s'" unfolding queues_ok_def
  proof (intro allI impI)
    fix i assume "i < length (pools s')"
    then have i: "i < length (pools s)" by (simp add: s')
    note Q = queueD [OF assms(1) i]
    have old: "submitted s' ! j = i \<and> fresh s' j" "j \<noteq> ?n" if "j \<in> set (Queue (pools s ! i))" for j
      using Q(3,4) [OF that] sub(1) [of j] fr(1) [of j] by (auto simp: fresh_def)
    show "length (Queue (pools s' ! i)) \<le> queueCapacity \<and> distinct (Queue (pools s' ! i)) \<and>
        (\<forall>j \<in> set (Queue (pools s' ! i)). submitted s' ! j = i \<and> fresh s' j)"
    proof (cases "i = p")
      case True
      then have "Queue (pools s' ! i) = Queue (pools s ! i) @ [?n]" using assms(2) by (simp add: s')
      with True Q(1,2) old sub(2) fr(2) \<open>length (Queue (pools s ! p)) < queueCapacity\<close> show ?thesis by auto
    next
      case False
      then have "Queue (pools s' ! i) = Queue (pools s ! i)" by (simp add: s')
      with Q(1,2) old show ?thesis by simp
    qed
  qed
  moreover have "busy_ok s'" unfolding busy_ok_def
  proof (intro allI impI)
    fix h a k assume "h < length (workers s')" "workers s' ! h = (a, Busy k)"
    then have h: "h < length (workers s)" "workers s ! h = (a, Busy k)" by (simp_all add: s')
    note B = busyD [OF assms(1) h]
    have "k < ?n" using B(2) by (simp add: fresh_def)
    then have "k \<notin> set (Queue (pools s' ! a))" using B(3) assms(2) by (cases "a = p") (simp_all add: s')
    moreover have "workers s' = workers s" by (simp add: s')
    ultimately show "submitted s' ! k = a \<and> fresh s' k \<and> k \<notin> set (Queue (pools s' ! a)) \<and>
        (\<forall>g' < length (workers s'). snd (workers s' ! g') = Busy k \<longrightarrow> g' = h)"
      using B(1,2,5) sub(1) [OF \<open>k < ?n\<close>] fr(1) [of k] by simp
  qed
  moreover have "refs_ok s'"
    using r assms(2) by (auto simp: s' refs_ok_def nth_append less_Suc_eq)
  moreover have "registry_ok s'"
    using assms(1) by (simp add: runway_inv_def registry_ok_def ses) (simp add: s')
  moreover have "outcome_of rt s' i = outcome_of rt s i" if "i < ?n" for i
    using that sub(1) [OF that] by (simp add: outcome_of_def ses) (simp add: s' nth_append)
  moreover have "returned s ?n = None" using r by (metis refs_ok_def less_irrefl not_None_eq)
  ultimately show ?thesis
    using assms(1) by (simp add: runway_inv_def answers_ok_def) (auto simp: s' nth_append less_Suc_eq)
qed (use assms in \<open>simp add: send_job_def\<close>)

text \<open>A change to the channels of a job that is neither queued nor worked on.\<close>

definition touches_job :: "nat \<Rightarrow> runway \<Rightarrow> runway \<Rightarrow> bool" where
  "touches_job j s s' \<longleftrightarrow>
     (\<exists>job m. s' = s\<lparr>jobs := (jobs s)[j := job], returned := m\<rparr> \<and> j < length (jobs s) \<and>
        (\<forall>i. m i \<noteq> None \<longrightarrow> i < length (jobs s)) \<and>
        InputData job = InputData (jobs s ! j) \<and> ScalingEnabled job = ScalingEnabled (jobs s ! j))"

lemma processJob_cong:
  assumes "InputData job = InputData job'" "ScalingEnabled job = ScalingEnabled job'"
  shows "processJob rt job = processJob rt job'"
  unfolding processJob_def assms ..

lemma touches_outcome: "touches_job j s s' \<Longrightarrow> outcome_of rt s' i = outcome_of rt s i"
  by (cases "i = j") (auto simp: touches_job_def outcome_of_def intro: processJob_cong)

lemma touches_inv:
  assumes "runway_inv rt s" "touches_job j s s'"
    and "\<forall>q < length (pools s). j \<notin> set (Queue (pools s ! q))"
    and "\<forall>g < length (workers s). snd (workers s ! g) \<noteq> Busy j"
    and "answers_ok rt s'"
  shows "runway_inv rt s'"
proof -
  from assms(2) obtain job m where s': "s' = s\<lparr>jobs := (jobs s)[j := job], returned := m\<rparr>" "j < length (jobs s)"
    and m: "\<forall>i. m i \<noteq> None \<longrightarrow> i < length (jobs s)"
    unfolding touches_job_def by blast
  have fr: "fresh s' i = fresh s i" if "i \<noteq> j" for i using that by (simp add: s' fresh_def)
  have "queues_ok s'" unfolding queues_ok_def
  proof (intro allI impI)
    fix p assume "p < length (pools s')"
    then have p: "p < length (pools s)" by (simp add: s')
    have "i \<noteq> j" if "i \<in> set (Queue (pools s ! p))" for i using assms(3) p that by blast
    with queueD [OF assms(1) p] fr show "length (Queue (pools s' ! p)) \<le> queueCapacity \<and> distinct (Queue (pools s' ! p)) \<and>
        (\<forall>i \<in> set (Queue (pools s' ! p)). submitted s' ! i = p \<and> fresh s' i)"
      by (simp add: s'(1))
  qed
  moreover have "busy_ok s'" unfolding busy_ok_def
  proof (intro allI impI)
    fix h a k assume "h < length (workers s')" "workers s' ! h = (a, Busy k)"
    then have h: "h < length (workers s)" "workers s ! h = (a, Busy k)" by (simp_all add: s'(1))
    then have "k \<noteq> j" using assms(4) by force
    then have "fresh s' k" using fr busyD(2) [OF assms(1) h] by simp
    moreover have "workers s' = workers s" "pools s' = pools s" "submitted s' = submitted s" by (simp_all add: s'(1))
    ultimately show "submitted s' ! k = a \<and> fresh s' k \<and> k \<notin> set (Queue (pools s' ! a)) \<and>
        (\<forall>g' < length (workers s'). snd (workers s' ! g') = Busy k \<longrightarrow> g' = h)"
      using busyD(1,3,5) [OF assms(1) h] by simp
  qed
  moreover have "refs_ok s'" "registry_ok s'"
    using assms(1) m by (simp_all add: s'(1) runway_inv_def refs_ok_def registry_ok_def)
  ultimately show ?thesis using assms(5) by (simp add: runway_inv_def)
qed

lemma not_fresh_idle:
  assumes "runway_inv rt s" "\<not> fresh s j"
  shows "\<forall>q < length (pools s). j \<notin> set (Queue (pools s ! q))" "\<forall>g < length (workers s). snd (workers s ! g) \<noteq> Busy j"
  using queueD(4) [OF assms(1)] busyD(2) [OF assms(1)] assms(2) by (blast, metis prod.collapse)

lemma answersD:
  assumes "runway_inv rt s" "j < length (jobs s)"
  shows "length (Result (jobs s ! j)) + length (Err (jobs s ! j)) \<le> 1"
    "\<forall>y \<in> set (Result (jobs s ! j)). outcome_of rt s j = Predicted y"
    "\<forall>e \<in> set (Err (jobs s ! j)). outcome_of rt s j = Failed e"
    "\<forall>r. returned s j = Some r \<longrightarrow> right_answer (outcome_of rt s j) r"
  using assms unfolding runway_inv_def answers_ok_def by blast+

lemma receive_inv:
  assumes "runway_inv rt s" "j < length (jobs s)" "receive j s = Some (x, s1)"
  shows "runway_inv rt (s1\<lparr>returned := (returned s1)(j \<mapsto> x)\<rparr>)"
proof -
  let ?job = "jobs s ! j" and ?s = "s1\<lparr>returned := (returned s1)(j \<mapsto> x)\<rparr>"
  note A = answersD(1-3) [OF assms(1,2)]
  obtain job where s1: "s1 = s\<lparr>jobs := (jobs s)[j := job]\<rparr>" and job: "InputData job = InputData ?job"
      "ScalingEnabled job = ScalingEnabled ?job" "Result job = []" "Err job = []"
    and x: "right_answer (outcome_of rt s j) x" and nf: "\<not> fresh s j"
  proof (cases "Result ?job")
    case (Cons y ys)
    with A(1) have "ys = []" "Err ?job = []" by simp_all
    moreover have "x = Inr y" "s1 = s\<lparr>jobs := (jobs s)[j := ?job\<lparr>Result := ys\<rparr>]\<rparr>"
      using Cons assms(3) by (simp_all add: receive_def set_job_def)
    moreover have "outcome_of rt s j = Predicted y" using A(2) Cons by simp
    ultimately show thesis
      by (intro that [of "?job\<lparr>Result := ys\<rparr>"]) (simp_all add: right_answer_def fresh_def Cons)
  next
    case Nil
    show thesis
    proof (cases "Err ?job")
      case (Cons e es)
      with A(1) Nil have "es = []" by simp
      moreover have "x = Inl e" "s1 = s\<lparr>jobs := (jobs s)[j := ?job\<lparr>Err := es\<rparr>]\<rparr>"
        using Cons Nil assms(3) by (simp_all add: receive_def set_job_def)
      moreover have "outcome_of rt s j = Failed e" using A(3) Cons by simp
      ultimately show thesis
        by (intro that [of "?job\<lparr>Err := es\<rparr>"]) (simp_all add: right_answer_def fresh_def Nil Cons)
    qed (use Nil assms(3) in \<open>simp add: receive_def\<close>)
  qed
  have r: "\<forall>i. returned s i \<noteq> None \<longrightarrow> i < length (jobs s)" using assms(1) by (simp add: runway_inv_def refs_ok_def)
  have t: "touches_job j s ?s"
    unfolding touches_job_def
    by (intro exI [of _ job] exI [of _ "(returned s)(j \<mapsto> x)"]) (use r job assms(2) in \<open>auto simp: s1\<close>)
  have "answers_ok rt ?s" unfolding answers_ok_def touches_outcome [OF t]
  proof (intro allI impI)
    fix i assume "i < length (jobs ?s)"
    then have i: "i < length (jobs s)" by (simp add: s1)
    show "length (Result (jobs ?s ! i)) + length (Err (jobs ?s ! i)) \<le> 1 \<and>
        (\<forall>y \<in> set (Result (jobs ?s ! i)). outcome_of rt s i = Predicted y) \<and>
        (\<forall>e \<in> set (Err (jobs ?s ! i)). outcome_of rt s i = Failed e) \<and>
        (\<forall>r. returned ?s i = Some r \<longrightarrow> right_answer (outcome_of rt s i) r)"
    proof (cases "i = j")
      case True
      then show ?thesis using x job(3,4) assms(2) by (simp add: s1)
    next
      case False
      then show ?thesis using answersD [OF assms(1) i] by (simp add: s1)
    qed
  qed
  then show ?thesis by (rule touches_inv [OF assms(1) t not_fresh_idle [OF assms(1) nf]])
qed

lemma answer_inv:
  assumes "runway_inv rt s" "g < length (workers s)" "worker_answer rt g s = Some s'"
  shows "runway_inv rt s'"
proof (cases "s' = s\<lparr>panicked := True\<rparr>")
  case False
  from assms(3) obtain p j where w: "workers s ! g = (p, Busy j)"
    by (auto simp: worker_answer_def split: prod.splits worker.splits)
  note B = busyD [OF assms(1,2) w]
  have j: "j < length (jobs s)" "Result (jobs s ! j) = []" "Err (jobs s ! j) = []" using B(2) by (simp_all add: fresh_def)
  let ?idle = "s\<lparr>workers := (workers s)[g := (p, Idle)]\<rparr>"
  have out: "processJob (rt j (Session (pools s ! p))) (jobs s ! j) = outcome_of rt s j"
    by (simp add: outcome_of_def B(1))
  obtain job where s': "s' = set_job j job ?idle" and job: "InputData job = InputData (jobs s ! j)"
      "ScalingEnabled job = ScalingEnabled (jobs s ! j)" "length (Result job) + length (Err job) \<le> 1"
      "\<forall>y \<in> set (Result job). outcome_of rt s j = Predicted y" "\<forall>e \<in> set (Err job). outcome_of rt s j = Failed e"
  proof (cases "outcome_of rt s j")
    case (Predicted y)
    with assms(3) w j that [of "(jobs s ! j)\<lparr>Result := [y]\<rparr>"] show thesis
      by (simp add: worker_answer_def out Let_def)
  next
    case (Failed e)
    with assms(3) w j that [of "(jobs s ! j)\<lparr>Err := [e]\<rparr>"] show thesis
      by (simp add: worker_answer_def out Let_def)
  next
    case Panicked
    with assms(3) w False show thesis by (simp add: worker_answer_def out Let_def)
  qed
  have quiet: "\<forall>h < length (workers ?idle). snd (workers ?idle ! h) \<noteq> Busy j"
  proof (intro allI impI)
    fix h assume "h < length (workers ?idle)"
    then show "snd (workers ?idle ! h) \<noteq> Busy j" using B(5) by (cases "h = g") auto
  qed
  have "runway_inv rt ?idle"
  proof -
    have "busy_ok ?idle" unfolding busy_ok_def
    proof (intro allI impI)
      fix h a k assume "h < length (workers ?idle)" "workers ?idle ! h = (a, Busy k)"
      then have h: "h < length (workers s)" "workers s ! h = (a, Busy k)" using assms(2) by (cases "h = g"; simp)+
      from busyD(1-3) [OF assms(1) h] busy_update [OF assms(1) h assms(2), of "(p, Idle)"]
      show "submitted ?idle ! k = a \<and> fresh ?idle k \<and> k \<notin> set (Queue (pools ?idle ! a)) \<and>
          (\<forall>g' < length (workers ?idle). snd (workers ?idle ! g') = Busy k \<longrightarrow> g' = h)"
        by (simp add: fresh_def)
    qed
    moreover have r: "refs_ok s" using assms(1) by (simp add: runway_inv_def)
    have "fst (p, Idle) < length (pools s)" using B(4) by simp
    from refs_update [OF r this, of g] have "refs_ok ?idle" using r by (simp add: refs_ok_def)
    moreover have "registry_ok ?idle" "queues_ok ?idle"
      using assms(1) by (simp_all add: runway_inv_def registry_ok_def queues_ok_def fresh_def)
    moreover have "outcome_of rt ?idle i = outcome_of rt s i" for i by (simp add: outcome_of_def)
    then have "answers_ok rt ?idle" using assms(1) by (simp add: runway_inv_def answers_ok_def)
    ultimately show ?thesis by (simp add: runway_inv_def)
  qed
  moreover have r: "\<forall>i. returned s i \<noteq> None \<longrightarrow> i < length (jobs s)" using assms(1) by (simp add: runway_inv_def refs_ok_def)
  have t: "touches_job j ?idle s'"
    unfolding touches_job_def
    by (intro exI [of _ job] exI [of _ "returned s"]) (use r job(1,2) j(1) in \<open>simp add: s' set_job_def\<close>)
  moreover have "\<forall>q < length (pools ?idle). j \<notin> set (Queue (pools ?idle ! q))"
    using busy_not_queued [OF assms(1,2) w] by simp
  moreover have "answers_ok rt s'" unfolding answers_ok_def touches_outcome [OF t]
  proof (intro allI impI)
    fix i assume "i < length (jobs s')"
    then have i: "i < length (jobs s)" by (simp add: s' set_job_def)
    have o: "outcome_of rt ?idle i = outcome_of rt s i" by (simp add: outcome_of_def)
    show "length (Result (jobs s' ! i)) + length (Err (jobs s' ! i)) \<le> 1 \<and>
        (\<forall>y \<in> set (Result (jobs s' ! i)). outcome_of rt ?idle i = Predicted y) \<and>
        (\<forall>e \<in> set (Err (jobs s' ! i)). outcome_of rt ?idle i = Failed e) \<and>
        (\<forall>r. returned s' i = Some r \<longrightarrow> right_answer (outcome_of rt ?idle i) r)"
      unfolding o
    proof (cases "i = j")
      case True
      with j(1) have "jobs s' ! i = job" "returned s' = returned s" by (simp_all add: s' set_job_def)
      then show "length (Result (jobs s' ! i)) + length (Err (jobs s' ! i)) \<le> 1 \<and>
          (\<forall>y \<in> set (Result (jobs s' ! i)). outcome_of rt s i = Predicted y) \<and>
          (\<forall>e \<in> set (Err (jobs s' ! i)). outcome_of rt s i = Failed e) \<and>
          (\<forall>r. returned s' i = Some r \<longrightarrow> right_answer (outcome_of rt s i) r)"
        using job(3-5) answersD(4) [OF assms(1) i] True by simp
    next
      case False
      then have "jobs s' ! i = jobs s ! i" "returned s' = returned s" by (simp_all add: s' set_job_def)
      then show "length (Result (jobs s' ! i)) + length (Err (jobs s' ! i)) \<le> 1 \<and>
          (\<forall>y \<in> set (Result (jobs s' ! i)). outcome_of rt s i = Predicted y) \<and>
          (\<forall>e \<in> set (Err (jobs s' ! i)). outcome_of rt s i = Failed e) \<and>
          (\<forall>r. returned s' i = Some r \<longrightarrow> right_answer (outcome_of rt s i) r)"
        using answersD [OF assms(1) i] by simp
    qed
  qed
  ultimately show ?thesis by (rule touches_inv [OF _ _ _ quiet])
qed (use assms(1) in simp)

lemma step_inv: "runway_step rt s s' \<Longrightarrow> runway_inv rt s \<Longrightarrow> runway_inv rt s'"
proof (induction rule: runway_step.induct)
  case (start s le r path n e s')
  show ?case by (rule start_inv [OF start(3,2)])
next
  case (stop s de r e s')
  show ?case using stop_inv [OF stop(3,2)] ..
next
  case (send s p input scaling x s')
  show ?case using send_inv [OF send(4,2,3)] ..
next
  case (receive s j x s')
  show ?case by (rule receive_inv [OF receive(5,2,4)])
next
  case (timeout s j)
  show ?case by (rule timeout_inv [OF timeout(4,2)])
next
  case (quit s g s')
  show ?case by (rule quit_inv [OF quit(4,2,3)])
next
  case (take s g s')
  show ?case by (rule take_inv [OF take(4,2,3)])
next
  case (answer s g s')
  show ?case by (rule answer_inv [OF answer(4,2,3)])
qed

lemma reachable_inv: "(runway_step rt)\<^sup>*\<^sup>* new_runway s \<Longrightarrow> runway_inv rt s"
proof (induction rule: rtranclp_induct)
  case base
  show ?case by (rule new_runway_inv)
next
  case (step s s')
  show ?case by (rule step_inv [OF step(2,3)])
qed


subsection \<open>Properties\<close>

text \<open>
  C28. Answers are not mixed up. However the goroutines interleave, and whatever pools are started
  and stopped meanwhile, what a caller of \<open>ModelInference\<close> gets for its job is the outcome of
  \<open>processJob\<close> on its own input, with the model of the pool the job was sent to, or the timeout.
\<close>

theorem answers_belong_to_job:
  assumes "(runway_step rt)\<^sup>*\<^sup>* new_runway s" and "returned s j = Some r"
  shows "j < length (jobs s) \<and>
    (r = Inl timeout_msg \<or>
     (case processJob (rt j (Session (pools s ! (submitted s ! j)))) (jobs s ! j) of
        Predicted y \<Rightarrow> r = Inr y
      | Failed e \<Rightarrow> r = Inl e
      | Panicked \<Rightarrow> False))"
proof -
  have inv: "runway_inv rt s" by (rule reachable_inv [OF assms(1)])
  then have "refs_ok s" by (simp only: runway_inv_def)
  with assms(2) have j: "j < length (jobs s)" unfolding refs_ok_def by auto
  have "right_answer (outcome_of rt s j) r" using answersD(4) [OF inv j] assms(2) by blast
  with j show ?thesis by (auto simp: right_answer_def outcome_of_def split: sum.splits outcome.splits)
qed


fun is_f32 :: "float32 \<Rightarrow> bool" where
  "is_f32 (Fin x) = (fl32 x = Fin x)"
| "is_f32 _ = True"

lemma scale_one: "is_f32 x \<Longrightarrow> f32_div (f32_sub x (Fin 0)) (Fin 1) = x"
  by (cases x) (simp_all add: f32_sub_def)

lemma those_Some: "those (map (\<lambda>i. if P i then Some (f i) else None) is) =
    (if \<forall>i \<in> set is. P i then Some (map f is) else None)"
  by (induction "is") auto

text \<open>
  What \<open>ScaleFeatures\<close> does. It panics exactly on more than twelve features, and with the
  constants in the source it is the identity on every list of at most twelve single-precision
  values.
\<close>

lemma ScaleFeatures_spec:
  assumes "list_all is_f32 raw"
  shows "ScaleFeatures raw = (if length raw \<le> 12 then Some raw else None)"
proof -
  have "(\<forall>i \<in> set [0..<length raw]. i < 12) \<longleftrightarrow> length raw \<le> 12"
  proof
    assume a: "\<forall>i \<in> set [0..<length raw]. i < 12"
    show "length raw \<le> 12"
    proof (rule ccontr)
      assume "\<not> length raw \<le> 12"
      then have "12 \<in> set [0..<length raw]" by simp
      with a show False by blast
    qed
  qed simp
  moreover have "map (\<lambda>i. f32_div (f32_sub (raw ! i) (xMeans ! i)) (xScales ! i)) [0..<length raw] = raw" if "length raw \<le> 12"
    using assms that by (intro nth_equalityI) (simp_all add: xMeans_def xScales_def scale_one list_all_length)
  moreover have "(i < length xMeans \<and> i < length xScales) = (i < 12)" for i by (simp add: xMeans_def xScales_def)
  ultimately show ?thesis unfolding ScaleFeatures_def those_Some by auto
qed

text \<open>
  C31. One request can end the agent. A worker that has a job with scaling enabled and more than
  twelve features panics, whatever the runtime would do, and no goroutine of the process takes
  another step, those of the other replicas included.
\<close>

theorem wide_input_ends_agent:
  assumes "workers s ! g = (p, Busy j)" and "ScalingEnabled (jobs s ! j)" and "12 < length (InputData (jobs s ! j))"
  shows "\<exists>s'. worker_answer rt g s = Some s' \<and> panicked s' \<and> (\<forall>s''. \<not> runway_step rt s' s'')"
proof -
  have "\<exists>i \<in> set [0..<length (InputData (jobs s ! j))]. \<not> i < 12"
    using assms(3) by (intro bexI [of _ 12]) simp_all
  then have "ScaleFeatures (InputData (jobs s ! j)) = None"
    unfolding ScaleFeatures_def those_Some by (auto simp: xMeans_def)
  then have "worker_answer rt g s = Some (s\<lparr>panicked := True\<rparr>)"
    using assms(1,2) by (simp add: worker_answer_def processJob_def Let_def)
  moreover have "\<not> runway_step rt (s\<lparr>panicked := True\<rparr>) s''" for s''
    by (auto elim: runway_step.cases)
  ultimately show ?thesis by auto
qed


subsection \<open>A run\<close>

text \<open>One replica with one worker, one job sent to it and taken; then either the answer or a stop.\<close>

definition demo_busy :: "bool \<Rightarrow> float32 list \<Rightarrow> runway" where
  "demo_busy scaling d = \<lparr>workerRegistry = [''r1'' \<mapsto> 0],
     pools = [\<lparr>Session = ''iris.onnx'', Destroyed = False, Queue = [], Quit = False\<rparr>], workers = [(0, Busy 0)],
     jobs = [\<lparr>InputData = d, ScalingEnabled = scaling, Result = [], Err = []\<rparr>],
     returned = Map.empty, submitted = [0], panicked = False\<rparr>"

definition demo_rt :: "nat \<Rightarrow> string \<Rightarrow> ort" where
  "demo_rt j path = \<lparr>ort_output_err = None, ort_input_err = (\<lambda>d. None), ort_run = (\<lambda>d. Inr (Fin 7))\<rparr>"

lemma reach_busy: "(runway_step rt)\<^sup>*\<^sup>* new_runway (demo_busy scaling d)"
proof -
  define s1 where "s1 = snd (StartModelWorkers None ''r1'' ''iris.onnx'' 0 new_runway)"
  define s2 where "s2 = snd (send_job 0 d scaling s1)"
  have "runway_step rt new_runway s1"
    by (rule runway_step.start [of _ None "''r1''" "''iris.onnx''" 0 "fst (StartModelWorkers None ''r1'' ''iris.onnx'' 0 new_runway)"])
      (simp_all add: s1_def new_runway_def)
  moreover have "runway_step rt s1 s2"
    by (rule runway_step.send [of _ 0 d scaling "fst (send_job 0 d scaling s1)"])
      (simp_all add: s2_def s1_def new_runway_def StartModelWorkers_def)
  moreover have "runway_step rt s2 (demo_busy scaling d)"
    by (rule runway_step.take [of _ 0])
      (simp_all add: s2_def s1_def new_runway_def StartModelWorkers_def send_job_def worker_take_def queueCapacity_def demo_busy_def)
  ultimately show ?thesis by (meson converse_rtranclp_into_rtranclp rtranclp.rtrancl_refl)
qed

text \<open>
  C30. \<open>StopModelWorkers\<close> does not wait for its workers. There is a run in which a worker is in the
  middle of a job, and still has to run the session, while the session is already destroyed.
\<close>

theorem session_destroyed_in_use:
  "\<exists>s g p j. (runway_step rt)\<^sup>*\<^sup>* new_runway s \<and> g < length (workers s) \<and> workers s ! g = (p, Busy j) \<and>
    Destroyed (pools s ! p) \<and> (\<exists>s'. worker_answer rt g s = Some s')"
proof -
  let ?b = "demo_busy False [Fin 1]"
  let ?s = "snd (StopModelWorkers None ''r1'' ?b)"
  have "runway_step rt ?b ?s"
    by (rule runway_step.stop [of _ None "''r1''" "fst (StopModelWorkers None ''r1'' ?b)"]) (simp_all add: demo_busy_def)
  then have r: "(runway_step rt)\<^sup>*\<^sup>* new_runway ?s" by (rule rtranclp.rtrancl_into_rtrancl [OF reach_busy])
  have w: "0 < length (workers ?s)" "workers ?s ! 0 = (0, Busy 0)" "Destroyed (pools ?s ! 0)"
    by (simp_all add: StopModelWorkers_def demo_busy_def)
  moreover have "\<exists>s'. worker_answer rt 0 ?s = Some s'"
    using busyD(2) [OF reachable_inv [OF r] w(1,2)] w(2)
    by (cases "processJob (rt 0 (Session (pools ?s ! 0))) (jobs ?s ! 0)") (simp_all add: worker_answer_def fresh_def Let_def)
  ultimately show ?thesis using r by blast
qed

theorem wide_input_ends_agent_witness:
  "\<exists>s'. worker_answer demo_rt 0 (demo_busy True (replicate 13 (Fin 1))) = Some s' \<and> panicked s' \<and>
    (\<forall>s''. \<not> runway_step demo_rt s' s'')"
  by (rule wide_input_ends_agent [of _ _ 0 0]) (simp_all add: demo_busy_def)


definition demo_answered :: runway where
  "demo_answered = (demo_busy False [])\<lparr>workers := [(0, Idle)], returned := [0 \<mapsto> Inr (Fin 7)]\<rparr>"

lemma reach_answered: "(runway_step demo_rt)\<^sup>*\<^sup>* new_runway demo_answered"
proof -
  define s1 where "s1 = the (worker_answer demo_rt 0 (demo_busy False []))"
  have "runway_step demo_rt (demo_busy False []) s1"
    by (rule runway_step.answer [of _ 0]) (simp_all add: s1_def demo_busy_def worker_answer_def processJob_def demo_rt_def)
  moreover have "s1 = (demo_busy False [])\<lparr>workers := [(0, Idle)],
      jobs := [\<lparr>InputData = [], ScalingEnabled = False, Result = [Fin 7], Err = []\<rparr>]\<rparr>"
    by (simp add: s1_def demo_busy_def worker_answer_def processJob_def demo_rt_def set_job_def)
  then have "runway_step demo_rt s1 demo_answered"
    using runway_step.receive [of s1 0 "Inr (Fin 7)" "(demo_busy False [])\<lparr>workers := [(0, Idle)]\<rparr>" demo_rt]
    by (simp add: demo_busy_def receive_def set_job_def demo_answered_def)
  ultimately show ?thesis by (meson reach_busy rtranclp.rtrancl_into_rtrancl)
qed

theorem answers_belong_to_job_witness:
  "\<exists>r. returned demo_answered 0 = Some r \<and> 0 < length (jobs demo_answered) \<and>
    (r = Inl timeout_msg \<or>
     (case processJob (demo_rt 0 (Session (pools demo_answered ! (submitted demo_answered ! 0)))) (jobs demo_answered ! 0) of
        Predicted y \<Rightarrow> r = Inr y
      | Failed e \<Rightarrow> r = Inl e
      | Panicked \<Rightarrow> False))"
proof -
  have "returned demo_answered 0 = Some (Inr (Fin 7))" by (simp add: demo_answered_def)
  from answers_belong_to_job [OF reach_answered this] this show ?thesis by blast
qed

end
