(* ===== verification/Agent.thy ===== *)
theory Agent
  imports Balancer Runway Store_Types
begin

section \<open>The agent\<close>

text \<open>
  Models \<open>internal/agent/agent.go\<close> and \<open>forward.go\<close> (the state of an agent, its table of
  endpoints, the replicas assigned to it and the routing of inference requests), and the handlers
  of the agent's gRPC server: \<open>api/grpc/deploy.go\<close>, \<open>api/grpc/monitor.go\<close> with \<open>CheckHealth\<close> of
  \<open>monitor/monitor.go\<close>, and \<open>api/grpc/infer/infer.go\<close>. The other agents are reached through a
  parameter that answers a request sent to an address.
\<close>

subsection \<open>State\<close>

record AgentReplica =
  ar_ID :: string
  ar_ModelID :: string
  ar_Name :: string
  ar_Version :: string
  ar_FilePath :: string
  ar_ModelType :: string
  ar_ModelSize :: int
  ar_Status :: string
  ar_ErrorCode :: int
  ar_ErrorMessage :: string
  ar_LogFile :: string
  ar_InstanceCount :: int

record Agent =
  ag_ID :: string
  ag_Name :: string
  ag_IP :: string
  ag_Port :: int
  ag_Metadata :: NodeMetadata
  ag_ResourceCapabilities :: ResourceCapabilities
  ag_AssignedModels :: "AgentReplica list"
  ag_endpointCache :: "string \<rightharpoonup> EndpointDetail list"
  ag_lb :: WeightedRoundRobin
  ag_LastHeartbeat :: time

definition UpdateEndpoints :: "ServiceEndpoints list \<Rightarrow> Agent \<Rightarrow> Agent" where
  "UpdateEndpoints endpoints a =
     a\<lparr>ag_endpointCache := foldl (\<lambda>c se. c(se_ModelId se \<mapsto> se_Endpoints se)) Map.empty endpoints\<rparr>"

text \<open>A missing key gives the nil slice.\<close>

definition GetEndpoints :: "string \<Rightarrow> Agent \<Rightarrow> EndpointDetail list" where
  "GetEndpoints modelID a = (case ag_endpointCache a modelID of Some eps \<Rightarrow> eps | None \<Rightarrow> [])"

definition AssignModel :: "AgentReplica \<Rightarrow> Agent \<Rightarrow> error option \<times> Agent" where
  "AssignModel model a =
     (if \<exists>m \<in> set (ag_AssignedModels a). ar_ID m = ar_ID model then (Some ''model already assigned'', a)
      else (None, a\<lparr>ag_AssignedModels := ag_AssignedModels a @ [model]\<rparr>))"

definition UpdateLastHeartbeat :: "time \<Rightarrow> Agent \<Rightarrow> Agent" where
  "UpdateLastHeartbeat now a = a\<lparr>ag_LastHeartbeat := now\<rparr>"

definition IsHeartbeatStale :: "time \<Rightarrow> time \<Rightarrow> Agent \<Rightarrow> bool" where
  "IsHeartbeatStale now timeout a \<longleftrightarrow> timeout < now - ag_LastHeartbeat a"


subsection \<open>Start-up\<close>

text \<open>What the agent asks of its host; \<open>None\<close> or \<open>Inl\<close> is a query that fails.\<close>

record cpu =
  cpu_VendorID :: string
  cpu_ModelName :: string
  cpu_Cores :: int
  cpu_Mhz :: float64

record host =
  h_local_ip :: "string result"
  h_memory :: "(int \<times> int \<times> int) result"
  h_disk :: "(int \<times> int \<times> int) result"
  h_memory_type :: string
  h_cpus :: "cpu list result"
  h_gpus :: "ComputeDevice list"
  h_hostname :: "string result"
  h_random :: "int result"
  h_os :: string
  h_now :: time

fun f64_div :: "float64 \<Rightarrow> rat \<Rightarrow> float64" where
  "f64_div (Fin x) y = fl64 (x / y)"
| "f64_div x y = x"

text \<open>The verb \<open>%04d\<close> on a number that is not negative.\<close>

definition pad4 :: "int \<Rightarrow> string" where
  "pad4 n = replicate (4 - length (Itoa n)) (CHR ''0'') @ Itoa n"

text \<open>\<open>Inl\<close> is the text with which the process exits, or panics where there is no processor.\<close>

definition GetAgentInfo :: "host \<Rightarrow> string \<Rightarrow> Agent result" where
  "GetAgentInfo h nodeName =
     (case h_local_ip h of Inl e \<Rightarrow> Inl (''failed to get IP address: '' @ e) | Inr ipAddress \<Rightarrow>
     (case h_memory h of Inl e \<Rightarrow> Inl (''failed to get memory info: '' @ e) | Inr (mtotal, mfree, mused) \<Rightarrow>
     (case h_disk h of Inl e \<Rightarrow> Inl (''failed to get disk info: '' @ e) | Inr (dtotal, dfree, dused) \<Rightarrow>
     (case h_cpus h of Inl e \<Rightarrow> Inl (''failed to get cpu info: '' @ e) | Inr cpus \<Rightarrow>
     (case h_hostname h of Inl e \<Rightarrow> Inl (''failed to get hostname: '' @ e) | Inr hostname \<Rightarrow>
     (case (if nodeName \<noteq> [] then Inr nodeName
            else case h_random h of Inl e \<Rightarrow> Inl (''failed to generate random number: '' @ e)
                   | Inr n \<Rightarrow> Inr (hostname @ ''-'' @ pad4 n)) of
        Inl e \<Rightarrow> Inl e
      | Inr finalNodeName \<Rightarrow>
     (case cpus of
        [] \<Rightarrow> Inl ''index out of range [0] with length 0''
      | c # _ \<Rightarrow>
          Inr \<lparr>ag_ID = [], ag_Name = finalNodeName, ag_IP = ipAddress, ag_Port = 50052,
               ag_Metadata = \<lparr>md_OSType = h_os h, md_AgentVersion = ''1.0.0'', md_Hostname = hostname\<rparr>,
               ag_ResourceCapabilities =
                 \<lparr>rc_Memory = \<lparr>mem_Total = mtotal div 1024 div 1024, mem_Free = mfree div 1024 div 1024,
                    mem_Used = mused div 1024 div 1024, mem_Type = h_memory_type h\<rparr>,
                  rc_Storage = \<lparr>sto_Total = dtotal div 1024 div 1024, sto_Free = dfree div 1024 div 1024,
                    sto_Used = dused div 1024 div 1024\<rparr>,
                  rc_ComputeDevices =
                    [\<lparr>cd_Type = ComputeDeviceCPU, cd_Vendor = cpu_VendorID c, cd_Model = cpu_ModelName c, cd_Memory = 0,
                      cd_ComputeUnits = cpu_Cores c, cd_TOPS = f64_div (cpu_Mhz c) 1000, cd_PowerDraw = 0,
                      cd_IsAvailable = True\<rparr>] @ h_gpus h\<rparr>,
               ag_AssignedModels = [], ag_endpointCache = Map.empty, ag_lb = NewWeightedRoundRobin,
               ag_LastHeartbeat = h_now h\<rparr>)))))))"


subsection \<open>Inference\<close>

text \<open>
  A call to another agent: the connection fails, the call fails, or there is a response. The
  type \<open>'w\<close> is the state of the world outside this agent, which such a call may change.
\<close>

datatype peer_reply = DialFailed error | CallFailed error | Answered InferResponse

type_synonym 'w peers = "string \<Rightarrow> InferRequest \<Rightarrow> 'w \<Rightarrow> peer_reply \<times> 'w"

definition peer_addr :: "EndpointDetail \<Rightarrow> string" where
  "peer_addr target = ed_Ip target @ '':'' @ Itoa (ed_Port target)"

definition forwardInfer ::
    "'w peers \<Rightarrow> EndpointDetail \<Rightarrow> string \<Rightarrow> float32 list \<Rightarrow> bool \<Rightarrow> 'w \<Rightarrow> float32 result \<times> 'w" where
  "forwardInfer peer target modelID inputData scalingEnabled w =
     (let (reply, w') = peer (peer_addr target)
            \<lparr>iq_ModelId = modelID, iq_InputData = inputData, iq_ScalingEnabled = scalingEnabled, iq_IsForwarded = True\<rparr> w
      in ((case reply of
             DialFailed e \<Rightarrow> Inl (''failed to connect to peer '' @ peer_addr target @ '': '' @ e)
           | CallFailed e \<Rightarrow> Inl (''forwarded inference error: '' @ e)
           | Answered resp \<Rightarrow>
               if \<not> ir_Success resp then Inl (''peer evaluation returned failure: '' @ ir_ErrorMessage resp)
               else Inr (ir_Prediction resp)), w'))"

text \<open>
  \<open>wait\<close> is what the wait for a local job ends with. \<open>None\<close> is a call that never returns, which
  only the balancer can cause.
\<close>

definition HandleInfer ::
    "'w peers \<Rightarrow> (nat \<Rightarrow> float32 result) \<Rightarrow> string \<Rightarrow> float32 list \<Rightarrow> bool \<Rightarrow> bool
      \<Rightarrow> Agent \<times> runway \<times> 'w \<Rightarrow> (float32 result \<times> Agent \<times> runway \<times> 'w) option" where
  "HandleInfer peer wait modelID inputData isForwarded scalingEnabled st =
     (let (a, rw, w) = st in
      case List.find (\<lambda>m. ar_ModelID m = modelID) (ag_AssignedModels a) of
        Some m \<Rightarrow>
          (case ModelInference wait (ar_ID m) inputData scalingEnabled rw of
             (Inl e, rw') \<Rightarrow> Some (Inl (''local inference failed: '' @ e), a, rw', w)
           | (Inr y, rw') \<Rightarrow> Some (Inr y, a, rw', w))
      | None \<Rightarrow>
          if isForwarded
          then Some (Inl (''model '' @ modelID @ '' not available on this node and request was already forwarded''), st)
          else
            (let endpoints = GetEndpoints modelID a in
             if endpoints = [] then Some (Inl (''no healthy peers known for model '' @ modelID), st)
             else
               (case Pick endpoints (ag_lb a) of
                  None \<Rightarrow> None
                | Some (lb, Inl e) \<Rightarrow> Some (Inl (''failed to select peer: '' @ e), a\<lparr>ag_lb := lb\<rparr>, rw, w)
                | Some (lb, Inr target) \<Rightarrow>
                    (case forwardInfer peer target modelID inputData scalingEnabled w of
                       (r, w') \<Rightarrow> Some (r, a\<lparr>ag_lb := lb\<rparr>, rw, w')))))"

definition srv_Infer ::
    "'w peers \<Rightarrow> (nat \<Rightarrow> float32 result) \<Rightarrow> InferRequest option
      \<Rightarrow> Agent \<times> runway \<times> 'w \<Rightarrow> (InferResponse reply \<times> Agent \<times> runway \<times> 'w) option" where
  "srv_Infer peer wait req st =
     (case req of
        None \<Rightarrow> Some (err_reply InvalidArgument ''request cannot be nil'', st)
      | Some r \<Rightarrow>
          if iq_ModelId r = [] then Some (err_reply InvalidArgument ''model_id cannot be empty'', st)
          else
            (case HandleInfer peer wait (iq_ModelId r) (iq_InputData r) (iq_IsForwarded r) (iq_ScalingEnabled r) st of
               None \<Rightarrow> None
             | Some (Inl e, st') \<Rightarrow> Some (ok_reply \<lparr>ir_Success = False, ir_Prediction = Fin 0, ir_ErrorMessage = e\<rparr>, st')
             | Some (Inr y, st') \<Rightarrow> Some (ok_reply \<lparr>ir_Success = True, ir_Prediction = y, ir_ErrorMessage = []\<rparr>, st')))"


subsection \<open>Deployment and heartbeats\<close>

definition srv_DeployModel :: "string \<Rightarrow> DeployModelRequest option \<Rightarrow> Agent \<Rightarrow> DeployModelResponse reply \<times> Agent" where
  "srv_DeployModel uuid req a =
     (case req of
        None \<Rightarrow> (err_reply InvalidArgument ''request cannot be nil'', a)
      | Some r \<Rightarrow>
          (let replicaDetails =
             \<lparr>ar_ID = uuid, ar_ModelID = dm_ModelId r, ar_Name = dm_Name r, ar_Version = dm_Version r,
              ar_FilePath = dm_FilePath r, ar_ModelType = dm_ModelType r, ar_ModelSize = dm_ModelSize r,
              ar_Status = ModelReplicaStatusPending, ar_ErrorCode = 0, ar_ErrorMessage = [], ar_LogFile = [],
              ar_InstanceCount = dm_InstanceCount r\<rparr>
           in case AssignModel replicaDetails a of
                (Some e, a') \<Rightarrow> (ok_reply \<lparr>dp_Success = False, dp_Message = e\<rparr>, a')
              | (None, a') \<Rightarrow> (ok_reply \<lparr>dp_Success = True, dp_Message = ''Model deployed successfully''\<rparr>, a')))"

definition CheckHealth :: "Agent \<Rightarrow> AgentReplica list \<times> bool" where
  "CheckHealth a = (ag_AssignedModels a, \<forall>m \<in> set (ag_AssignedModels a). ar_Status m = ModelReplicaStatusRunning)"

definition ModelReplicaToProto :: "AgentReplica \<Rightarrow> ModelReplicaDetails" where
  "ModelReplicaToProto m =
     \<lparr>rd_ReplicaId = ar_ID m, rd_ModelId = ar_ModelID m, rd_Name = ar_Name m, rd_Version = ar_Version m,
      rd_FilePath = ar_FilePath m, rd_ModelType = ar_ModelType m, rd_ModelSize = ar_ModelSize m, rd_Status = ar_Status m,
      rd_ErrorCode = to_int32 (ar_ErrorCode m), rd_ErrorMessage = ar_ErrorMessage m,
      rd_InstanceCount = to_int32 (ar_InstanceCount m)\<rparr>"

definition srv_RequestHeartbeat ::
    "time \<Rightarrow> RequestHeartbeatRequest option \<Rightarrow> Agent \<Rightarrow> RequestHeartbeatResponse reply \<times> Agent" where
  "srv_RequestHeartbeat now req a =
     (case req of
        None \<Rightarrow> (err_reply InvalidArgument ''request cannot be nil'', a)
      | Some r \<Rightarrow>
          (let a = UpdateLastHeartbeat now a;
               a = (if hr_ServiceEndpoints r \<noteq> [] then UpdateEndpoints (hr_ServiceEndpoints r) a else a);
               (modelReplicas, success) = CheckHealth a
           in (ok_reply \<lparr>hp_NodeID = ag_ID a, hp_ModelReplicas = map ModelReplicaToProto modelReplicas, hp_Success = success\<rparr>, a)))"


text \<open>
  One tick of \<open>MonitorHeartbeatStaleness\<close> (\<open>monitor/monitor.go\<close>), which gets the two registry
  calls as functions; \<open>now'\<close> is the time after a successful registration.
\<close>

type_synonym 'w registerFn = "string \<Rightarrow> Agent \<times> 'w \<Rightarrow> error option \<times> Agent \<times> 'w"
type_synonym 'w deregisterFn = "string \<Rightarrow> string \<Rightarrow> 'w \<Rightarrow> error option \<times> 'w"

definition monitor_tick ::
    "'w registerFn \<Rightarrow> 'w deregisterFn \<Rightarrow> string \<Rightarrow> time \<Rightarrow> time \<Rightarrow> Agent \<times> 'w \<Rightarrow> Agent \<times> 'w" where
  "monitor_tick registerFn deregisterFn controlPlaneAddress now now' st =
     (let (a, w) = st in
      if IsHeartbeatStale now (60 * Second) a
      then
        (let w1 = (if ag_ID a \<noteq> [] then snd (deregisterFn controlPlaneAddress (ag_ID a) w) else w)
         in case registerFn controlPlaneAddress (a, w1) of
              (Some e, st') \<Rightarrow> st'
            | (None, a', w') \<Rightarrow> (UpdateLastHeartbeat now' a', w'))
      else st)"


subsection \<open>Forwarding\<close>

text \<open>Peers that keep a record of the calls they get.\<close>

definition recording :: "(string \<Rightarrow> InferRequest \<Rightarrow> peer_reply) \<Rightarrow> (string \<times> InferRequest) list peers" where
  "recording answer addr req calls = (answer addr req, calls @ [(addr, req)])"

definition hosts :: "Agent \<Rightarrow> string \<Rightarrow> bool" where
  "hosts a modelID \<longleftrightarrow> (\<exists>m \<in> set (ag_AssignedModels a). ar_ModelID m = modelID)"

lemma find_hosts: "List.find (\<lambda>m. ar_ModelID m = i) (ag_AssignedModels a) = None \<longleftrightarrow> \<not> hosts a i"
  by (auto simp: find_None_iff hosts_def)


subsection \<open>What a deployed replica does\<close>

text \<open>
  The life of an agent process: calls of its three services in any order, ticks of the monitor
  whose registration functions may change the identifier, and changes of the outside world.
\<close>

inductive agent_step :: "Agent \<times> runway \<times> 'w \<Rightarrow> Agent \<times> runway \<times> 'w \<Rightarrow> bool" where
  deploy: "srv_DeployModel uuid req a = (reply, a') \<Longrightarrow> agent_step (a, rw, w) (a', rw, w)"
| heartbeat: "srv_RequestHeartbeat now q a = (hreply, a') \<Longrightarrow> agent_step (a, rw, w) (a', rw, w)"
| infer: "srv_Infer peer wait r st = Some (ireply, st') \<Longrightarrow> agent_step st st'"
| tick: "\<forall>a w. ag_AssignedModels (fst (snd (reg addr (a, w)))) = ag_AssignedModels a \<Longrightarrow>
    monitor_tick reg dereg addr now now' (a, w) = (a', w') \<Longrightarrow> agent_step (a, rw, w) (a', rw, w')"
| world: "agent_step (a, rw, w) (a, rw, w')"

definition never_loaded :: "Agent \<times> runway \<times> 'w \<Rightarrow> bool" where
  "never_loaded st \<longleftrightarrow> (case st of (a, rw, w) \<Rightarrow> workerRegistry rw = Map.empty \<and>
     (\<forall>m \<in> set (ag_AssignedModels a). ar_Status m = ModelReplicaStatusPending))"

lemma ModelInference_unloaded:
  "workerRegistry rw = Map.empty \<Longrightarrow>
    ModelInference wait i d sc rw = (Inl (''model replica '' @ i @ '' is not currently loaded''), rw)"
  by (simp add: ModelInference_def lookup_worker_def)

lemma HandleInfer_keeps:
  assumes "HandleInfer peer wait i d fw sc (a, rw, w) = Some (x, a', rw', w')" "workerRegistry rw = Map.empty"
  shows "ag_AssignedModels a' = ag_AssignedModels a \<and> rw' = rw"
  using assms
  by (auto simp: HandleInfer_def ModelInference_unloaded Let_def split: option.splits if_splits prod.splits sum.splits)

lemma agent_step_never_loaded: "agent_step st st' \<Longrightarrow> never_loaded st \<Longrightarrow> never_loaded st'"
proof (induction rule: agent_step.induct)
  case (deploy uuid req a reply a' rw w)
  then show ?case by (auto simp: never_loaded_def srv_DeployModel_def AssignModel_def Let_def split: option.splits if_splits)
next
  case (heartbeat now q a hreply a' rw w)
  then show ?case
    by (auto simp: never_loaded_def srv_RequestHeartbeat_def CheckHealth_def UpdateLastHeartbeat_def UpdateEndpoints_def Let_def
        split: option.splits if_splits)
next
  case (infer peer wait r st ireply st')
  obtain a rw w where st: "st = (a, rw, w)" by (cases st)
  obtain a' rw' w' where st': "st' = (a', rw', w')" by (cases st')
  from infer st st' show ?case
    by (auto simp: srv_Infer_def never_loaded_def split: option.splits if_splits sum.splits dest!: HandleInfer_keeps)
next
  case (tick reg addr dereg now now' a w a' w' rw)
  have "ag_AssignedModels a' = ag_AssignedModels a"
  proof (cases "IsHeartbeatStale now (60 * Second) a")
    case True
    define w1 where "w1 = (if ag_ID a \<noteq> [] then snd (dereg addr (ag_ID a) w) else w)"
    obtain e b v where r: "reg addr (a, w1) = (e, b, v)" by (cases "reg addr (a, w1)")
    from tick(1) have "ag_AssignedModels (fst (snd (reg addr (a, w1)))) = ag_AssignedModels a" by blast
    with r have "ag_AssignedModels b = ag_AssignedModels a" by simp
    with tick(2) True r show ?thesis
      by (auto simp: monitor_tick_def w1_def UpdateLastHeartbeat_def split: option.splits)
  qed (use tick(2) in \<open>simp add: monitor_tick_def\<close>)
  with tick(3) show ?case by (simp add: never_loaded_def)
qed (simp add: never_loaded_def)

text \<open>
  C33. A deployed model is never served. Nothing in the agent starts the workers of a replica or
  moves it out of the state pending. So in every state that an agent process reaches from its
  start, an inference request for a model that was deployed to the agent is answered with the
  failure that the replica is not loaded, without being passed on, and every heartbeat
  reports all replicas as pending and the agent as not healthy.
\<close>

theorem deployed_model_never_serves:
  assumes "GetAgentInfo h name = Inr a0" and "agent_step\<^sup>*\<^sup>* (a0, new_runway, w0) (a, rw, w)"
    and "hosts a (iq_ModelId r)" and "iq_ModelId r \<noteq> []"
  shows "(\<exists>m \<in> set (ag_AssignedModels a). ar_ModelID m = iq_ModelId r \<and>
      srv_Infer peer wait (Some r) (a, rw, w) =
        Some (ok_reply \<lparr>ir_Success = False, ir_Prediction = Fin 0,
                ir_ErrorMessage = ''local inference failed: model replica '' @ ar_ID m @ '' is not currently loaded''\<rparr>,
              a, rw, w)) \<and>
    (\<exists>rep a'. srv_RequestHeartbeat now (Some q) a = (ok_reply rep, a') \<and> \<not> hp_Success rep \<and>
      (\<forall>d \<in> set (hp_ModelReplicas rep). rd_Status d = ModelReplicaStatusPending))"
proof -
  have "ag_AssignedModels a0 = []"
    using assms(1) by (auto simp: GetAgentInfo_def split: sum.splits prod.splits list.splits if_splits)
  then have "never_loaded (a0, new_runway, w0)" by (simp add: never_loaded_def new_runway_def)
  with assms(2) have n: "never_loaded (a, rw, w)"
    by (induction rule: rtranclp_induct) (use agent_step_never_loaded in blast)+
  obtain m where m: "List.find (\<lambda>m. ar_ModelID m = iq_ModelId r) (ag_AssignedModels a) = Some m"
    using assms(3) find_hosts [of "iq_ModelId r" a]
    by (cases "List.find (\<lambda>m. ar_ModelID m = iq_ModelId r) (ag_AssignedModels a)") auto
  from find_Some_in [OF m] have mem: "m \<in> set (ag_AssignedModels a)" "ar_ModelID m = iq_ModelId r" by simp_all
  have "srv_Infer peer wait (Some r) (a, rw, w) =
      Some (ok_reply \<lparr>ir_Success = False, ir_Prediction = Fin 0,
              ir_ErrorMessage = ''local inference failed: model replica '' @ ar_ID m @ '' is not currently loaded''\<rparr>, a, rw, w)"
    using n m assms(4) by (simp add: srv_Infer_def HandleInfer_def never_loaded_def ModelInference_unloaded)
  moreover have "\<exists>rep a'. srv_RequestHeartbeat now (Some q) a = (ok_reply rep, a') \<and> \<not> hp_Success rep \<and>
      (\<forall>d \<in> set (hp_ModelReplicas rep). rd_Status d = ModelReplicaStatusPending)"
  proof -
    obtain a1 where a1: "a1 = (if hr_ServiceEndpoints q \<noteq> [] then UpdateEndpoints (hr_ServiceEndpoints q) (UpdateLastHeartbeat now a)
        else UpdateLastHeartbeat now a)" by blast
    have same: "ag_AssignedModels a1 = ag_AssignedModels a" by (simp add: a1 UpdateEndpoints_def UpdateLastHeartbeat_def)
    have "srv_RequestHeartbeat now (Some q) a =
        (ok_reply \<lparr>hp_NodeID = ag_ID a1, hp_ModelReplicas = map ModelReplicaToProto (ag_AssignedModels a),
           hp_Success = (\<forall>m \<in> set (ag_AssignedModels a). ar_Status m = ModelReplicaStatusRunning)\<rparr>, a1)"
      by (simp add: srv_RequestHeartbeat_def CheckHealth_def Let_def a1 [symmetric] same)
    moreover have "ModelReplicaStatusPending \<noteq> ModelReplicaStatusRunning"
      by (simp add: ModelReplicaStatusPending_def ModelReplicaStatusRunning_def)
    ultimately show ?thesis using n mem by (auto simp: never_loaded_def ModelReplicaToProto_def)
  qed
  ultimately show ?thesis using mem by blast
qed

subsection \<open>An agent\<close>

definition demo_host :: host where
  "demo_host = \<lparr>h_local_ip = Inr ''10.0.0.7'', h_memory = Inr (8589934592, 4294967296, 4294967296),
     h_disk = Inr (1073741824, 536870912, 536870912), h_memory_type = ''DDR4'',
     h_cpus = Inr [\<lparr>cpu_VendorID = ''GenuineIntel'', cpu_ModelName = ''i5'', cpu_Cores = 4, cpu_Mhz = Fin 3000\<rparr>],
     h_gpus = [], h_hostname = Inr ''edge'', h_random = Inr 42, h_os = ''linux'', h_now = 5\<rparr>"

definition demo_agent :: Agent where
  "demo_agent = (case GetAgentInfo demo_host [] of Inr a \<Rightarrow> a)"

lemma demo_agent: "GetAgentInfo demo_host [] = Inr demo_agent"
  by (simp add: demo_agent_def GetAgentInfo_def demo_host_def)

definition demo_deploy :: DeployModelRequest where
  "demo_deploy = \<lparr>dm_ModelId = ''m1'', dm_Name = ''iris'', dm_Version = ''1'', dm_FilePath = ''/m/iris.onnx'',
     dm_ModelType = ''linear'', dm_ModelSize = 3, dm_InstanceCount = 2, dm_Namespace = ''default'', dm_Sha256Hash = []\<rparr>"

definition demo_agent1 :: Agent where
  "demo_agent1 = snd (srv_DeployModel ''u1'' (Some demo_deploy) demo_agent)"

definition demo_infer :: "string \<Rightarrow> InferRequest" where
  "demo_infer i = \<lparr>iq_ModelId = i, iq_InputData = [Fin 1], iq_ScalingEnabled = False, iq_IsForwarded = False\<rparr>"

lemma demo_agent_models: "ag_AssignedModels demo_agent = []"
  by (simp add: demo_agent_def GetAgentInfo_def demo_host_def)

theorem deployed_model_never_serves_witness:
  "\<exists>m \<in> set (ag_AssignedModels demo_agent1). ar_ModelID m = ''m1'' \<and>
    srv_Infer (recording (\<lambda>addr req. DialFailed [])) (\<lambda>j. Inr (Fin 0)) (Some (demo_infer ''m1'')) (demo_agent1, new_runway, []) =
      Some (ok_reply \<lparr>ir_Success = False, ir_Prediction = Fin 0,
              ir_ErrorMessage = ''local inference failed: model replica '' @ ar_ID m @ '' is not currently loaded''\<rparr>,
            demo_agent1, new_runway, [])"
proof -
  have "agent_step (demo_agent, new_runway, []) (demo_agent1, new_runway, [] :: (string \<times> InferRequest) list)"
    by (rule agent_step.deploy [of "''u1''" "Some demo_deploy" _ "fst (srv_DeployModel ''u1'' (Some demo_deploy) demo_agent)"])
      (simp add: demo_agent1_def)
  then have r: "agent_step\<^sup>*\<^sup>* (demo_agent, new_runway, []) (demo_agent1, new_runway, [] :: (string \<times> InferRequest) list)"
    by (rule r_into_rtranclp)
  have h: "hosts demo_agent1 (iq_ModelId (demo_infer ''m1''))"
    by (simp add: demo_agent1_def srv_DeployModel_def demo_deploy_def AssignModel_def demo_agent_models hosts_def demo_infer_def)
  have ne: "iq_ModelId (demo_infer ''m1'') \<noteq> []" and e: "iq_ModelId (demo_infer ''m1'') = ''m1''"
    by (simp_all add: demo_infer_def)
  show ?thesis by (rule deployed_model_never_serves [OF demo_agent r h ne, THEN conjunct1, unfolded e])
qed


end
