(* ===== verification/Agent_Network.thy ===== *)
theory Agent_Network
  imports Agent Heartbeat_Controller
begin

section \<open>Agents in a network\<close>

text \<open>
  The parts of the routing of inference requests that involve more than one process. The agents
  are the values of a map from addresses, and the call that \<open>forwardInfer\<close> makes to a peer is the
  handler \<open>srv_Infer\<close> of the agent at that address, which may in turn call its peers. The control
  plane fills the agents' tables of endpoints: what \<open>buildServiceEndpoints\<close> computes is delivered
  by \<open>srv_RequestHeartbeat\<close>.

  The lemmas show that calls nest at most twice, whatever the tables say, that an agent
  relays what its peer answers, and that after a heartbeat the requests reach the replicas
  that the registry lists as running; and what happens to the table when none is listed.
\<close>

subsection \<open>Calls between agents\<close>

type_synonym network = "string \<rightharpoonup> Agent \<times> runway"

text \<open>
  What the transport decides: how the client shows a status, what a call to an address without
  an agent ends with, and a call that does not return in time (\<open>forwardInfer\<close> waits 15 seconds);
  and for every agent what the waits for its jobs end with.
\<close>

record transport =
  t_text :: "status \<Rightarrow> error"
  t_unreachable :: "string \<Rightarrow> peer_reply"
  t_hung :: error
  t_wait :: "string \<Rightarrow> nat \<Rightarrow> float32 result"

definition infer_received :: "transport \<Rightarrow> InferResponse reply \<Rightarrow> peer_reply" where
  "infer_received env r =
     (case r of
        (_, Some st) \<Rightarrow> CallFailed (t_text env st)
      | (Some resp, None) \<Rightarrow> Answered resp
      | (None, None) \<Rightarrow> CallFailed [])"

text \<open>
  The first argument bounds the nesting of calls. An agent that forwards a request is not changed
  by the call it waits for unless it is called itself; then that call is a forwarded one for a
  model it does not have, which leaves it as it is.
\<close>

primrec infer_call :: "nat \<Rightarrow> transport \<Rightarrow> network peers" where
  "infer_call 0 env addr req net = (CallFailed (t_hung env), net)"
| "infer_call (Suc n) env addr req net =
     (case net addr of
        None \<Rightarrow> (t_unreachable env addr, net)
      | Some (a, rw) \<Rightarrow>
          (case srv_Infer (infer_call n env) (t_wait env addr) (Some req) (a, rw, net) of
             None \<Rightarrow> (CallFailed (t_hung env), net)
           | Some (reply, a', rw', net') \<Rightarrow> (infer_received env reply, net'(addr \<mapsto> (a', rw')))))"

text \<open>The handler uses its peers only for requests that are marked as forwarded.\<close>

lemma srv_Infer_peers:
  assumes "\<And>addr r w. iq_IsForwarded r \<Longrightarrow> p addr r w = p' addr r w"
  shows "srv_Infer p wait req st = srv_Infer p' wait req st"
proof -
  have fw: "forwardInfer p = forwardInfer p'" by (simp add: forwardInfer_def assms fun_eq_iff)
  have h: "HandleInfer p = HandleInfer p'" by (intro ext) (simp only: HandleInfer_def [abs_def] fw)
  show ?thesis unfolding srv_Infer_def h ..
qed

lemma srv_Infer_forwarded:
  assumes "iq_IsForwarded r"
  shows "srv_Infer p wait (Some r) st = srv_Infer p' wait (Some r) st"
proof -
  have "HandleInfer p wait i d True sc st = HandleInfer p' wait i d True sc st" for i d sc
    unfolding HandleInfer_def if_True by (cases st) (auto split: option.split)
  with assms show ?thesis by (auto simp: srv_Infer_def split: option.split)
qed

lemma forwarded_call:
  "iq_IsForwarded r \<Longrightarrow> infer_call (Suc n) env addr r net = infer_call (Suc 0) env addr r net"
  using srv_Infer_forwarded [of r "infer_call n env" _ _ "infer_call 0 env"] by (simp cong: option.case_cong split: prod.split)

lemma calls_nest_twice: "infer_call (Suc (Suc n)) env addr r net = infer_call (Suc (Suc 0)) env addr r net"
  using srv_Infer_peers [of "infer_call (Suc n) env" "infer_call (Suc 0) env", OF forwarded_call]
  by (simp only: infer_call.simps(2) [of "Suc _"])

text \<open>A forwarded call changes nothing but the agent it goes to.\<close>

lemma HandleInfer_forwarded_world:
  assumes "HandleInfer p wait i d True sc (a, rw, w) = Some (x, a', rw', w')"
  shows "w' = w \<and> a' = a"
  using assms by (auto simp: HandleInfer_def split: option.splits prod.splits sum.splits)

lemma forwarded_frame:
  assumes "iq_IsForwarded r" and "infer_call (Suc n) env addr r net = (reply, net')" and "x \<noteq> addr"
  shows "net' x = net x"
  using assms
  by (auto simp: srv_Infer_def split: option.splits prod.splits if_splits sum.splits
      dest!: HandleInfer_forwarded_world)

text \<open>What the agent in between makes of the answer of its peer.\<close>

definition relayed :: "string \<Rightarrow> peer_reply \<Rightarrow> InferResponse" where
  "relayed addr reply =
     (case reply of
        Answered resp \<Rightarrow>
          if ir_Success resp then resp\<lparr>ir_ErrorMessage := []\<rparr>
          else \<lparr>ir_Success = False, ir_Prediction = Fin 0,
                 ir_ErrorMessage = ''peer evaluation returned failure: '' @ ir_ErrorMessage resp\<rparr>
      | CallFailed e \<Rightarrow> \<lparr>ir_Success = False, ir_Prediction = Fin 0, ir_ErrorMessage = ''forwarded inference error: '' @ e\<rparr>
      | DialFailed e \<Rightarrow> \<lparr>ir_Success = False, ir_Prediction = Fin 0,
           ir_ErrorMessage = ''failed to connect to peer '' @ addr @ '': '' @ e\<rparr>)"

lemma inference_relayed:
  assumes "net addr = Some (a, rw)" and "balancer_inv (ag_lb a)"
    and "\<forall>ep \<in> set (GetEndpoints (iq_ModelId r) a). light (ed_Weight ep)"
    and "iq_ModelId r \<noteq> []" and "\<not> hosts a (iq_ModelId r)" and "\<not> iq_IsForwarded r"
    and "\<exists>ep \<in> set (GetEndpoints (iq_ModelId r) a). ed_Healthy ep"
  shows "\<exists>ep lb reply net'. ep \<in> set (GetEndpoints (iq_ModelId r) a) \<and> ed_Healthy ep \<and> balancer_inv lb \<and>
    infer_call (Suc 0) env (peer_addr ep) (r\<lparr>iq_IsForwarded := True\<rparr>) net = (reply, net') \<and>
    infer_call (Suc (Suc n)) env addr r net =
      (Answered (relayed (peer_addr ep) reply), net'(addr \<mapsto> (a\<lparr>ag_lb := lb\<rparr>, rw)))"
proof -
  let ?t = "GetEndpoints (iq_ModelId r) a"
  obtain lb ep where p: "Pick ?t (ag_lb a) = Some (lb, Inr ep)" "balancer_inv lb" "ep \<in> set ?t" "ed_Healthy ep"
    by (rule wrr.pick_healthy [OF assms(2,3,7)])
  obtain reply net' where c: "infer_call (Suc 0) env (peer_addr ep) (r\<lparr>iq_IsForwarded := True\<rparr>) net = (reply, net')"
    by fastforce
  have req: "\<lparr>iq_ModelId = iq_ModelId r, iq_InputData = iq_InputData r, iq_ScalingEnabled = iq_ScalingEnabled r,
      iq_IsForwarded = True\<rparr> = r\<lparr>iq_IsForwarded := True\<rparr>" by (cases r) simp
  have f: "List.find (\<lambda>m. ar_ModelID m = iq_ModelId r) (ag_AssignedModels a) = None"
    using assms(5) by (simp add: find_hosts)
  have "HandleInfer (infer_call (Suc 0) env) (t_wait env addr) (iq_ModelId r) (iq_InputData r) False
        (iq_ScalingEnabled r) (a, rw, net) =
      Some (case reply of
              DialFailed e \<Rightarrow> Inl (''failed to connect to peer '' @ peer_addr ep @ '': '' @ e)
            | CallFailed e \<Rightarrow> Inl (''forwarded inference error: '' @ e)
            | Answered resp \<Rightarrow>
                if \<not> ir_Success resp then Inl (''peer evaluation returned failure: '' @ ir_ErrorMessage resp)
                else Inr (ir_Prediction resp),
            a\<lparr>ag_lb := lb\<rparr>, rw, net')"
    using f p(1,3) c by (auto simp: HandleInfer_def forwardInfer_def Let_def req simp del: infer_call.simps)
  then have "srv_Infer (infer_call (Suc 0) env) (t_wait env addr) (Some r) (a, rw, net) =
      Some (ok_reply (relayed (peer_addr ep) reply), a\<lparr>ag_lb := lb\<rparr>, rw, net')"
    using assms(4,6) by (auto simp: srv_Infer_def relayed_def split: peer_reply.splits)
  then have "infer_call (Suc (Suc 0)) env addr r net =
      (Answered (relayed (peer_addr ep) reply), net'(addr \<mapsto> (a\<lparr>ag_lb := lb\<rparr>, rw)))"
    using assms(1) by (simp add: infer_received_def infer_call.simps(2) [of "Suc 0"] del: infer_call.simps(2))
  with p c show ?thesis unfolding calls_nest_twice [of n] by blast
qed


subsection \<open>The table of endpoints\<close>

text \<open>The endpoints of a model in the eyes of the registry: its running replicas on online nodes.\<close>

definition served :: "Store \<Rightarrow> string \<Rightarrow> EndpointDetail set" where
  "served s k = {endpoint_of node r |node r. node_at s (n_ID node) = Some node \<and> n_Status node = StatusOnline \<and>
     r \<in> running_here s (n_AssignedModels node) k}"

lemma foldl_table:
  "distinct (map se_ModelId eps) \<Longrightarrow>
     foldl (\<lambda>c se. c(se_ModelId se \<mapsto> se_Endpoints se)) m eps k =
       (case List.find (\<lambda>se. se_ModelId se = k) eps of Some se \<Rightarrow> Some (se_Endpoints se) | None \<Rightarrow> m k)"
proof (induction eps arbitrary: m)
  case (Cons e eps)
  have "List.find (\<lambda>se. se_ModelId se = se_ModelId e) eps = None"
    using Cons.prems by (auto simp: find_None_iff) (metis imageI)
  with Cons show ?case by auto
qed simp

lemma GetEndpoints_updated:
  assumes "distinct (map se_ModelId eps)"
  shows "ep \<in> set (GetEndpoints k (UpdateEndpoints eps a)) \<longleftrightarrow>
    (\<exists>e \<in> set eps. se_ModelId e = k \<and> ep \<in> set (se_Endpoints e))"
proof (cases "List.find (\<lambda>se. se_ModelId se = k) eps")
  case None
  then have "\<not> (\<exists>e \<in> set eps. se_ModelId e = k)" by (auto simp: find_None_iff)
  with None foldl_table [OF assms, of Map.empty k] show ?thesis
    by (auto simp: GetEndpoints_def UpdateEndpoints_def)
next
  case (Some e)
  from find_Some_in [OF Some] have e: "e \<in> set eps" "se_ModelId e = k" by simp_all
  have "f = e" if "f \<in> set eps" "se_ModelId f = k" for f
    using assms e that by (auto simp: distinct_map dest: inj_onD)
  with e have "(\<exists>f \<in> set eps. se_ModelId f = k \<and> ep \<in> set (se_Endpoints f)) \<longleftrightarrow> ep \<in> set (se_Endpoints e)"
    by blast
  moreover have "GetEndpoints k (UpdateEndpoints eps a) = se_Endpoints e"
    using foldl_table [OF assms, of Map.empty k] Some by (simp add: GetEndpoints_def UpdateEndpoints_def)
  ultimately show ?thesis by simp
qed

lemma table_served:
  assumes "cluster_inv s" and "is_order ord" and "is_order ordm"
  shows "distinct (map se_ModelId (buildServiceEndpoints ord ordm s))"
    and "(\<exists>e \<in> set (buildServiceEndpoints ord ordm s). se_ModelId e = k \<and> ep \<in> set (se_Endpoints e)) \<longleftrightarrow> ep \<in> served s k"
    and "buildServiceEndpoints ord ordm s = [] \<longleftrightarrow> (\<forall>k. served s k = {})"
proof -
  let ?b = "buildServiceEndpoints ord ordm s"
  note t = service_endpoints_exact [OF assms]
  show "distinct (map se_ModelId ?b)" using t by simp
  have mem: "(\<exists>e \<in> set ?b. se_ModelId e = k \<and> ep \<in> set (se_Endpoints e)) \<longleftrightarrow> ep \<in> served s k" for k ep
    using t [THEN conjunct2, THEN conjunct2, rule_format, of k ep] unfolding served_def by auto
  then show "(\<exists>e \<in> set ?b. se_ModelId e = k \<and> ep \<in> set (se_Endpoints e)) \<longleftrightarrow> ep \<in> served s k" .
  show "?b = [] \<longleftrightarrow> (\<forall>k. served s k = {})"
  proof
    assume none: "\<forall>k. served s k = {}"
    have "ep \<notin> set (se_Endpoints e)" if "e \<in> set ?b" for e ep
      using mem [of "se_ModelId e" ep, THEN iffD1, OF bexI [OF _ that]] none by auto
    then have "se_Endpoints e = []" if "e \<in> set ?b" for e
      using that by (metis last_in_set)
    moreover have "\<forall>e \<in> set ?b. se_Endpoints e \<noteq> []" by (rule t [THEN conjunct2, THEN conjunct1])
    ultimately have "set ?b = {}" by force
    then show "?b = []" by simp
  next
    assume "?b = []"
    then have "ep \<notin> served s k" for k ep using mem [of k ep] by simp
    then show "\<forall>k. served s k = {}" by blast
  qed
qed

text \<open>What an agent's table is after a heartbeat.\<close>

lemma heartbeat_table:
  assumes "cluster_inv s" and "is_order ord" and "is_order ordm"
    and "srv_RequestHeartbeat now (Some \<lparr>hr_NodeID = i, hr_ServiceEndpoints = buildServiceEndpoints ord ordm s\<rparr>) a = (rep, a')"
  shows "(\<exists>k. served s k \<noteq> {}) \<Longrightarrow> set (GetEndpoints k a') = served s k"
    and "(\<forall>k. served s k = {}) \<Longrightarrow> GetEndpoints k a' = GetEndpoints k a"
    and "ag_lb a' = ag_lb a" and "ag_AssignedModels a' = ag_AssignedModels a"
proof -
  let ?b = "buildServiceEndpoints ord ordm s"
  have a': "a' = (if ?b \<noteq> [] then UpdateEndpoints ?b (UpdateLastHeartbeat now a) else UpdateLastHeartbeat now a)"
    using assms(4) by (auto simp: srv_RequestHeartbeat_def CheckHealth_def Let_def split: if_splits)
  note t = table_served [OF assms(1-3)]
  show "(\<exists>k. served s k \<noteq> {}) \<Longrightarrow> set (GetEndpoints k a') = served s k"
    using t(3) GetEndpoints_updated [OF t(1)] t(2) by (auto simp: a')
  show "(\<forall>k. served s k = {}) \<Longrightarrow> GetEndpoints k a' = GetEndpoints k a"
    using t(3) by (simp add: a' GetEndpoints_def UpdateLastHeartbeat_def)
  show "ag_lb a' = ag_lb a" "ag_AssignedModels a' = ag_AssignedModels a"
    by (simp_all add: a' UpdateEndpoints_def UpdateLastHeartbeat_def)
qed

subsection \<open>Routing\<close>

text \<open>An agent behind an endpoint that answers a request with \<open>y\<close>: it has a replica, loaded, whose job ends with \<open>y\<close>.\<close>

definition serves :: "network \<Rightarrow> transport \<Rightarrow> InferRequest \<Rightarrow> EndpointDetail \<Rightarrow> float32 \<Rightarrow> bool" where
  "serves net env r ep y \<longleftrightarrow> (\<exists>b rb m. net (peer_addr ep) = Some (b, rb) \<and>
     List.find (\<lambda>m. ar_ModelID m = iq_ModelId r) (ag_AssignedModels b) = Some m \<and>
     fst (ModelInference (t_wait env (peer_addr ep)) (ar_ID m) (iq_InputData r) (iq_ScalingEnabled r) rb) = Inr y)"

lemma serves_call:
  assumes "serves net env r ep y" and "iq_ModelId r \<noteq> []"
  shows "fst (infer_call (Suc n) env (peer_addr ep) (r\<lparr>iq_IsForwarded := fw\<rparr>) net) =
    Answered \<lparr>ir_Success = True, ir_Prediction = y, ir_ErrorMessage = []\<rparr>"
  using assms by (auto simp: serves_def srv_Infer_def HandleInfer_def infer_received_def split: prod.split)



subsection \<open>Two agents\<close>

text \<open>
  The registry lists a running replica of the model \<open>m1\<close> at \<open>10.0.0.7\<close>; the agent there has
  it loaded. A second agent has nothing.
\<close>

definition demo_loaded :: runway where
  "demo_loaded = snd (StartModelWorkers None ''u1'' ''/m/iris.onnx'' 2 new_runway)"

definition demo_transport :: transport where
  "demo_transport = \<lparr>t_text = snd, t_unreachable = (\<lambda>addr. DialFailed addr), t_hung = ''timeout'',
     t_wait = (\<lambda>addr j. Inr (Fin 7))\<rparr>"

definition demo_heartbeat :: "Store \<Rightarrow> Agent \<Rightarrow> RequestHeartbeatResponse reply \<times> Agent" where
  "demo_heartbeat s = srv_RequestHeartbeat 9 (Some \<lparr>hr_NodeID = ''n2'', hr_ServiceEndpoints = buildServiceEndpoints rev rev s\<rparr>)"

definition demo_network :: network where
  "demo_network = [''10.0.0.7:50052'' \<mapsto> (demo_agent1, demo_loaded),
     ''10.0.0.8:50052'' \<mapsto> (snd (demo_heartbeat demo_store3 demo_agent), new_runway)]"

lemma demo_served: "served demo_store3 ''m1'' = {endpoint_of (stamp (90 * Second) ''n1'' demo_node) (demo_replica\<lparr>r_ID := ''r1''\<rparr>)}"
proof -
  let ?n = "stamp (90 * Second) ''n1'' demo_node" and ?r = "demo_replica\<lparr>r_ID := ''r1''\<rparr>"
  have at: "node_at demo_store3 (n_ID node) = Some node \<longleftrightarrow> node = ?n" for node
    by (auto simp: demo_store3_facts demo_node_def zero_NodeInfo_def split: if_splits)
  have "r \<in> running_here demo_store3 (n_AssignedModels ?n) ''m1'' \<longleftrightarrow> r = ?r" for r
    by (auto simp: running_here_def demo_store3_facts demo_store2_facts demo_node_def demo_replica_def)
  moreover have "n_Status ?n = StatusOnline" by (simp add: demo_node_def)
  ultimately show ?thesis by (auto simp: served_def at)
qed

lemma demo_loaded_reply:
  "ModelInference wait ''u1'' d sc demo_loaded =
     (wait 0, snd (send_job 0 d sc demo_loaded))"
  by (simp add: ModelInference_def lookup_worker_def demo_loaded_def StartModelWorkers_def new_runway_def
      send_job_def queueCapacity_def)


end
