(* ===== verification/Agent_Registration.thy ===== *)
theory Agent_Registration
  imports Agent Control_Plane
begin

section \<open>Registration of an agent and start-up\<close>

text \<open>
  Models \<open>internal/agent/api/grpc/register.go\<close>, the parts of \<open>cmd/agent/main.go\<close> and
  \<open>cmd/control-plane/main.go\<close> that compute something, and puts the agent's monitor together
  with the node registry of the control plane.
\<close>

subsection \<open>The registration calls\<close>

definition agentDeviceToProto :: "ComputeDevice \<Rightarrow> ProtoComputeDevice" where
  "agentDeviceToProto d =
     \<lparr>pcd_Type = cd_Type d, pcd_Vendor = cd_Vendor d, pcd_Model = cd_Model d, pcd_Memory = cd_Memory d,
      pcd_ComputeUnits = cd_ComputeUnits d, pcd_Tops = to_float32 (cd_TOPS d), pcd_PowerDrawWatts = cd_PowerDraw d\<rparr>"

definition agentToNodeInfoProto :: "Agent \<Rightarrow> ProtoNodeInfo" where
  "agentToNodeInfoProto a =
     (let md = ag_Metadata a; rc = ag_ResourceCapabilities a; mem = rc_Memory rc; sto = rc_Storage rc
      in \<lparr>pn_NodeId = [], pn_Name = ag_Name a, pn_Ip = ag_IP a, pn_Port = to_int32 (ag_Port a),
          pn_Metadata = Some \<lparr>pmd_OsType = md_OSType md, pmd_AgentVersion = md_AgentVersion md, pmd_Hostname = md_Hostname md\<rparr>,
          pn_ResourceCapabilities = Some
            \<lparr>prc_Memory = Some \<lparr>pmem_Total = mem_Total mem, pmem_Free = mem_Free mem, pmem_Used = mem_Used mem, pmem_Type = mem_Type mem\<rparr>,
             prc_Storage = Some \<lparr>psto_Total = sto_Total sto, psto_Free = sto_Free sto, psto_Used = sto_Used sto\<rparr>,
             prc_ComputeDevices =
               (if 0 < length (rc_ComputeDevices rc) then map agentDeviceToProto (rc_ComputeDevices rc) else [])\<rparr>\<rparr>)"

text \<open>
  The connection to the control plane is a parameter: whether a client can be made for an
  address, what the call does to the world \<open>'w\<close> and what comes back, and the text of an error.
\<close>

record 'w registry_client =
  rc_dial :: "string \<Rightarrow> error option"
  rc_register :: "ProtoNodeInfo \<Rightarrow> 'w \<Rightarrow> string reply \<times> 'w"
  rc_deregister :: "string \<Rightarrow> 'w \<Rightarrow> bool reply \<times> 'w"
  rc_text :: "status \<Rightarrow> error"

definition RegisterWithControlPlane :: "'w registry_client \<Rightarrow> 'w registerFn" where
  "RegisterWithControlPlane c controlPlaneAddr st =
     (let (agentInfo, w) = st in
      case rc_dial c controlPlaneAddr of
        Some e \<Rightarrow> (Some e, st)
      | None \<Rightarrow>
          (case rc_register c (agentToNodeInfoProto agentInfo) w of
             ((_, Some stat), w') \<Rightarrow> (Some (rc_text c stat), agentInfo, w')
           | ((resp, None), w') \<Rightarrow>
               (None, agentInfo\<lparr>ag_ID := (case resp of Some i \<Rightarrow> i | None \<Rightarrow> [])\<rparr>, w')))"

definition DeregisterWithControlPlane :: "'w registry_client \<Rightarrow> 'w deregisterFn" where
  "DeregisterWithControlPlane c controlPlaneAddr nodeID w =
     (case rc_dial c controlPlaneAddr of
        Some e \<Rightarrow> (Some e, w)
      | None \<Rightarrow>
          (case rc_deregister c nodeID w of
             ((_, Some stat), w') \<Rightarrow> (Some (rc_text c stat), w')
           | ((_, None), w') \<Rightarrow> (None, w')))"


subsection \<open>Start-up\<close>

text \<open>\<open>net.SplitHostPort\<close>: the port after the last colon, or \<open>None\<close> for its errors.\<close>

fun last_index :: "char \<Rightarrow> string \<Rightarrow> nat option" where
  "last_index c [] = None"
| "last_index c (x # xs) =
     (case last_index c xs of Some i \<Rightarrow> Some (Suc i) | None \<Rightarrow> if x = c then Some 0 else None)"

definition SplitHostPort :: "string \<Rightarrow> (string \<times> string) option" where
  "SplitHostPort hostport =
     (case last_index (CHR '':'') hostport of
        None \<Rightarrow> None
      | Some i \<Rightarrow>
          if hostport \<noteq> [] \<and> hd hostport = CHR ''[''
          then
            (let e = length (takeWhile (\<lambda>c. c \<noteq> CHR '']'') hostport)
             in if e = length hostport \<or> Suc e \<noteq> i then None
                else if CHR ''['' \<in> set (drop 1 hostport) \<or> CHR '']'' \<in> set (drop (Suc e) hostport) then None
                else Some (take (e - 1) (drop 1 hostport), drop (Suc i) hostport))
          else if CHR '':'' \<in> set (take i hostport) then None
          else if CHR ''['' \<in> set hostport \<or> CHR '']'' \<in> set hostport then None
          else Some (take i hostport, drop (Suc i) hostport))"

definition valid_port :: "int option \<Rightarrow> int" where
  "valid_port p = (case p of Some n \<Rightarrow> if 0 < n \<and> n < 65536 then n else 0 | None \<Rightarrow> 0)"

definition portFromAddr :: "string \<Rightarrow> int" where
  "portFromAddr addr =
     (if HasPrefix addr '':'' then valid_port (ParseInt (drop 1 addr))
      else case SplitHostPort addr of
             None \<Rightarrow> 0
           | Some (_, portStr) \<Rightarrow> valid_port (ParseInt portStr))"

text \<open>The agent's \<open>main\<close> up to the start of its server: the agent that runs, or the fatal error.\<close>

definition agent_main ::
    "'w registry_client \<Rightarrow> host \<Rightarrow> string \<Rightarrow> string \<Rightarrow> string \<Rightarrow> 'w \<Rightarrow> Agent result \<times> 'w" where
  "agent_main c h controlPlaneAddress nodeName env w =
     (let serverAddr = (if env = [] then '':50052'' else env) in
      case GetAgentInfo h nodeName of
        Inl e \<Rightarrow> (Inl e, w)
      | Inr a \<Rightarrow>
          (let port = portFromAddr serverAddr; a = (if 0 < port then a\<lparr>ag_Port := port\<rparr> else a)
           in case RegisterWithControlPlane c controlPlaneAddress (a, w) of
                (Some e, _, w') \<Rightarrow> (Inl (''Failed to register with control-plane: '' @ e), w')
              | (None, a', w') \<Rightarrow> (Inr a', w')))"

text \<open>
  The interval between heartbeat rounds that the control plane computes from its environment, a
  64-bit \<open>time.Duration\<close>.
\<close>

definition to_int64 :: "int \<Rightarrow> int" where
  "to_int64 i = (i + 2 ^ 63) mod 2 ^ 64 - 2 ^ 63"

definition heartbeat_interval :: "string \<Rightarrow> time" where
  "heartbeat_interval env =
     (let intervalSeconds =
        (if env \<noteq> [] then case ParseInt env of Some parsed \<Rightarrow> if 0 < parsed then parsed else 10 | None \<Rightarrow> 10 else 10)
      in to_int64 (intervalSeconds * Second))"


subsection \<open>Ports\<close>

lemma last_index_append: "c \<notin> set q \<Longrightarrow> last_index c (p @ c # q) = Some (length p)"
proof (induction p)
  case Nil
  then have "last_index c q = None" by (induction q) auto
  then show ?case by simp
qed simp

lemma valid_port_range: "0 \<le> valid_port p \<and> valid_port p < 65536"
  by (simp add: valid_port_def split: option.split)

lemma digits_no: "x \<notin> set (dec_nat n)" if "\<not> is_digit x"
  using that list_all_iff dec_nat_digits by metis

lemma Itoa_digits: "0 \<le> p \<Longrightarrow> c \<in> set (Itoa p) \<Longrightarrow> is_digit c"
  using dec_nat_digits by (auto simp: Itoa_def list_all_iff)

text \<open>
  Ports. Whatever the address, the port that \<open>portFromAddr\<close> returns fits the 32-bit field
  of the registration unchanged and is below 65536; 0 stands for no port. For an address made of
  a host name (possibly empty) without colons or brackets, a colon and a port number in decimal
  it returns exactly that number when it is between 1 and 65535, and 0 otherwise.
\<close>

lemma portFromAddr_spec:
  assumes "CHR '':'' \<notin> set h" and "CHR ''['' \<notin> set h" and "CHR '']'' \<notin> set h" and "0 \<le> p" and "p < 2 ^ 63"
  shows "(\<forall>addr. 0 \<le> portFromAddr addr \<and> portFromAddr addr < 65536 \<and> to_int32 (portFromAddr addr) = portFromAddr addr) \<and>
    portFromAddr (h @ '':'' @ Itoa p) = (if p < 65536 then p else 0)"
proof -
  have r: "0 \<le> portFromAddr addr \<and> portFromAddr addr < 65536" for addr
    using valid_port_range by (simp add: portFromAddr_def split: option.split)
  have "to_int32 (portFromAddr addr) = portFromAddr addr" for addr
  proof -
    have "in_int32 (portFromAddr addr)" using r [of addr] by (simp add: in_int32_def)
    then show ?thesis by simp
  qed
  moreover have "in_int64 p" using assms(4,5) by (simp add: in_int64_def)
  then have v: "valid_port (ParseInt (Itoa p)) = (if p < 65536 then p else 0)"
    using assms(4) by (simp add: valid_port_def)
  have "portFromAddr (h @ '':'' @ Itoa p) = valid_port (ParseInt (Itoa p))"
  proof (cases h)
    case Nil
    then show ?thesis by (simp add: portFromAddr_def HasPrefix_def)
  next
    case (Cons c cs)
    have nd: "CHR '':'' \<notin> set (Itoa p)" "CHR ''['' \<notin> set (Itoa p)" "CHR '']'' \<notin> set (Itoa p)"
    proof -
      have "\<not> is_digit (CHR '':'')" "\<not> is_digit (CHR ''['')" "\<not> is_digit (CHR '']'')" by (simp_all add: is_digit_def byte_of_def)
      then show "CHR '':'' \<notin> set (Itoa p)" "CHR ''['' \<notin> set (Itoa p)" "CHR '']'' \<notin> set (Itoa p)"
        using Itoa_digits [OF assms(4)] by blast+
    qed
    have "last_index (CHR '':'') (h @ '':'' @ Itoa p) = Some (length h)" using last_index_append [OF nd(1), of h] by simp
    moreover have "hd (h @ '':'' @ Itoa p) \<noteq> CHR ''[''" using assms(2) Cons by auto
    moreover have "CHR ''['' \<notin> set (h @ '':'' @ Itoa p)" "CHR '']'' \<notin> set (h @ '':'' @ Itoa p)"
      using assms(2,3) nd by auto
    ultimately have "SplitHostPort (h @ '':'' @ Itoa p) = Some (h, Itoa p)"
      using assms(1) by (simp add: SplitHostPort_def)
    moreover have "\<not> HasPrefix (h @ '':'' @ Itoa p) '':''" using assms(1) Cons by (auto simp: HasPrefix_def)
    ultimately show ?thesis by (simp add: portFromAddr_def)
  qed
  ultimately show ?thesis using r v by simp
qed


subsection \<open>Re-registration against the registry of the control plane\<close>

text \<open>
  The client connected to a control plane whose calls succeed. The world is the store of the
  control plane and a supply of the times and identifiers that its registrations will use.
\<close>

definition live_client :: "(status \<Rightarrow> error) \<Rightarrow> (Store \<times> (time \<times> string) list) registry_client" where
  "live_client text =
     \<lparr>rc_dial = (\<lambda>addr. None),
      rc_register = (\<lambda>p (s, supply).
        case supply of
          [] \<Rightarrow> (err_reply Unavailable [], (s, []))
        | (now, uuid) # rest \<Rightarrow> (case srv_RegisterNode io_ok now uuid (Some p) s of (r, s') \<Rightarrow> (r, (s', rest)))),
      rc_deregister = (\<lambda>i (s, supply). case srv_DeRegisterNode io_ok (Some i) s of (r, s') \<Rightarrow> (r, (s', supply))),
      rc_text = text\<rparr>"

definition live_tick ::
    "(status \<Rightarrow> error) \<Rightarrow> time \<times> time \<Rightarrow> Agent \<times> Store \<times> (time \<times> string) list \<Rightarrow> Agent \<times> Store \<times> (time \<times> string) list" where
  "live_tick text t st =
     monitor_tick (RegisterWithControlPlane (live_client text)) (DeregisterWithControlPlane (live_client text)) [] (fst t) (snd t) st"

text \<open>The registry \<open>s0\<close> with one more entry, for the agent under its present identifier.\<close>

definition listed_once :: "Store \<Rightarrow> ProtoNodeInfo \<Rightarrow> Agent \<Rightarrow> Store \<Rightarrow> bool" where
  "listed_once s0 p a s \<longleftrightarrow>
     (\<exists>n. node_at s = (node_at s0)(ag_ID a \<mapsto> n) \<and> node_at s0 (ag_ID a) = None \<and>
        storeNodeInfoToProto n = p\<lparr>pn_NodeId := ag_ID a\<rparr>) \<and>
     model_at s = model_at s0 \<and> replica_at s = replica_at s0"

definition supply_ok :: "Store \<Rightarrow> (time \<times> string) list \<Rightarrow> bool" where
  "supply_ok s0 supply \<longleftrightarrow> (\<forall>(now, uuid) \<in> set supply. in_int64 now \<and> uuid \<noteq> [] \<and> node_at s0 uuid = None)"

lemma agent_request_complete:
  "full_metadata (pn_Metadata (agentToNodeInfoProto a)) = the (pn_Metadata (agentToNodeInfoProto a))"
  "full_capabilities (pn_ResourceCapabilities (agentToNodeInfoProto a)) = the (pn_ResourceCapabilities (agentToNodeInfoProto a))"
  "\<exists>m. pn_Metadata (agentToNodeInfoProto a) = Some m" "\<exists>rc. pn_ResourceCapabilities (agentToNodeInfoProto a) = Some rc"
  by (simp_all add: agentToNodeInfoProto_def Let_def full_metadata_def full_capabilities_def)

lemma agent_proto_same:
  "agentToNodeInfoProto (a\<lparr>ag_ID := i\<rparr>) = agentToNodeInfoProto a"
  "agentToNodeInfoProto (UpdateLastHeartbeat now a) = agentToNodeInfoProto a"
  by (simp_all add: agentToNodeInfoProto_def UpdateLastHeartbeat_def Let_def)

lemma register_lists:
  assumes "cluster_inv s" "node_at s = node_at s0" "model_at s = model_at s0" "replica_at s = replica_at s0"
    and "supply_ok s0 ((now, uuid) # rest)" "wf_ProtoNodeInfo (agentToNodeInfoProto a)"
  obtains s' where "RegisterWithControlPlane (live_client text) addr (a, (s, (now, uuid) # rest)) =
      (None, a\<lparr>ag_ID := uuid\<rparr>, (s', rest))"
    "cluster_inv s'" "listed_once s0 (agentToNodeInfoProto a) (a\<lparr>ag_ID := uuid\<rparr>) s'"
proof -
  let ?p = "agentToNodeInfoProto a"
  from assms(5) have u: "in_int64 now" "uuid \<noteq> []" "node_at s0 uuid = None" by (simp_all add: supply_ok_def)
  obtain s' where s': "srv_RegisterNode io_ok now uuid (Some ?p) s = (ok_reply uuid, s')" "cluster_inv s'"
    "node_at s' = (node_at s)(uuid \<mapsto> stamp now uuid ((protoToStoreNodeInfo ?p)\<lparr>n_ID := uuid\<rparr>))"
    "model_at s' = model_at s" "replica_at s' = replica_at s"
    by (rule srv_RegisterNode_ok [OF assms(1) u(1,2) assms(6)])
  have "storeNodeInfoToProto (stamp now uuid ((protoToStoreNodeInfo ?p)\<lparr>n_ID := uuid\<rparr>)) = ?p\<lparr>pn_NodeId := uuid\<rparr>"
    unfolding node_roundtrip [OF assms(6)] agent_request_complete
    using agent_request_complete(3,4) [of a] by (cases ?p) auto
  with s' u(3) assms(2-4) have "listed_once s0 ?p (a\<lparr>ag_ID := uuid\<rparr>) s'"
    unfolding listed_once_def
    by (intro conjI exI [of _ "stamp now uuid ((protoToStoreNodeInfo ?p)\<lparr>n_ID := uuid\<rparr>)"]) simp_all
  moreover have "RegisterWithControlPlane (live_client text) addr (a, (s, (now, uuid) # rest)) =
      (None, a\<lparr>ag_ID := uuid\<rparr>, (s', rest))"
    using s'(1) by (simp add: RegisterWithControlPlane_def live_client_def)
  ultimately show thesis using s'(2) by (intro that) simp_all
qed

lemma deregister_ok:
  assumes "cluster_inv s" "i \<noteq> []"
  obtains s' where "srv_DeRegisterNode io_ok (Some i) s = (ok_reply True, s')" "cluster_inv s'"
    "node_at s' = (node_at s)(i := None)" "model_at s' = model_at s" "replica_at s' = replica_at s"
proof -
  have inv: "registry_inv s" using assms(1) by (simp add: cluster_inv_def)
  then have "walFile s" by (simp add: registry_inv_def store_inv_def)
  then have "DeRegisterNode io_ok i s = (None, del_ok (node_prefix @ i) s)"
    using assms(2) by (simp add: DeRegisterNode_def del_ok_def Delete_ok node_prefix_def)
  then have "srv_DeRegisterNode io_ok (Some i) s = (ok_reply True, del_ok (node_prefix @ i) s)"
    using assms(2) by (simp add: srv_DeRegisterNode_def)
  moreover have "cluster_inv (del_ok (node_prefix @ i) s)"
    using assms by (auto simp: cluster_inv_def objects_wf_def node_delete [OF inv])
  ultimately show thesis using node_delete [OF inv, of i] by (intro that [of "del_ok (node_prefix @ i) s"]) simp_all
qed

lemma live_tick_stale:
  assumes "cluster_inv s" "listed_once s0 (agentToNodeInfoProto a) a s" "ag_ID a \<noteq> []"
    and "supply_ok s0 ((now, uuid) # rest)" "wf_ProtoNodeInfo (agentToNodeInfoProto a)"
    and "IsHeartbeatStale (fst t) (60 * Second) a"
  obtains s' where "live_tick text t (a, s, (now, uuid) # rest) = (UpdateLastHeartbeat (snd t) (a\<lparr>ag_ID := uuid\<rparr>), s', rest)"
    "cluster_inv s'" "listed_once s0 (agentToNodeInfoProto a) (a\<lparr>ag_ID := uuid\<rparr>) s'"
proof -
  obtain s1 where s1: "srv_DeRegisterNode io_ok (Some (ag_ID a)) s = (ok_reply True, s1)" "cluster_inv s1"
    "node_at s1 = (node_at s)(ag_ID a := None)" "model_at s1 = model_at s" "replica_at s1 = replica_at s"
    by (rule deregister_ok [OF assms(1,3)])
  have restored: "node_at s1 = node_at s0" "model_at s1 = model_at s0" "replica_at s1 = replica_at s0"
    using assms(2) s1(3-5) by (auto simp: listed_once_def fun_eq_iff)
  obtain s' where s': "RegisterWithControlPlane (live_client text) [] (a, (s1, (now, uuid) # rest)) =
      (None, a\<lparr>ag_ID := uuid\<rparr>, (s', rest))"
    "cluster_inv s'" "listed_once s0 (agentToNodeInfoProto a) (a\<lparr>ag_ID := uuid\<rparr>) s'"
    by (rule register_lists [OF s1(2) restored assms(4,5)])
  have "DeregisterWithControlPlane (live_client text) [] (ag_ID a) (s, (now, uuid) # rest) = (None, (s1, (now, uuid) # rest))"
    using s1(1) by (simp add: DeregisterWithControlPlane_def live_client_def)
  then have "live_tick text t (a, s, (now, uuid) # rest) = (UpdateLastHeartbeat (snd t) (a\<lparr>ag_ID := uuid\<rparr>), s', rest)"
    using assms(3,6) s'(1) by (simp add: live_tick_def monitor_tick_def)
  with s'(2,3) show thesis by (intro that) simp_all
qed

lemma listed_once_heartbeat: "listed_once s0 p (UpdateLastHeartbeat now a) s = listed_once s0 p a s"
  by (simp add: listed_once_def UpdateLastHeartbeat_def)

text \<open>
  C36. An agent leaves one entry. Let an agent register and then run its monitor against a control
  plane whose calls succeed, for any number of ticks at any times, stale or not. Then the
  registry is what it was before, plus exactly one node: it has the agent's present identifier,
  reads back as the agent's own description, and no entry of an earlier registration is left. The
  models and the replica records are untouched, those that name an earlier identifier included.
\<close>

theorem one_entry_per_agent:
  assumes "cluster_inv s0" and "supply_ok s0 supply" and "length ts < length supply"
    and "wf_ProtoNodeInfo (agentToNodeInfoProto a0)"
    and "RegisterWithControlPlane (live_client text) addr (a0, (s0, supply)) = (e, st)"
  shows "\<exists>a s rest. foldl (\<lambda>st t. live_tick text t st) st ts = (a, s, rest) \<and>
    e = None \<and> listed_once s0 (agentToNodeInfoProto a0) a s \<and> ag_ID a \<in> snd ` set supply"
proof -
  define good where "good a s rest \<longleftrightarrow> cluster_inv s \<and> listed_once s0 (agentToNodeInfoProto a0) a s \<and>
    agentToNodeInfoProto a = agentToNodeInfoProto a0 \<and> ag_ID a \<in> snd ` set supply \<and> set rest \<subseteq> set supply" for a s rest
  have ids: "i \<in> snd ` set supply \<Longrightarrow> i \<noteq> []" for i using assms(2) by (auto simp: supply_ok_def)
  obtain now uuid rest where sup: "supply = (now, uuid) # rest" using assms(3) by (cases "supply") auto
  obtain s1 where "RegisterWithControlPlane (live_client text) addr (a0, (s0, supply)) = (None, a0\<lparr>ag_ID := uuid\<rparr>, (s1, rest))"
    "cluster_inv s1" "listed_once s0 (agentToNodeInfoProto a0) (a0\<lparr>ag_ID := uuid\<rparr>) s1"
    unfolding sup by (rule register_lists [OF assms(1) refl refl refl assms(2) [unfolded sup] assms(4)])
  then have e: "e = None" and st: "st = (a0\<lparr>ag_ID := uuid\<rparr>, s1, rest)" and g: "good (a0\<lparr>ag_ID := uuid\<rparr>) s1 rest"
    using assms(5) by (auto simp: good_def agent_proto_same sup)
  have "\<exists>b t rest'. foldl (\<lambda>st t. live_tick text t st) (a, s, rest) ts = (b, t, rest') \<and> good b t rest'"
    if "good a s rest" "length ts \<le> length rest" for a s rest
    using that
  proof (induction ts arbitrary: a s rest)
    case (Cons t ts)
    show ?case
    proof (cases "IsHeartbeatStale (fst t) (60 * Second) a")
      case True
      obtain now uuid more where r: "rest = (now, uuid) # more" using Cons.prems(2) by (cases rest) auto
      from Cons.prems(1) have g: "cluster_inv s" "listed_once s0 (agentToNodeInfoProto a) a s" "ag_ID a \<noteq> []"
        "wf_ProtoNodeInfo (agentToNodeInfoProto a)" and p: "agentToNodeInfoProto a = agentToNodeInfoProto a0"
        using ids assms(4) by (auto simp: good_def)
      have so: "supply_ok s0 ((now, uuid) # more)" using Cons.prems(1) assms(2) by (auto simp: r good_def supply_ok_def)
      obtain s' where s': "live_tick text t (a, s, (now, uuid) # more) = (UpdateLastHeartbeat (snd t) (a\<lparr>ag_ID := uuid\<rparr>), s', more)"
        "cluster_inv s'" "listed_once s0 (agentToNodeInfoProto a) (a\<lparr>ag_ID := uuid\<rparr>) s'"
        by (rule live_tick_stale [OF g(1-3) so g(4) True])
      have "(now, uuid) \<in> set supply" using Cons.prems(1) by (simp add: good_def r)
      then have "uuid \<in> snd ` set supply" by force
      then have "ag_ID (UpdateLastHeartbeat (snd t) (a\<lparr>ag_ID := uuid\<rparr>)) \<in> snd ` set supply" by (simp add: UpdateLastHeartbeat_def)
      then have "good (UpdateLastHeartbeat (snd t) (a\<lparr>ag_ID := uuid\<rparr>)) s' more"
        using Cons.prems(1) s'(2,3) p by (simp add: good_def listed_once_heartbeat agent_proto_same r)
      moreover have "length ts \<le> length more" using Cons.prems(2) by (simp add: r)
      ultimately show ?thesis using Cons.IH s'(1) by (simp add: r)
    next
      case False
      then have "live_tick text t (a, s, rest) = (a, s, rest)" by (simp add: live_tick_def monitor_tick_def)
      with Cons.IH [OF Cons.prems(1)] Cons.prems(2) show ?thesis by simp
    qed
  qed auto
  from this [OF g] assms(3) sup st e show ?thesis by (fastforce simp: good_def)
qed

lemma demo_agent_wf: "wf_ProtoNodeInfo (agentToNodeInfoProto demo_agent)"
proof -
  have "fl64 (3000 / 1000) = Fin 3" using fl64_int [of 3] by simp
  moreover have "fl32 3 = Fin 3" using fl_int [of 3 24 "- 149"] by (simp add: fl32_def to_float_def)
  moreover have "fl64 3 = Fin 3" using fl64_int [of 3] by simp
  ultimately show ?thesis
    by (simp add: demo_agent_def GetAgentInfo_def demo_host_def agentToNodeInfoProto_def agentDeviceToProto_def
        wf_ProtoNodeInfo_def wf_ProtoCapabilities_def wf_ProtoDevice_def f32_value_def in_int32_def in_int64_def to_int32_def)
qed

theorem one_entry_per_agent_witness:
  "\<exists>a s rest. foldl (\<lambda>st t. live_tick (\<lambda>st. []) t st)
      (snd (RegisterWithControlPlane (live_client (\<lambda>st. [])) [] (demo_agent, (empty_store, [(1, ''u1''), (2, ''u2''), (3, ''u3'')]))))
      [(70 * Second, 70 * Second), (80 * Second, 80 * Second)] = (a, s, rest) \<and>
    listed_once empty_store (agentToNodeInfoProto demo_agent) a s"
proof -
  have c: "cluster_inv empty_store" using cp_inv_empty by (simp add: cp_inv_def)
  have so: "supply_ok empty_store [(1, ''u1''), (2, ''u2''), (3, ''u3'')]" by (simp add: supply_ok_def in_int64_def)
  show ?thesis
    using one_entry_per_agent [OF c so _ demo_agent_wf prod.collapse [symmetric],
        of "[(70 * Second, 70 * Second), (80 * Second, 80 * Second)]" "\<lambda>st. []" "[]"]
    by auto
qed

end
