(* ===== verification/Go_Fmt.thy ===== *)
theory Go_Fmt
  imports Go_Codec
begin

section \<open>Text output and number syntax\<close>

text \<open>
  What the command-line client uses of \<open>unicode/utf8\<close>, \<open>text/tabwriter\<close> and \<open>strconv\<close>: the number
  of runes of a text, the layout of a table, \<open>FormatFloat\<close> with a fixed number of decimals and
  \<open>ParseFloat\<close> for single precision.
\<close>

subsection \<open>Runes\<close>

text \<open>
  The length of the first rune of a text. The second byte of a sequence has a narrower range
  after some first bytes; a byte that starts no valid sequence counts as a rune of its own.
\<close>

definition rune_shape :: "nat \<Rightarrow> nat \<times> nat \<times> nat" where
  "rune_shape b =
     (if 0xC2 \<le> b \<and> b \<le> 0xDF then (2, 0x80, 0xBF)
      else if b = 0xE0 then (3, 0xA0, 0xBF)
      else if b = 0xED then (3, 0x80, 0x9F)
      else if 0xE1 \<le> b \<and> b \<le> 0xEF then (3, 0x80, 0xBF)
      else if b = 0xF0 then (4, 0x90, 0xBF)
      else if b = 0xF4 then (4, 0x80, 0x8F)
      else if 0xF1 \<le> b \<and> b \<le> 0xF3 then (4, 0x80, 0xBF)
      else (1, 0, 0))"

definition rune_size :: "string \<Rightarrow> nat" where
  "rune_size s =
     (case rune_shape (byte_of (hd s)) of (n, lo, hi) \<Rightarrow>
        if 1 < n \<and> n \<le> length s \<and> lo \<le> byte_of (s ! 1) \<and> byte_of (s ! 1) \<le> hi \<and>
           list_all (\<lambda>c. 0x80 \<le> byte_of c \<and> byte_of c \<le> 0xBF) (take (n - 2) (drop 2 s))
        then n else 1)"

lemma rune_size_pos [simp]: "0 < rune_size s"
  by (auto simp: rune_size_def split: prod.splits)

function RuneCount :: "string \<Rightarrow> nat" where
  "RuneCount s = (if s = [] then 0 else Suc (RuneCount (drop (rune_size s) s)))"
  by pat_completeness auto
termination by (relation "measure length") auto

declare RuneCount.simps [simp del]

lemma RuneCount_ascii: "list_all (\<lambda>c. byte_of c < 0x80) s \<Longrightarrow> RuneCount s = length s"
  by (induction s) (simp_all add: RuneCount.simps rune_size_def rune_shape_def)


subsection \<open>Tables\<close>

text \<open>
  \<open>tabwriter.NewWriter(w, 0, 0, pad, ' ', 0)\<close>, after a flush. A tab ends a cell, a newline a line;
  the cells of a column that follow each other without a gap are given the width of the widest,
  plus the padding. The last cell of a line, which no tab ends, is not part of a column. A form
  feed ends a line and the table. (The escape byte 0xFF, which no text in UTF-8 has, is not
  treated.)
\<close>

definition TAB :: char where "TAB = CHR 0x09"

definition has_column :: "nat \<Rightarrow> string list \<Rightarrow> bool" where
  "has_column j line \<longleftrightarrow> j + 1 < length line"

definition column_block :: "string list list \<Rightarrow> nat \<Rightarrow> nat \<Rightarrow> string list list" where
  "column_block ls i j =
     rev (takeWhile (has_column j) (rev (take i ls))) @ takeWhile (has_column j) (drop i ls)"

definition column_width :: "nat \<Rightarrow> string list list \<Rightarrow> nat \<Rightarrow> nat \<Rightarrow> nat" where
  "column_width pad ls i j = pad + foldl max 0 (map (\<lambda>line. RuneCount (line ! j)) (column_block ls i j))"

definition pad_right :: "nat \<Rightarrow> string \<Rightarrow> string" where
  "pad_right w c = c @ replicate (w - RuneCount c) (CHR '' '')"

definition aligned_line :: "nat \<Rightarrow> string list list \<Rightarrow> nat \<Rightarrow> string" where
  "aligned_line pad ls i =
     (let line = ls ! i
      in concat (map (\<lambda>j. pad_right (column_width pad ls i j) (line ! j)) [0..<length line - 1]) @ last line)"

definition aligned :: "nat \<Rightarrow> string \<Rightarrow> string" where
  "aligned pad t =
     (let ls = map (\<lambda>l. Split (map (\<lambda>c. if c = CHR 0x0B then TAB else c) l) TAB) (Split t NL)
      in Join (map (aligned_line pad ls) [0..<length ls]) [NL])"

definition tabwriter :: "nat \<Rightarrow> string \<Rightarrow> string" where
  "tabwriter pad t =
     (let parts = Split t (CHR 0x0C)
      in concat (map (\<lambda>p. aligned pad (p @ [NL])) (butlast parts)) @ aligned pad (last parts))"


subsection \<open>Formatting numbers\<close>

text \<open>\<open>strconv.FormatBool\<close> and the verb \<open>%v\<close> of a truth value.\<close>

definition FormatBool :: "bool \<Rightarrow> string" where
  "FormatBool b = (if b then ''true'' else ''false'')"

definition pad_zeros :: "nat \<Rightarrow> string \<Rightarrow> string" where
  "pad_zeros n s = replicate (n - length s) (CHR ''0'') @ s"

text \<open>
  \<open>strconv.FormatFloat(x, 'f', n, 32)\<close> for \<open>n > 0\<close>: the exact value rounded to \<open>n\<close> decimals, ties
  to even. A negative number keeps its sign when it rounds to zero.
\<close>

fun FormatFloat :: "float64 \<Rightarrow> nat \<Rightarrow> string" where
  "FormatFloat NaN n = ''NaN''"
| "FormatFloat (Inf s) n = (if s then ''-Inf'' else ''+Inf'')"
| "FormatFloat (Fin x) n =
     (let k = nat (round_half_even (\<bar>x\<bar> * 10 ^ n))
      in (if x < 0 then ''-'' else []) @ dec_nat (k div 10 ^ n) @ ''.'' @ pad_zeros n (dec_nat (k mod 10 ^ n)))"


subsection \<open>Parsing numbers\<close>

definition under :: char where "under = CHR ''_''"

text \<open>The state of the scan: whether the last character was a digit, an underscore or something else.\<close>

datatype saw = SawNone | SawDigit | SawUnder | SawOther

fun underscores_ok :: "bool \<Rightarrow> saw \<Rightarrow> string \<Rightarrow> bool" where
  "underscores_ok hex st [] = (st \<noteq> SawUnder)"
| "underscores_ok hex st (c # s) =
     (if is_digit c \<or> (hex \<and> is_hex c) then underscores_ok hex SawDigit s
      else if c = under then st = SawDigit \<and> underscores_ok hex SawUnder s
      else st \<noteq> SawUnder \<and> underscores_ok hex SawOther s)"

definition split_sign :: "string \<Rightarrow> bool \<times> string" where
  "split_sign s =
     (case s of [] \<Rightarrow> (False, [])
      | c # t \<Rightarrow> if c = CHR ''-'' then (True, t) else if c = CHR ''+'' then (False, t) else (False, s))"

definition underscoreOK :: "string \<Rightarrow> bool" where
  "underscoreOK s =
     (let t = snd (split_sign s); p = ToLower (take 2 t) in
      if p \<in> {''0b'', ''0o'', ''0x''} then underscores_ok (p = ''0x'') SawDigit (drop 2 t)
      else underscores_ok False SawNone t)"

text \<open>The exponent stops growing when it has reached 10000.\<close>

definition clipped_exp :: "string \<Rightarrow> nat" where
  "clipped_exp ds = foldl (\<lambda>e c. if e < 10000 then 10 * e + digit_val c else e) 0 ds"

text \<open>
  \<open>readFloat\<close>: sign, base and digits; the result is the value the text denotes. A base 16 number
  needs an exponent, which then is one of two.
\<close>

definition mantissa :: "nat \<Rightarrow> (char \<Rightarrow> bool) \<Rightarrow> string \<Rightarrow> (rat \<times> string) option" where
  "mantissa base dig t =
     (let a = takeWhile (\<lambda>c. dig c \<or> c = under) t; r = dropWhile (\<lambda>c. dig c \<or> c = under) t;
          dot = (HasPrefix r ''.'');
          b = (if dot then takeWhile (\<lambda>c. dig c \<or> c = under) (tl r) else []);
          rest = (if dot then dropWhile (\<lambda>c. dig c \<or> c = under) (tl r) else r);
          da = filter (\<lambda>c. c \<noteq> under) a; db = filter (\<lambda>c. c \<noteq> under) b
      in if da @ db = [] then None
         else Some (of_nat (foldl (\<lambda>v c. base * v + hex_val c) 0 (da @ db)) / of_nat base ^ length db, rest))"

definition exponent :: "char \<Rightarrow> string \<Rightarrow> int option option" where
  "exponent e r =
     (case r of
        [] \<Rightarrow> Some None
      | c # t \<Rightarrow>
          if lower_char c \<noteq> e then None
          else (case split_sign t of
                  (neg, ds) \<Rightarrow>
                    if ds = [] \<or> \<not> is_digit (hd ds) \<or> \<not> list_all (\<lambda>c. is_digit c \<or> c = under) ds then None
                    else (let k = int (clipped_exp (filter is_digit ds)) in Some (Some (if neg then - k else k)))))"

definition readFloat :: "string \<Rightarrow> rat option" where
  "readFloat s =
     (if under \<in> set s \<and> \<not> underscoreOK s then None
      else
        (case split_sign s of
           (neg, t) \<Rightarrow>
             (let hex = (ToLower (take 2 t) = ''0x'' \<and> 2 < length t);
                  sg = (if neg then - 1 else 1)
              in case mantissa (if hex then 16 else 10) (if hex then is_hex else is_digit) (if hex then drop 2 t else t) of
                   None \<Rightarrow> None
                 | Some (m, r) \<Rightarrow>
                     (case exponent (if hex then CHR ''p'' else CHR ''e'') r of
                        None \<Rightarrow> None
                      | Some None \<Rightarrow> if hex then None else Some (sg * m)
                      | Some (Some k) \<Rightarrow> Some (sg * m * (if hex then 2 else 10) powi k)))))"

text \<open>\<open>strconv.ParseFloat(s, 32)\<close>; the error of a result out of range is separate from the syntax error.\<close>

definition ParseFloat32 :: "string \<Rightarrow> string + float64" where
  "ParseFloat32 s =
     (let w = ToLower (snd (split_sign s)); neg = fst (split_sign s);
          failed = (\<lambda>why. Inl (''strconv.ParseFloat: parsing '' @ Quote s @ '': '' @ why))
      in if w = ''inf'' \<or> w = ''infinity'' then Inr (Inf neg)
         else if ToLower s = ''nan'' then Inr NaN
         else (case readFloat s of
                 None \<Rightarrow> failed ''invalid syntax''
               | Some v \<Rightarrow> (case fl32 v of Inf _ \<Rightarrow> failed ''value out of range'' | f \<Rightarrow> Inr f)))"

end
