(* ===== verification/Client.thy ===== *)
theory Client
  imports Go_Fmt Go_Path Messages
begin

section \<open>The command-line client: configuration, output and manifests\<close>

text \<open>
  Models \<open>internal/client\<close>: \<open>config.go\<close>, \<open>errors.go\<close>, \<open>formatter.go\<close> and \<open>yaml.go\<close>. The disk is a map
  from paths to contents; the home directory and the I/O errors are the record \<open>host\<close>. The YAML
  encoder and decoder and the encoders of the messages are parameters, and so is what the gRPC
  library makes of an error value (\<open>grpc_lib\<close>).
\<close>

subsection \<open>Errors\<close>

text \<open>
  An error is a status of a call, a plain text, or an error wrapped with \<open>fmt.Errorf("...: %w", err)\<close>.
\<close>

datatype cli_error = StatusErr Code string | PlainErr string | Wrap string cli_error

record grpc_lib =
  gl_FromError :: "cli_error \<Rightarrow> status option"
  gl_StatusText :: "Code \<Rightarrow> string \<Rightarrow> string"
  gl_CodeName :: "Code \<Rightarrow> string"

fun ErrorText :: "grpc_lib \<Rightarrow> cli_error \<Rightarrow> string" where
  "ErrorText lib (StatusErr c m) = gl_StatusText lib c m"
| "ErrorText lib (PlainErr e) = e"
| "ErrorText lib (Wrap p e) = p @ '': '' @ ErrorText lib e"

text \<open>The long dash of the messages, between spaces, in UTF-8.\<close>

definition em_dash :: string where
  "em_dash = [CHR '' '', CHR 0xE2, CHR 0x80, CHR 0x94, CHR '' '']"

definition FormatError :: "grpc_lib \<Rightarrow> cli_error \<Rightarrow> string" where
  "FormatError lib err =
     (case gl_FromError lib err of
        None \<Rightarrow> ''error: '' @ ErrorText lib err
      | Some (Unavailable, m) \<Rightarrow> ''error: cannot reach control plane'' @ em_dash @ ''is it running?''
      | Some (NotFound, m) \<Rightarrow> ''error: not found'' @ em_dash @ m
      | Some (AlreadyExists, m) \<Rightarrow> ''error: already exists'' @ em_dash @ m
      | Some (InvalidArgument, m) \<Rightarrow> ''error: invalid input'' @ em_dash @ m
      | Some (DeadlineExceeded, m) \<Rightarrow> ''error: request timed out''
      | Some (c, m) \<Rightarrow> ''error ['' @ gl_CodeName lib c @ '']: '' @ m)"


subsection \<open>Configuration\<close>

record Config =
  cf_Endpoint :: string
  cf_DefaultNamespace :: string
  cf_OutputFormat :: string
  cf_TimeoutSeconds :: int

definition DefaultConfig :: Config where
  "DefaultConfig = \<lparr>cf_Endpoint = ''localhost:50051'', cf_DefaultNamespace = ''default'',
     cf_OutputFormat = ''table'', cf_TimeoutSeconds = 10\<rparr>"

type_synonym disk = "string \<rightharpoonup> bytes"

text \<open>
  The surroundings of the client. A failed write names what the file then holds, when it had been
  opened. \<open>ho_decode\<close> stands for \<open>yaml.Unmarshal\<close> into a configuration that is already filled.
\<close>

record host =
  ho_home :: "error + string"
  ho_mkdir :: "error option"
  ho_read :: "string \<Rightarrow> error option"
  ho_write :: "(error \<times> bytes option) option"
  ho_encode :: "Config \<Rightarrow> error + bytes"
  ho_decode :: "bytes \<Rightarrow> Config \<Rightarrow> error + Config"

definition configDir :: "host \<Rightarrow> cli_error + string" where
  "configDir h =
     (case ho_home h of
        Inl e \<Rightarrow> Inl (Wrap ''could not determine home directory'' (PlainErr e))
      | Inr home \<Rightarrow>
          (case ho_mkdir h of
             Some e \<Rightarrow> Inl (Wrap ''could not create config directory'' (PlainErr e))
           | None \<Rightarrow> Inr (path_Join [home, ''.edgectl''])))"

definition ConfigPath :: "host \<Rightarrow> cli_error + string" where
  "ConfigPath h = (case configDir h of Inl e \<Rightarrow> Inl e | Inr dir \<Rightarrow> Inr (path_Join [dir, ''config.yaml'']))"

text \<open>\<open>os.ReadFile\<close>; the flag of an error is \<open>os.IsNotExist\<close>.\<close>

definition ReadFile :: "(string \<Rightarrow> error option) \<Rightarrow> disk \<Rightarrow> string \<Rightarrow> (bool \<times> error) + bytes" where
  "ReadFile fault files p =
     (case fault p of
        Some e \<Rightarrow> Inl (False, e)
      | None \<Rightarrow> (case files p of None \<Rightarrow> Inl (True, ''open '' @ p @ '': no such file or directory'') | Some d \<Rightarrow> Inr d))"

definition LoadConfig :: "host \<Rightarrow> disk \<Rightarrow> cli_error + Config" where
  "LoadConfig h files =
     (case ConfigPath h of
        Inl e \<Rightarrow> Inr DefaultConfig
      | Inr path \<Rightarrow>
          (case ReadFile (ho_read h) files path of
             Inl (True, e) \<Rightarrow> Inr DefaultConfig
           | Inl (False, e) \<Rightarrow> Inl (Wrap ''could not read config'' (PlainErr e))
           | Inr data \<Rightarrow>
               (case ho_decode h data DefaultConfig of
                  Inl e \<Rightarrow> Inl (Wrap ''could not parse config'' (PlainErr e))
                | Inr cfg \<Rightarrow> Inr cfg)))"

definition SaveConfig :: "host \<Rightarrow> Config \<Rightarrow> disk \<Rightarrow> cli_error option \<times> disk" where
  "SaveConfig h cfg files =
     (case ConfigPath h of
        Inl e \<Rightarrow> (Some e, files)
      | Inr path \<Rightarrow>
          (case ho_encode h cfg of
             Inl e \<Rightarrow> (Some (Wrap ''could not serialize config'' (PlainErr e)), files)
           | Inr data \<Rightarrow>
               (case ho_write h of
                  Some (e, left) \<Rightarrow>
                    (Some (Wrap ''could not write config'' (PlainErr e)),
                     (case left of None \<Rightarrow> files | Some d \<Rightarrow> files(path \<mapsto> d)))
                | None \<Rightarrow> (None, files(path \<mapsto> data)))))"


subsection \<open>Output\<close>

type_synonym Format = string

definition FormatTable :: Format where "FormatTable = ''table''"
definition FormatJSON :: Format where "FormatJSON = ''json''"
definition FormatYAML :: Format where "FormatYAML = ''yaml''"

definition ParseFormat :: "string \<Rightarrow> Format" where
  "ParseFormat s = (if s = ''json'' then FormatJSON else if s = ''yaml'' then FormatYAML else FormatTable)"

definition table_row :: "string list \<Rightarrow> string" where
  "table_row cells = concat (map (\<lambda>c. c @ [TAB]) cells) @ [NL]"

definition PrintTable :: "string list \<Rightarrow> string list list \<Rightarrow> string" where
  "PrintTable headers rows = tabwriter 2 (table_row headers @ concat (map table_row rows))"

text \<open>
  What a print writes and its error. The encoders are \<open>json.MarshalIndent\<close> and \<open>yaml.Marshal\<close> for
  the type of the value.
\<close>

record 'a encoders =
  en_json :: "'a \<Rightarrow> error + string"
  en_yaml :: "'a \<Rightarrow> error + string"

definition PrintJSON :: "'a encoders \<Rightarrow> 'a \<Rightarrow> string \<times> cli_error option" where
  "PrintJSON enc v =
     (case en_json enc v of
        Inl e \<Rightarrow> ([], Some (Wrap ''json marshal'' (PlainErr e)))
      | Inr data \<Rightarrow> (data @ [NL], None))"

definition PrintYAML :: "'a encoders \<Rightarrow> 'a \<Rightarrow> string \<times> cli_error option" where
  "PrintYAML enc v =
     (case en_yaml enc v of
        Inl e \<Rightarrow> ([], Some (Wrap ''yaml marshal'' (PlainErr e)))
      | Inr data \<Rightarrow> (data, None))"

text \<open>A formatter writes to the standard output; what it writes is its result here.\<close>

record Formatter =
  fm_format :: Format

definition NewFormatter :: "Format \<Rightarrow> Formatter" where
  "NewFormatter f = \<lparr>fm_format = f\<rparr>"

definition Print :: "'a encoders \<Rightarrow> Formatter \<Rightarrow> 'a \<Rightarrow> string \<Rightarrow> string \<times> cli_error option" where
  "Print enc f v tableText =
     (if fm_format f = FormatJSON then PrintJSON enc v
      else if fm_format f = FormatYAML then PrintYAML enc v
      else (tableText, None))"


subsection \<open>Manifests\<close>

record ModelSpec =
  sp_Name :: string
  sp_Namespace :: string
  sp_Version :: string
  sp_FilePath :: string
  sp_ModelType :: string
  sp_ModelSize :: int
  sp_Replicas :: int
  sp_InputFormat :: string

record ModelManifest =
  mf_APIVersion :: string
  mf_Kind :: string
  mf_Namespace :: string
  mf_Models :: "ModelSpec list"

definition zero_ModelManifest :: ModelManifest where
  "zero_ModelManifest = \<lparr>mf_APIVersion = [], mf_Kind = [], mf_Namespace = [], mf_Models = []\<rparr>"

definition validTypes :: "string list" where
  "validTypes = [''cnn'', ''linear'', ''decision_tree'', ''llm'', [] ]"

text \<open>The loop over the models, \<open>i\<close> being the index of the first one.\<close>

fun validate_models :: "nat \<Rightarrow> ModelSpec list \<Rightarrow> error option" where
  "validate_models i [] = None"
| "validate_models i (m # ms) =
     (if sp_Name m = [] then Some (''model['' @ Itoa (int i) @ '']: name is required'')
      else if sp_ModelType m \<notin> set validTypes
      then Some (''model['' @ Itoa (int i) @ ''] '' @ Quote (sp_Name m) @ '': invalid model_type '' @
             Quote (sp_ModelType m) @ '' (expected cnn|linear|decision_tree|llm)'')
      else validate_models (Suc i) ms)"

definition validateManifest :: "ModelManifest \<Rightarrow> error option" where
  "validateManifest m =
     (if mf_APIVersion m \<noteq> ''edgernetes.ai/v1''
      then Some (''unsupported apiVersion '' @ Quote (mf_APIVersion m) @ '' (expected edgernetes.ai/v1)'')
      else if mf_Kind m \<noteq> ''ModelManifest''
      then Some (''unsupported kind '' @ Quote (mf_Kind m) @ '' (expected ModelManifest)'')
      else if mf_Models m = [] then Some ''manifest must contain at least one model''
      else validate_models 0 (mf_Models m))"

definition ParseManifest ::
    "(string \<Rightarrow> error option) \<Rightarrow> (bytes \<Rightarrow> ModelManifest \<Rightarrow> error + ModelManifest) \<Rightarrow> disk \<Rightarrow> string
      \<Rightarrow> cli_error + ModelManifest" where
  "ParseManifest fault decode files path =
     (case ReadFile fault files path of
        Inl (missing, e) \<Rightarrow> Inl (Wrap (''could not read manifest '' @ path) (PlainErr e))
      | Inr data \<Rightarrow>
          (case decode data zero_ModelManifest of
             Inl e \<Rightarrow> Inl (Wrap (''invalid YAML in '' @ path) (PlainErr e))
           | Inr manifest \<Rightarrow>
               (case validateManifest manifest of
                  Some e \<Rightarrow> Inl (Wrap ''manifest validation failed'' (PlainErr e))
                | None \<Rightarrow> Inr manifest)))"

definition ResolveNamespace :: "string \<Rightarrow> string \<Rightarrow> string \<Rightarrow> string \<Rightarrow> string" where
  "ResolveNamespace cliOverride perModel fileLevel configDefault =
     (if cliOverride \<noteq> [] then cliOverride
      else if perModel \<noteq> [] then perModel
      else if fileLevel \<noteq> [] then fileLevel
      else if configDefault \<noteq> [] then configDefault
      else ''default'')"


subsection \<open>Lemmas\<close>

lemma ResolveNamespace_not_Nil [simp]: "ResolveNamespace a b c d \<noteq> []"
  by (simp add: ResolveNamespace_def)

lemma validate_models_None:
  "validate_models i ms = None \<longleftrightarrow> (\<forall>m \<in> set ms. sp_Name m \<noteq> [] \<and> sp_ModelType m \<in> set validTypes)"
  by (induction ms arbitrary: i) simp_all

lemma validateManifest_None:
  "validateManifest m = None \<longleftrightarrow> mf_APIVersion m = ''edgernetes.ai/v1'' \<and> mf_Kind m = ''ModelManifest'' \<and>
     mf_Models m \<noteq> [] \<and> (\<forall>s \<in> set (mf_Models m). sp_Name s \<noteq> [] \<and> sp_ModelType s \<in> set validTypes)"
  by (simp add: validateManifest_def validate_models_None)

text \<open>A configuration that was saved is the one that is loaded, when the decoder inverts the encoder.\<close>

lemma load_saved_config:
  assumes "SaveConfig h cfg files = (None, files')"
    and "\<And>d. ho_encode h cfg = Inr d \<Longrightarrow> ho_decode h d DefaultConfig = Inr cfg" and "\<And>p. ho_read h p = None"
  shows "LoadConfig h files' = Inr cfg"
  using assms by (auto simp: SaveConfig_def LoadConfig_def ReadFile_def split: sum.splits option.splits prod.splits)

end
