(* ===== verification/Client_Commands.thy ===== *)
theory Client_Commands
  imports Client
begin

section \<open>The commands of the client\<close>

text \<open>
  Models \<open>internal/client/cmd\<close> (the transfer of a file is in \<open>Client_Upload\<close>) and
  \<open>cmd/client/main.go\<close>. A command is a function of the global flags, the loaded configuration
  and the values of its own flags and arguments, which cobra has parsed. A call of the control
  plane is a parameter: a function of the request and of the state \<open>'s\<close> of the other side that
  returns the error or the reply, and the new state. \<open>dial\<close> is the error of \<open>grpc.NewClient\<close>.
  A command returns what it writes to the two output streams and how it ends.
\<close>

subsection \<open>Flags and connections\<close>

record flags =
  flagEndpoint :: string
  flagNamespace :: string
  flagOutput :: string

text \<open>The surroundings of a command.\<close>

record session =
  ss_lib :: grpc_lib
  ss_dial :: "string \<Rightarrow> cli_error option"
  ss_flags :: flags
  ss_cfg :: Config

definition resolveEndpoint :: "session \<Rightarrow> string" where
  "resolveEndpoint g =
     (if flagEndpoint (ss_flags g) \<noteq> [] then flagEndpoint (ss_flags g) else cf_Endpoint (ss_cfg g))"

definition resolveNS :: "session \<Rightarrow> string" where
  "resolveNS g = ResolveNamespace (flagNamespace (ss_flags g)) [] [] (cf_DefaultNamespace (ss_cfg g))"

definition resolveFormat :: "session \<Rightarrow> Format" where
  "resolveFormat g =
     (if flagOutput (ss_flags g) \<noteq> [] then ParseFormat (flagOutput (ss_flags g))
      else ParseFormat (cf_OutputFormat (ss_cfg g)))"

text \<open>\<open>client.New\<close>, with the error it returns.\<close>

definition client_New :: "session \<Rightarrow> string \<Rightarrow> cli_error option" where
  "client_New g endpoint = map_option (Wrap (''failed to connect to '' @ endpoint)) (ss_dial g endpoint)"

definition newClient :: "session \<Rightarrow> cli_error option" where
  "newClient g = client_New g (resolveEndpoint g)"

datatype outcome = Done | Failed cli_error | Exited

record run =
  rn_out :: string
  rn_err :: string
  rn_end :: outcome

definition say :: "string \<Rightarrow> run" where
  "say t = \<lparr>rn_out = t, rn_err = [], rn_end = Done\<rparr>"

definition fail :: "cli_error \<Rightarrow> run" where
  "fail e = \<lparr>rn_out = [], rn_err = [], rn_end = Failed e\<rparr>"

definition exitOnErr :: "session \<Rightarrow> cli_error \<Rightarrow> run" where
  "exitOnErr g e = \<lparr>rn_out = [], rn_err = FormatError (ss_lib g) e @ [NL], rn_end = Exited\<rparr>"

definition return_print :: "string \<times> cli_error option \<Rightarrow> run" where
  "return_print p = (case p of (t, None) \<Rightarrow> say t | (t, Some e) \<Rightarrow> fail e)"

type_synonym ('q, 'r, 's) rpc = "'q \<Rightarrow> 's \<Rightarrow> (cli_error + 'r) \<times> 's"

text \<open>The frame of the commands: connect, call, leave on an error, otherwise show the reply.\<close>

definition with_reply :: "session \<Rightarrow> ('q, 'r, 's) rpc \<Rightarrow> 'q \<Rightarrow> ('r \<Rightarrow> run) \<Rightarrow> 's \<Rightarrow> run \<times> 's" where
  "with_reply g call req k s =
     (case newClient g of
        Some e \<Rightarrow> (fail e, s)
      | None \<Rightarrow>
          (case call req s of
             (Inl e, s') \<Rightarrow> (exitOnErr g e, s')
           | (Inr resp, s') \<Rightarrow> (k resp, s')))"

text \<open>What a handler of a service looks like from the other end of a connection that works.\<close>

definition received :: "'r reply \<Rightarrow> cli_error + 'r" where
  "received r =
     (case r of
        (_, Some (c, m)) \<Rightarrow> Inl (StatusErr c m)
      | (Some v, None) \<Rightarrow> Inr v
      | (None, None) \<Rightarrow> Inl (StatusErr Internal ''no reply''))"


subsection \<open>Model commands\<close>

record model_flags =
  mfl_name :: string
  mfl_version :: string
  mfl_filePath :: string
  mfl_modelType :: string
  mfl_modelSize :: int
  mfl_replicas :: int
  mfl_inputFormat :: string

definition modelRegisterCmd :: "session \<Rightarrow> (ProtoModelInfo, bool, 's) rpc \<Rightarrow> model_flags \<Rightarrow> 's \<Rightarrow> run \<times> 's" where
  "modelRegisterCmd g call f s =
     with_reply g call
       \<lparr>pm_Id = [], pm_Name = mfl_name f, pm_Version = mfl_version f, pm_FilePath = mfl_filePath f,
        pm_ModelType = mfl_modelType f, pm_ModelSize = mfl_modelSize f, pm_Replicas = mfl_replicas f,
        pm_InputFormat = mfl_inputFormat f, pm_Namespace = resolveNS g\<rparr>
       (\<lambda>ok. say (''Model registered: success='' @ FormatBool ok @ [NL])) s"

definition modelDeregisterCmd :: "session \<Rightarrow> (string, bool, 's) rpc \<Rightarrow> string \<Rightarrow> 's \<Rightarrow> run \<times> 's" where
  "modelDeregisterCmd g call arg s =
     with_reply g call arg (\<lambda>ok. say (''Model deregistered: success='' @ FormatBool ok @ [NL])) s"

definition modelUpdateCmd ::
    "session \<Rightarrow> (UpdateModelRequest, bool, 's) rpc \<Rightarrow> model_flags \<Rightarrow> string \<Rightarrow> 's \<Rightarrow> run \<times> 's" where
  "modelUpdateCmd g call f arg s =
     with_reply g call
       \<lparr>um_Id = arg, um_Name = mfl_name f, um_Version = mfl_version f, um_FilePath = mfl_filePath f,
        um_ModelType = mfl_modelType f, um_ModelSize = mfl_modelSize f, um_Replicas = mfl_replicas f,
        um_InputFormat = mfl_inputFormat f, um_Namespace = resolveNS g\<rparr>
       (\<lambda>ok. say (''Model updated: success='' @ FormatBool ok @ [NL])) s"

definition modelGetCmd ::
    "session \<Rightarrow> ProtoModelInfo encoders \<Rightarrow> (string, ProtoModelInfo, 's) rpc \<Rightarrow> string \<Rightarrow> 's \<Rightarrow> run \<times> 's" where
  "modelGetCmd g enc call arg s =
     with_reply g call arg
       (\<lambda>m. return_print (Print enc (NewFormatter (resolveFormat g)) m
          (PrintTable [''ID'', ''NAME'', ''NAMESPACE'', ''VERSION'', ''TYPE'', ''SIZE'', ''REPLICAS'']
             [[pm_Id m, pm_Name m, pm_Namespace m, pm_Version m, pm_ModelType m, Itoa (pm_ModelSize m), Itoa (pm_Replicas m)]]))) s"

definition modelListCmd ::
    "session \<Rightarrow> ProtoModelInfo list encoders \<Rightarrow> (unit, ProtoModelInfo list, 's) rpc \<Rightarrow> 's \<Rightarrow> run \<times> 's" where
  "modelListCmd g enc call s =
     with_reply g call ()
       (\<lambda>models.
          let ns = resolveNS g;
              filtered = (if flagNamespace (ss_flags g) \<noteq> [] then filter (\<lambda>m. pm_Namespace m = ns) models else models)
          in return_print (Print enc (NewFormatter (resolveFormat g)) filtered
               (PrintTable [''ID'', ''NAME'', ''NAMESPACE'', ''VERSION'', ''TYPE'', ''REPLICAS'']
                  (map (\<lambda>m. [pm_Id m, pm_Name m, pm_Namespace m, pm_Version m, pm_ModelType m, Itoa (pm_Replicas m)]) filtered)))) s"

definition modelStatusCmd ::
    "session \<Rightarrow> ModelStatusResponse encoders \<Rightarrow> (ModelName, ModelStatusResponse, 's) rpc \<Rightarrow> string \<Rightarrow> 's \<Rightarrow> run \<times> 's" where
  "modelStatusCmd g enc call arg s =
     with_reply g call \<lparr>mn_Name = arg, mn_Namespace = resolveNS g\<rparr>
       (\<lambda>r. return_print (Print enc (NewFormatter (resolveFormat g)) r
          (PrintTable [''MODEL'', ''ID'', ''STATUS'', ''TOTAL'', ''RUNNING'', ''PENDING'', ''FAILED'', ''UNKNOWN'']
             [[ms_ModelName r, ms_ModelId r, ms_Status r, Itoa (ms_TotalReplicas r),
               Itoa (pb_Running (ms_Breakdown r)), Itoa (pb_Pending (ms_Breakdown r)),
               Itoa (pb_Failed (ms_Breakdown r)), Itoa (pb_Unknown (ms_Breakdown r))]]))) s"

definition modelNodesCmd ::
    "session \<Rightarrow> ModelNodesResponse encoders \<Rightarrow> (ModelName, ModelNodesResponse, 's) rpc \<Rightarrow> string \<Rightarrow> 's \<Rightarrow> run \<times> 's" where
  "modelNodesCmd g enc call arg s =
     with_reply g call \<lparr>mn_Name = arg, mn_Namespace = resolveNS g\<rparr>
       (\<lambda>r. return_print (Print enc (NewFormatter (resolveFormat g)) r
          (PrintTable [''NODE ID'', ''IP'', ''PORT'']
             (map (\<lambda>n. [pna_NodeId n, pna_Ip n, Itoa (pna_Port n)]) (mnr_Nodes r))))) s"


subsection \<open>Node commands\<close>

definition metaField :: "ProtoNodeInfo \<Rightarrow> string \<Rightarrow> string" where
  "metaField n field =
     (case pn_Metadata n of
        None \<Rightarrow> []
      | Some md \<Rightarrow>
          if field = ''os_type'' then pmd_OsType md
          else if field = ''hostname'' then pmd_Hostname md
          else if field = ''agent_version'' then pmd_AgentVersion md
          else [])"

definition node_row :: "ProtoNodeInfo \<Rightarrow> string list" where
  "node_row n = [pn_NodeId n, pn_Name n, pn_Ip n, Itoa (pn_Port n), metaField n ''os_type'', metaField n ''hostname'']"

definition nodeGetCmd ::
    "session \<Rightarrow> ProtoNodeInfo encoders \<Rightarrow> (string, ProtoNodeInfo, 's) rpc \<Rightarrow> string \<Rightarrow> 's \<Rightarrow> run \<times> 's" where
  "nodeGetCmd g enc call arg s =
     with_reply g call arg
       (\<lambda>n. return_print (Print enc (NewFormatter (resolveFormat g)) n
          (PrintTable [''NODE ID'', ''NAME'', ''IP'', ''PORT'', ''OS'', ''HOSTNAME''] [node_row n]))) s"

definition nodeListCmd ::
    "session \<Rightarrow> ProtoNodeInfo list encoders \<Rightarrow> (unit, ProtoNodeInfo list, 's) rpc \<Rightarrow> 's \<Rightarrow> run \<times> 's" where
  "nodeListCmd g enc call s =
     with_reply g call ()
       (\<lambda>nodes. return_print (Print enc (NewFormatter (resolveFormat g)) nodes
          (PrintTable [''NODE ID'', ''NAME'', ''IP'', ''PORT'', ''OS'', ''HOSTNAME''] (map node_row nodes)))) s"

definition nodeEndpointsCmd ::
    "session \<Rightarrow> NodeEndpoint list encoders \<Rightarrow> (unit, NodeEndpoint list, 's) rpc \<Rightarrow> 's \<Rightarrow> run \<times> 's" where
  "nodeEndpointsCmd g enc call s =
     with_reply g call ()
       (\<lambda>nodes. return_print (Print enc (NewFormatter (resolveFormat g)) nodes
          (PrintTable [''NODE ID'', ''IP'', ''PORT''] (map (\<lambda>n. [ne_NodeId n, ne_Ip n, Itoa (ne_Port n)]) nodes)))) s"


subsection \<open>Deployment and inference\<close>

record deploy_flags =
  dfl_instances :: int
  dfl_filePath :: string
  dfl_name :: string
  dfl_version :: string
  dfl_modelType :: string
  dfl_modelSize :: int
  dfl_sha256 :: string

definition deployCmd ::
    "session \<Rightarrow> (DeployModelRequest, DeployModelResponse, 's) rpc \<Rightarrow> deploy_flags \<Rightarrow> string \<Rightarrow> 's \<Rightarrow> run \<times> 's" where
  "deployCmd g call f arg s =
     with_reply g call
       \<lparr>dm_ModelId = arg, dm_Name = dfl_name f, dm_Version = dfl_version f, dm_FilePath = dfl_filePath f,
        dm_ModelType = dfl_modelType f, dm_ModelSize = dfl_modelSize f, dm_InstanceCount = dfl_instances f,
        dm_Namespace = resolveNS g, dm_Sha256Hash = dfl_sha256 f\<rparr>
       (\<lambda>r. say (''Deploy: success='' @ FormatBool (dp_Success r) @ '' message='' @ dp_Message r @ [NL])) s"

text \<open>\<open>parseFloatList\<close>: empty parts are skipped.\<close>

fun parse_parts :: "string list \<Rightarrow> cli_error + float64 list" where
  "parse_parts [] = Inr []"
| "parse_parts (w # ws) =
     (let p = TrimSpace w in
      if p = [] then parse_parts ws
      else (case ParseFloat32 p of
              Inl e \<Rightarrow> Inl (Wrap (''cannot parse '' @ Quote p @ '' as float'') (PlainErr e))
            | Inr v \<Rightarrow> (case parse_parts ws of Inl e \<Rightarrow> Inl e | Inr vs \<Rightarrow> Inr (v # vs))))"

definition parseFloatList :: "string \<Rightarrow> cli_error + float64 list" where
  "parseFloatList s = parse_parts (Split s (CHR '',''))"

record infer_flags =
  ifl_modelID :: string
  ifl_input :: string
  ifl_target :: string
  ifl_scaling :: bool

definition show_infer :: "session \<Rightarrow> InferResponse encoders \<Rightarrow> InferResponse \<Rightarrow> run" where
  "show_infer g enc r =
     return_print (Print enc (NewFormatter (resolveFormat g)) r
       (PrintTable [''SUCCESS'', ''PREDICTION'', ''ERROR'']
          [[FormatBool (ir_Success r), FormatFloat (ir_Prediction r) 6, ir_ErrorMessage r]]))"

text \<open>
  With a target the request goes to that agent, with a connection of its own; the client for the
  control plane is opened and closed for its timeout only. Without a target it goes to the
  control plane.
\<close>

definition inferCmd ::
    "session \<Rightarrow> InferResponse encoders \<Rightarrow> (string \<Rightarrow> (InferRequest, InferResponse, 's) rpc) \<Rightarrow>
      (InferRequest, InferResponse, 's) rpc \<Rightarrow> infer_flags \<Rightarrow> 's \<Rightarrow> run \<times> 's" where
  "inferCmd g enc agent_call call f s =
     (case parseFloatList (ifl_input f) of
        Inl e \<Rightarrow> (fail (Wrap ''invalid --input'' e), s)
      | Inr inputData \<Rightarrow>
          (let req = \<lparr>iq_ModelId = ifl_modelID f, iq_InputData = inputData,
                      iq_ScalingEnabled = ifl_scaling f, iq_IsForwarded = False\<rparr>
           in if ifl_target f \<noteq> []
              then (case ss_dial g (ifl_target f) of
                      Some e \<Rightarrow> (fail (Wrap (''failed to connect to agent '' @ ifl_target f) e), s)
                    | None \<Rightarrow> with_reply g (agent_call (ifl_target f)) req (show_infer g enc) s)
              else with_reply g call req (show_infer g enc) s))"


subsection \<open>Applying a manifest\<close>

definition spec_namespace :: "session \<Rightarrow> ModelManifest \<Rightarrow> ModelSpec \<Rightarrow> string" where
  "spec_namespace g mf m =
     ResolveNamespace (flagNamespace (ss_flags g)) (sp_Namespace m) (mf_Namespace mf) (cf_DefaultNamespace (ss_cfg g))"

definition spec_request :: "session \<Rightarrow> ModelManifest \<Rightarrow> ModelSpec \<Rightarrow> ProtoModelInfo" where
  "spec_request g mf m =
     \<lparr>pm_Id = [], pm_Name = sp_Name m, pm_Version = sp_Version m, pm_FilePath = sp_FilePath m,
      pm_ModelType = sp_ModelType m, pm_ModelSize = sp_ModelSize m, pm_Replicas = sp_Replicas m,
      pm_InputFormat = sp_InputFormat m, pm_Namespace = spec_namespace g mf m\<rparr>"

text \<open>The marks of the result lines, in UTF-8: a check mark and a cross, each with a space.\<close>

definition check_mark :: string where "check_mark = [CHR 0xE2, CHR 0x9C, CHR 0x93, CHR '' '']"
definition cross_mark :: string where "cross_mark = [CHR 0xE2, CHR 0x9C, CHR 0x97, CHR '' '']"

record apply_state =
  ap_results :: "(string \<times> string \<times> string) list"
  ap_succeeded :: nat
  ap_failed :: nat

text \<open>One round of the loop over the models of the manifest.\<close>

definition apply_model ::
    "session \<Rightarrow> ModelManifest \<Rightarrow> (ProtoModelInfo, bool, 's) rpc \<Rightarrow> ModelSpec \<Rightarrow> apply_state \<times> 's \<Rightarrow> apply_state \<times> 's" where
  "apply_model g mf call m st =
     (case st of (a, s) \<Rightarrow>
       (let ns = spec_namespace g mf m in
        case call (spec_request g mf m) s of
          (Inl e, s') \<Rightarrow>
            (a\<lparr>ap_failed := ap_failed a + 1,
               ap_results := ap_results a @ [(ns, sp_Name m, cross_mark @ FormatError (ss_lib g) e)]\<rparr>, s')
        | (Inr _, s') \<Rightarrow>
            (a\<lparr>ap_succeeded := ap_succeeded a + 1,
               ap_results := ap_results a @ [(ns, sp_Name m, check_mark @ ''registered'')]\<rparr>, s')))"

definition apply_start :: apply_state where
  "apply_start = \<lparr>ap_results = [], ap_succeeded = 0, ap_failed = 0\<rparr>"

definition apply_models ::
    "session \<Rightarrow> ModelManifest \<Rightarrow> (ProtoModelInfo, bool, 's) rpc \<Rightarrow> 's \<Rightarrow> apply_state \<times> 's" where
  "apply_models g mf call s = fold (apply_model g mf call) (mf_Models mf) (apply_start, s)"

definition dry_run_text :: "session \<Rightarrow> ModelManifest \<Rightarrow> string" where
  "dry_run_text g mf =
     ''Dry run'' @ em_dash @ ''the following models would be applied:'' @ [NL] @
     concat (map (\<lambda>m. ''  ['' @ spec_namespace g mf m @ ''] '' @ sp_Name m @ '' (version='' @ sp_Version m @
       '', type='' @ sp_ModelType m @ '', replicas='' @ Itoa (sp_Replicas m) @ '')'' @ [NL]) (mf_Models mf))"

definition applyCmd ::
    "session \<Rightarrow> cli_error + ModelManifest \<Rightarrow> bool \<Rightarrow> (ProtoModelInfo, bool, 's) rpc \<Rightarrow> 's \<Rightarrow> run \<times> 's" where
  "applyCmd g parsed dryRun call s =
     (case parsed of
        Inl e \<Rightarrow> (fail e, s)
      | Inr manifest \<Rightarrow>
          if dryRun then (say (dry_run_text g manifest), s)
          else
            (case newClient g of
               Some e \<Rightarrow> (fail e, s)
             | None \<Rightarrow>
                 (case apply_models g manifest call s of
                    (a, s') \<Rightarrow>
                      (say (PrintTable [''NAMESPACE'', ''MODEL'', ''STATUS'']
                              (map (\<lambda>(ns, name, status). [ns, name, status]) (ap_results a)) @
                            [NL] @ ''Applied '' @ Itoa (int (length (mf_Models manifest))) @ '' models: '' @
                            Itoa (int (ap_succeeded a)) @ '' succeeded, '' @ Itoa (int (ap_failed a)) @ '' failed'' @ [NL]), s'))))"


subsection \<open>Configuration commands, version and main\<close>

definition save_and_say :: "host \<Rightarrow> Config \<Rightarrow> string \<Rightarrow> disk \<Rightarrow> run \<times> disk" where
  "save_and_say h cfg t files =
     (case SaveConfig h cfg files of (Some e, files') \<Rightarrow> (fail e, files') | (None, files') \<Rightarrow> (say t, files'))"

definition configSetEndpointCmd :: "host \<Rightarrow> Config \<Rightarrow> string \<Rightarrow> disk \<Rightarrow> run \<times> disk" where
  "configSetEndpointCmd h cfg arg =
     save_and_say h (cfg\<lparr>cf_Endpoint := arg\<rparr>) (''Endpoint set to '' @ arg @ [NL])"

definition configSetNamespaceCmd :: "host \<Rightarrow> Config \<Rightarrow> string \<Rightarrow> disk \<Rightarrow> run \<times> disk" where
  "configSetNamespaceCmd h cfg arg =
     save_and_say h (cfg\<lparr>cf_DefaultNamespace := arg\<rparr>) (''Default namespace set to '' @ arg @ [NL])"

definition configSetOutputCmd :: "host \<Rightarrow> Config \<Rightarrow> string \<Rightarrow> disk \<Rightarrow> run \<times> disk" where
  "configSetOutputCmd h cfg arg =
     save_and_say h (cfg\<lparr>cf_OutputFormat := arg\<rparr>) (''Output format set to '' @ arg @ [NL])"

definition configViewCmd :: "host \<Rightarrow> Config \<Rightarrow> run" where
  "configViewCmd h cfg =
     say (''Config file: '' @ (case ConfigPath h of Inl e \<Rightarrow> [] | Inr p \<Rightarrow> p) @ [NL] @
          ''Endpoint:    '' @ cf_Endpoint cfg @ [NL] @
          ''Namespace:   '' @ cf_DefaultNamespace cfg @ [NL] @
          ''Output:      '' @ cf_OutputFormat cfg @ [NL] @
          ''Timeout:     '' @ Itoa (cf_TimeoutSeconds cfg) @ ''s'' @ [NL])"

definition clientVersion :: string where "clientVersion = ''0.1.0''"

definition versionCmd :: run where
  "versionCmd = say (''edgectl version '' @ clientVersion @ [NL])"

text \<open>
  The pre-run of the root command loads the configuration, \<open>Execute\<close> runs the command that cobra
  selects with it (here the parameter \<open>command\<close>), and \<open>main\<close> reports its error.
\<close>

definition root_pre_run :: "host \<Rightarrow> disk \<Rightarrow> cli_error + Config" where
  "root_pre_run h files =
     (case LoadConfig h files of Inl e \<Rightarrow> Inl (Wrap ''failed to load config'' e) | Inr cfg \<Rightarrow> Inr cfg)"

definition Execute :: "host \<Rightarrow> disk \<Rightarrow> (Config \<Rightarrow> 's \<Rightarrow> run \<times> 's) \<Rightarrow> 's \<Rightarrow> run \<times> 's" where
  "Execute h files command s =
     (case root_pre_run h files of Inl e \<Rightarrow> (fail e, s) | Inr cfg \<Rightarrow> command cfg s)"

definition client_main ::
    "grpc_lib \<Rightarrow> host \<Rightarrow> disk \<Rightarrow> (Config \<Rightarrow> 's \<Rightarrow> run \<times> 's) \<Rightarrow> 's \<Rightarrow> run \<times> 's" where
  "client_main lib h files command s =
     (case Execute h files command s of
        (r, s') \<Rightarrow>
          (case rn_end r of
             Failed e \<Rightarrow> (r\<lparr>rn_err := rn_err r @ ErrorText lib e @ [NL], rn_end := Exited\<rparr>, s')
           | _ \<Rightarrow> (r, s')))"

text \<open>No command starts without a configuration: when it cannot be loaded the process ends with the error.\<close>

lemma client_main_no_config:
  "LoadConfig h files = Inl e \<Longrightarrow> client_main lib h files command s =
     (\<lparr>rn_out = [], rn_err = ErrorText lib (Wrap ''failed to load config'' e) @ [NL], rn_end = Exited\<rparr>, s)"
  by (simp add: client_main_def Execute_def root_pre_run_def fail_def)

end
