(* ===== verification/Go_Time.thy ===== *)
theory Go_Time
  imports Go_Strings Go_Float
begin

section \<open>Durations as text\<close>

text \<open>
  \<open>time.ParseDuration\<close>: an optional sign and one or more decimal numbers, each with a unit. The
  arithmetic is that of the library: unsigned 64-bit sums, the fraction through double
  precision, and an error when a number leaves the range.
\<close>

text \<open>Leading digits; \<open>None\<close> when the number is above \<open>2 ^ 63\<close>.\<close>

fun leading_int :: "nat \<Rightarrow> string \<Rightarrow> (nat \<times> string) option" where
  "leading_int x [] = Some (x, [])"
| "leading_int x (c # s) =
     (if \<not> is_digit c then Some (x, c # s)
      else if 2 ^ 63 div 10 < x then None
      else if 2 ^ 63 < x * 10 + digit_val c then None
      else leading_int (x * 10 + digit_val c) s)"

text \<open>The digits behind the point and their scale; further digits are dropped where they do not fit.\<close>

fun leading_fraction :: "bool \<Rightarrow> nat \<Rightarrow> nat \<Rightarrow> string \<Rightarrow> nat \<times> nat \<times> string" where
  "leading_fraction over x scale [] = (x, scale, [])"
| "leading_fraction over x scale (c # s) =
     (if \<not> is_digit c then (x, scale, c # s)
      else if over \<or> (2 ^ 63 - 1) div 10 < x \<or> 2 ^ 63 < x * 10 + digit_val c then leading_fraction True x scale s
      else leading_fraction False (x * 10 + digit_val c) (scale * 10) s)"

definition duration_units :: "(string \<times> nat) list" where
  "duration_units =
     [(''ns'', 1), (''us'', 1000), ([CHR 0xC2, CHR 0xB5, CHR ''s''], 1000), ([CHR 0xCE, CHR 0xBC, CHR ''s''], 1000),
      (''ms'', 1000000), (''s'', 1000000000), (''m'', 60000000000), (''h'', 3600000000000)]"

definition fraction_ns :: "nat \<Rightarrow> nat \<Rightarrow> nat \<Rightarrow> nat" where
  "fraction_ns f unit scale =
     (case (fl64 (of_nat f), fl64 (of_nat unit / of_nat scale)) of
        (Fin a, Fin b) \<Rightarrow> (case fl64 (a * b) of Fin z \<Rightarrow> nat \<lfloor>z\<rfloor> | _ \<Rightarrow> 0)
      | _ \<Rightarrow> 0)"

text \<open>The text before the unit: whole part, fraction, scale and the rest.\<close>

definition read_number :: "string \<Rightarrow> (nat \<times> nat \<times> nat \<times> string) option" where
  "read_number s =
     (if \<not> (hd s = CHR ''.'' \<or> is_digit (hd s)) then None
      else case leading_int 0 s of
        None \<Rightarrow> None
      | Some (v, t) \<Rightarrow>
          (if t \<noteq> [] \<and> hd t = CHR ''.''
           then (case leading_fraction False 0 1 (tl t) of
                   (f, scale, u) \<Rightarrow>
                     if length t = length s \<and> length u = length (tl t) then None else Some (v, f, scale, u))
           else if length t = length s then None else Some (v, 0, 1, t)))"

definition in_unit :: "char \<Rightarrow> bool" where
  "in_unit c \<longleftrightarrow> \<not> (c = CHR ''.'' \<or> is_digit c)"

lemma leading_int_length: "leading_int x s = Some (v, t) \<Longrightarrow> length t \<le> length s"
  by (induction x s rule: leading_int.induct) (auto split: if_splits)

lemma leading_fraction_length: "leading_fraction b x k s = (f, k', t) \<Longrightarrow> length t \<le> length s"
  by (induction b x k s rule: leading_fraction.induct) (auto split: if_splits)

lemma read_number_length:
  assumes "read_number s = Some (v, f, scale, t)"
  shows "length t \<le> length s"
proof -
  from assms obtain u where u: "leading_int 0 s = Some (v, u)"
    by (auto simp: read_number_def split: if_splits option.splits prod.splits)
  note leading_int_length [OF u]
  moreover have "t = u \<or> leading_fraction False 0 1 (tl u) = (f, scale, t)"
    using assms u by (auto simp: read_number_def split: if_splits prod.splits)
  then have "length t \<le> length u" using leading_fraction_length [of False 0 1 "tl u" f scale t] by auto
  ultimately show ?thesis by simp
qed

function parse_terms :: "string \<Rightarrow> nat \<Rightarrow> nat option" where
  "parse_terms s d =
     (if s = [] then Some d
      else case read_number s of
        None \<Rightarrow> None
      | Some (v, f, scale, t) \<Rightarrow>
          (let u = takeWhile in_unit t; rest = dropWhile in_unit t in
           if u = [] then None
           else case map_of duration_units u of
             None \<Rightarrow> None
           | Some unit \<Rightarrow>
               if 2 ^ 63 div unit < v then None
               else
                 (let v = v * unit + (if 0 < f then fraction_ns f unit scale else 0) in
                  if 0 < f \<and> 2 ^ 63 < v then None
                  else if 2 ^ 63 < (d + v) mod 2 ^ 64 then None
                  else parse_terms rest ((d + v) mod 2 ^ 64))))"
  by pat_completeness auto
termination
proof (relation "measure (length \<circ> fst)"; clarsimp)
  fix s v f scale t u
  assume "read_number s = Some (v, f, scale, t)" "takeWhile in_unit t \<noteq> []"
  moreover have "length (takeWhile in_unit t) + length (dropWhile in_unit t) = length t"
    by (simp flip: length_append)
  ultimately have "length (dropWhile in_unit t) < length t" by (cases "takeWhile in_unit t") auto
  with read_number_length [of s v f scale t] show "length (dropWhile in_unit t) < length s"
    using \<open>read_number s = _\<close> by simp
qed

declare parse_terms.simps [simp del]

definition ParseDuration :: "string \<Rightarrow> time option" where
  "ParseDuration s =
     (let neg = (s \<noteq> [] \<and> hd s = CHR ''-'');
          t = (if s \<noteq> [] \<and> (hd s = CHR ''-'' \<or> hd s = CHR ''+'') then tl s else s)
      in if t = ''0'' then Some 0
         else if t = [] then None
         else case parse_terms t 0 of
           None \<Rightarrow> None
         | Some d \<Rightarrow> if neg then Some (- int d) else if 2 ^ 63 - 1 < d then None else Some (int d))"

lemma parse_terms_bound: "parse_terms s d = Some e \<Longrightarrow> d \<le> 2 ^ 63 \<Longrightarrow> e \<le> 2 ^ 63"
proof (induction s d rule: parse_terms.induct)
  case (1 s d)
  show ?case
  proof (cases "s = []")
    case True
    with "1.prems" show ?thesis by (simp add: parse_terms.simps)
  next
    case False
    with "1.prems"(1) obtain v f scale t where r: "read_number s = Some (v, f, scale, t)"
      by (subst (asm) parse_terms.simps) (auto split: option.splits)
    from "1.prems"(1) False r obtain unit w where u: "takeWhile in_unit t \<noteq> []"
      "map_of duration_units (takeWhile in_unit t) = Some unit" "\<not> 2 ^ 63 div unit < v"
      "w = v * unit + (if 0 < f then fraction_ns f unit scale else 0)" "\<not> (0 < f \<and> 2 ^ 63 < w)"
      "\<not> 2 ^ 63 < (d + w) mod 2 ^ 64" "parse_terms (dropWhile in_unit t) ((d + w) mod 2 ^ 64) = Some e"
      by (subst (asm) parse_terms.simps) (auto simp: Let_def split: if_splits option.splits)
    from "1.IH" [OF False r refl refl refl refl refl u(1,2,3,4,5,6,7)] u(6) show ?thesis by simp
  qed
qed

text \<open>What is read is a 64-bit duration.\<close>

lemma ParseDuration_range:
  assumes "ParseDuration s = Some d"
  shows "in_int64 d"
  using assms parse_terms_bound [of _ 0]
  by (auto simp: ParseDuration_def Let_def in_int64_def split: if_splits option.splits dest!: parse_terms_bound)

text \<open>A number of seconds is read back.\<close>

lemma leading_int_digits:
  assumes "list_all is_digit ds" and "r = [] \<or> \<not> is_digit (hd r)"
  shows "foldl (\<lambda>a c. 10 * a + digit_val c) x ds \<le> 2 ^ 63 \<Longrightarrow>
    leading_int x (ds @ r) = Some (foldl (\<lambda>a c. 10 * a + digit_val c) x ds, r)"
  using assms(1)
proof (induction ds arbitrary: x)
  case Nil
  then show ?case using assms(2) by (cases r) auto
next
  case (Cons c ds)
  have mono: "x \<le> foldl (\<lambda>a c. 10 * a + digit_val c) x ds" for x
  proof (induction ds arbitrary: x)
    case (Cons c ds)
    have "x \<le> 10 * x + digit_val c" by simp
    also have "\<dots> \<le> foldl (\<lambda>a c. 10 * a + digit_val c) (10 * x + digit_val c) ds" by (rule Cons)
    finally show ?case by simp
  qed simp
  from Cons.prems mono [of "10 * x + digit_val c"] have le: "10 * x + digit_val c \<le> 2 ^ 63" by simp
  then have "x \<le> 2 ^ 63 div 10" by simp
  with le Cons show ?case by (simp add: mult.commute)
qed

lemma ParseDuration_seconds:
  assumes "n \<le> 9223372036"
  shows "ParseDuration (Itoa (int n) @ ''s'') = Some (int n * Second)"
proof -
  let ?ds = "dec_nat n"
  have d: "list_all is_digit ?ds" "?ds \<noteq> []" by (simp_all add: dec_nat_digits)
  then obtain c cs where c: "?ds = c # cs" "is_digit c" by (cases "?ds") auto
  have val: "foldl (\<lambda>a c. 10 * a + digit_val c) 0 ?ds = n"
    using dec_val_dec_nat [of n] by (simp add: dec_val_def)
  have "leading_int 0 (?ds @ ''s'') = Some (n, ''s'')"
    using leading_int_digits [OF d(1), of "''s''" 0] assms unfolding val by (simp add: is_digit_def byte_of_def)
  then have num: "read_number (?ds @ ''s'') = Some (n, 0, 1, ''s'')"
    using d c by (simp add: read_number_def)
  have "in_unit (CHR ''s'')" by (simp add: in_unit_def is_digit_def byte_of_def)
  then have "parse_terms (?ds @ ''s'') 0 = Some (n * 1000000000)"
    using num d(2) assms
    by (simp add: parse_terms.simps [of "_ @ _"] duration_units_def parse_terms.simps [of "[]"] Let_def)
  moreover have "c \<noteq> CHR ''-''" "c \<noteq> CHR ''+''" using c(2) by (auto simp: is_digit_def byte_of_def)
  ultimately show ?thesis
    using c assms by (simp add: ParseDuration_def Itoa_def Second_def Let_def)
qed

end
