(* ===== verification/Services.thy ===== *)
theory Services
  imports Agent_Registration Client_Commands Go_Time
begin

section \<open>Servers and processes\<close>

text \<open>
  How the processes are put together: the services that the control plane and the agent register
  with their gRPC server (\<open>api/grpc/registry/registry.go\<close>, \<open>internal/agent/api/grpc/grpc.go\<close>), the
  \<open>main\<close> of the control plane, the agent from registration to its server, and the client's
  connection with its timeout (\<open>internal/client/client.go\<close>, \<open>cmd/root.go\<close>). Listening and serving
  are parameters. The gRPC library is one too: what is used of it is that a call of a service
  that the server does not know ends with the status \<open>Unimplemented\<close>.
\<close>

subsection \<open>The services of a server\<close>

datatype service = ModelRegistryAPI | NodeRegistryAPI | ModelTransferService | DiscoveryAPI
  | HeartbeatAPI | DeployAPI | InferAPI

text \<open>
  The handlers behind a service. The structs of the handlers hold a pointer to the store or to the
  agent, which here is the state of the process, and the transfer server its directory; the
  constructors are named after the functions that make them.
\<close>

datatype handlers = ModelRegistryServer | NodeRegistryServer | ModelTransferServer string | DiscoveryServer
  | HeartbeatServer | DeployServer | InferServer

type_synonym grpc_server = "service \<rightharpoonup> handlers"

definition NewServer :: grpc_server where "NewServer = Map.empty"

definition NewModelRegistryServer :: handlers where "NewModelRegistryServer = ModelRegistryServer"

definition NewNodeRegistryServer :: handlers where "NewNodeRegistryServer = NodeRegistryServer"

definition NewDiscoveryServer :: handlers where "NewDiscoveryServer = DiscoveryServer"

definition NewHeartbeatServer :: handlers where "NewHeartbeatServer = HeartbeatServer"

definition NewDeployServer :: handlers where "NewDeployServer = DeployServer"

definition NewInferServer :: handlers where "NewInferServer = InferServer"

definition NewModelTransferServer :: "string \<Rightarrow> handlers" where
  "NewModelTransferServer modelDir = ModelTransferServer modelDir"

definition RegisterServices :: "string \<Rightarrow> grpc_server \<Rightarrow> grpc_server" where
  "RegisterServices modelDir s =
     s(ModelRegistryAPI \<mapsto> NewModelRegistryServer, NodeRegistryAPI \<mapsto> NewNodeRegistryServer,
       ModelTransferService \<mapsto> NewModelTransferServer modelDir, DiscoveryAPI \<mapsto> NewDiscoveryServer)"

record network_io =
  nw_listen :: "string \<Rightarrow> error option"
  nw_serve :: "error option"

definition StartGRPCServer :: "network_io \<Rightarrow> string \<Rightarrow> error option \<times> grpc_server" where
  "StartGRPCServer nw addr =
     (case nw_listen nw addr of
        Some e \<Rightarrow> (Some (''failed to listen on '' @ addr @ '': '' @ e), NewServer)
      | None \<Rightarrow>
          (let s = NewServer(HeartbeatAPI \<mapsto> NewHeartbeatServer, DeployAPI \<mapsto> NewDeployServer, InferAPI \<mapsto> NewInferServer)
           in (map_option (\<lambda>e. ''gRPC server stopped: '' @ e) (nw_serve nw), s)))"


subsection \<open>The control plane\<close>

text \<open>
  \<open>main\<close>: it ends with a message, or it serves. The disk gives the content of the log in a data
  directory. The heartbeat handler panics at once when its ticker gets an interval that is not
  positive, and a panic of a goroutine ends the process.
\<close>

datatype exit = Fatal error | Panic error

record control_plane =
  cp_store :: Store
  cp_server :: grpc_server
  cp_addr :: string
  cp_interval :: time

definition env_or :: "(string \<Rightarrow> string) \<Rightarrow> string \<Rightarrow> string \<Rightarrow> string" where
  "env_or getenv name def = (if getenv name \<noteq> [] then getenv name else def)"

definition data_dir :: "(string \<Rightarrow> string) \<Rightarrow> string" where
  "data_dir getenv = env_or getenv ''STORE_DATA_DIR'' (path_Join [''.'', ''data'', ''control-plane-store''])"

definition NewTicker :: "time \<Rightarrow> error option" where
  "NewTicker d = (if d \<le> 0 then Some ''non-positive interval for NewTicker'' else None)"

definition control_plane_main ::
    "(string \<Rightarrow> string) \<Rightarrow> open_io \<Rightarrow> (string \<Rightarrow> bytes option) \<Rightarrow> network_io \<Rightarrow> exit + control_plane" where
  "control_plane_main getenv x disk nw =
     (let dataDir = data_dir getenv in
      case New x dataDir (disk dataDir) of
        Inl e \<Rightarrow> Inl (Fatal (''failed to init store: '' @ e))
      | Inr store \<Rightarrow>
          (let addr = env_or getenv ''CONTROL_PLANE_GRPC_ADDR'' '':50051'' in
           case nw_listen nw addr of
             Some e \<Rightarrow> Inl (Fatal (''failed to listen on '' @ addr @ '': '' @ e))
           | None \<Rightarrow>
               (let modelDir = env_or getenv ''MODEL_STORE_DIR'' (path_Join [''.'', ''data'', ''models'']);
                    s = RegisterServices modelDir NewServer;
                    interval = heartbeat_interval (getenv ''HEARTBEAT_INTERVAL_SECONDS'')
                in case NewTicker interval of
                     Some e \<Rightarrow> Inl (Panic e)
                   | None \<Rightarrow>
                       (case nw_serve nw of
                          Some e \<Rightarrow> Inl (Fatal (''gRPC server stopped: '' @ e))
                        | None \<Rightarrow> Inr \<lparr>cp_store = store, cp_server = s, cp_addr = addr, cp_interval = interval\<rparr>))))"

subsection \<open>The agent\<close>

text \<open>The agent registers before it listens.\<close>

definition agent_process ::
    "'w registry_client \<Rightarrow> Agent.host \<Rightarrow> network_io \<Rightarrow> string \<Rightarrow> string \<Rightarrow> string \<Rightarrow> 'w
      \<Rightarrow> (error + Agent \<times> grpc_server) \<times> 'w" where
  "agent_process c h nw controlPlaneAddress nodeName env w =
     (case agent_main c h controlPlaneAddress nodeName env w of
        (Inl e, w') \<Rightarrow> (Inl e, w')
      | (Inr a, w') \<Rightarrow>
          (case StartGRPCServer nw (if env = [] then '':50052'' else env) of
             (Some e, _) \<Rightarrow> (Inl (''Failed to start agent gRPC server: '' @ e), w')
           | (None, s) \<Rightarrow> (Inr (a, s), w')))"


subsection \<open>The client\<close>

record client =
  cl_target :: string
  cl_timeout :: time

definition resolveTimeout :: "string \<Rightarrow> Config \<Rightarrow> time" where
  "resolveTimeout flagTimeout cfg =
     (case (if flagTimeout \<noteq> [] then ParseDuration flagTimeout else None) of
        Some d \<Rightarrow> d
      | None \<Rightarrow> to_int64 (cf_TimeoutSeconds cfg * Second))"

definition dial_client :: "session \<Rightarrow> string \<Rightarrow> time \<Rightarrow> cli_error + client" where
  "dial_client g endpoint timeout =
     (case client_New g endpoint of Some e \<Rightarrow> Inl e | None \<Rightarrow> Inr \<lparr>cl_target = endpoint, cl_timeout = timeout\<rparr>)"

text \<open>The deadline of the context of a call that starts at \<open>now\<close>.\<close>

definition client_Context :: "time \<Rightarrow> client \<Rightarrow> time" where
  "client_Context now c = now + cl_timeout c"


subsection \<open>Which calls find a service\<close>

lemma control_plane_services:
  assumes "control_plane_main getenv x disk nw = Inr cp"
  shows "dom (cp_server cp) = {ModelRegistryAPI, NodeRegistryAPI, ModelTransferService, DiscoveryAPI}"
    and "0 < cp_interval cp"
  using assms
  by (auto simp: control_plane_main_def Let_def RegisterServices_def NewServer_def NewTicker_def
      split: sum.splits option.splits if_splits)

lemma agent_services:
  "StartGRPCServer nw addr = (None, s) \<Longrightarrow> dom s = {HeartbeatAPI, DeployAPI, InferAPI}"
  by (auto simp: StartGRPCServer_def NewServer_def split: option.splits if_splits)

text \<open>What the gRPC library does with a call of a service that the server does not know.\<close>

definition routed :: "grpc_server \<Rightarrow> service \<Rightarrow> ('q, 'r, 's) rpc \<Rightarrow> bool" where
  "routed server sv call \<longleftrightarrow>
     (server sv = None \<longrightarrow> (\<forall>q s. \<exists>m. call q s = (Inl (StatusErr Unimplemented m), s)))"

lemma with_reply_unimplemented:
  assumes "\<forall>q s. \<exists>m. call q s = (Inl (StatusErr Unimplemented m), s)"
  shows "snd (with_reply g call req k s) = s \<and> rn_end (fst (with_reply g call req k s)) \<noteq> Done"
  using assms [THEN spec, of req, THEN spec, of s]
  by (auto simp: with_reply_def fail_def exitOnErr_def split: option.split)

text \<open>
  Against a control plane as \<open>main\<close> sets it up, \<open>edgectl deploy\<close> and \<open>edgectl infer\<close> without a target
  never succeed, and the control plane does not notice: the services they call are not registered.
\<close>

theorem cluster_commands_unavailable:
  assumes "control_plane_main getenv x disk nw = Inr cp"
    and "routed (cp_server cp) DeployAPI deploy_call" and "routed (cp_server cp) InferAPI infer_call"
    and "ifl_target f = []"
  shows "snd (deployCmd g deploy_call d arg s) = s \<and> rn_end (fst (deployCmd g deploy_call d arg s)) \<noteq> Done \<and>
    snd (inferCmd g enc agent_call infer_call f s) = s \<and>
    rn_end (fst (inferCmd g enc agent_call infer_call f s)) \<noteq> Done"
proof -
  have "cp_server cp DeployAPI = None" "cp_server cp InferAPI = None"
    using control_plane_services(1) [OF assms(1)] by (auto simp: dom_def)
  then have d: "\<forall>q s. \<exists>m. deploy_call q s = (Inl (StatusErr Unimplemented m), s)"
    and i: "\<forall>q s. \<exists>m. infer_call q s = (Inl (StatusErr Unimplemented m), s)"
    using assms(2,3) by (simp_all add: routed_def)
  show ?thesis
    using with_reply_unimplemented [OF d] with_reply_unimplemented [OF i] assms(4)
    by (auto simp: deployCmd_def inferCmd_def fail_def Let_def split: sum.split)
qed

subsection \<open>Intervals and timeouts\<close>

lemma to_int64_id: "in_int64 i \<Longrightarrow> to_int64 i = i"
  by (simp add: to_int64_def in_int64_def)

lemma heartbeat_interval_value:
  assumes "0 < n" and "n \<le> 18446744073"
  shows "heartbeat_interval (Itoa n) = (if n \<le> 9223372036 then n * Second else n * Second - 2 ^ 64)"
proof -
  have "ParseInt (Itoa n) = Some n" using assms by (intro ParseInt_Itoa) (simp add: in_int64_def)
  moreover have "Itoa n \<noteq> []" by (simp add: Itoa_def)
  ultimately have i: "heartbeat_interval (Itoa n) = to_int64 (n * Second)"
    using assms(1) by (simp add: heartbeat_interval_def)
  show ?thesis
  proof (cases "n \<le> 9223372036")
    case True
    then show ?thesis using assms(1) by (simp add: i to_int64_id in_int64_def Second_def)
  next
    case False
    have "(n * Second + 2 ^ 63) mod 2 ^ 64 = (n * Second + 2 ^ 63 - 2 ^ 64) mod 2 ^ 64" by (rule minus_mod_self2 [symmetric])
    also have "\<dots> = n * Second + 2 ^ 63 - 2 ^ 64"
      using False assms(2) by (intro mod_pos_pos_trivial) (simp_all add: Second_def)
    finally show ?thesis using False by (simp add: i to_int64_def)
  qed
qed


definition demo_getenv :: "int \<Rightarrow> string \<Rightarrow> string" where
  "demo_getenv n name = (if name = ''HEARTBEAT_INTERVAL_SECONDS'' then Itoa n else [])"

definition demo_nw :: network_io where
  "demo_nw = \<lparr>nw_listen = (\<lambda>addr. None), nw_serve = None\<rparr>"


text \<open>The timeout of the client: a flag in seconds, or the configured one when there is none or it is no duration.\<close>

lemma resolveTimeout_seconds:
  "n \<le> 9223372036 \<Longrightarrow> resolveTimeout (Itoa (int n) @ ''s'') cfg = int n * Second"
  by (simp add: resolveTimeout_def ParseDuration_seconds)

lemma resolveTimeout_fallback:
  assumes "ParseDuration t = None" and "0 \<le> cf_TimeoutSeconds cfg" and "cf_TimeoutSeconds cfg \<le> 9223372036"
  shows "resolveTimeout t cfg = cf_TimeoutSeconds cfg * Second"
  using assms by (simp add: resolveTimeout_def to_int64_id in_int64_def Second_def)

lemma resolveTimeout_range: "in_int64 (resolveTimeout t cfg)"
proof -
  have "in_int64 (to_int64 i)" for i by (simp add: in_int64_def to_int64_def)
  then show ?thesis using ParseDuration_range by (auto simp: resolveTimeout_def split: option.split if_splits)
qed

text \<open>An agent whose server cannot start has registered all the same: the entry stays.\<close>

lemma agent_process_world:
  "snd (agent_process c h nw controlPlaneAddress nodeName env w) = snd (agent_main c h controlPlaneAddress nodeName env w)"
  by (simp add: agent_process_def split: prod.split sum.split option.split)

end
