(* ===== verification/Cluster.thy ===== *)
theory Cluster
  imports Agent_Network Services
begin

section \<open>The whole cluster\<close>

text \<open>
  The control plane, its agents and the client put together. The state is the store of the control
  plane and the network of agents. A heartbeat round calls \<open>srv_RequestHeartbeat\<close> of the agents
  that the registry lists, agents start and register themselves, run their monitors, get
  deployments and inference requests, and stop; clients call the services of the registry. Each
  of these is a step of \<open>cluster_step\<close>, built from the handlers of the components.

  The first part says what one round does on both sides. The second says what users get out of a
  cluster that was started from nothing: no inference request ever succeeds.
\<close>

subsection \<open>A heartbeat round over the network\<close>

definition node_addr :: "NodeInfo \<Rightarrow> string" where
  "node_addr node = n_IP node @ '':'' @ Itoa (n_Port node)"

definition beat :: "time \<Rightarrow> ServiceEndpoints list \<Rightarrow> string \<Rightarrow> Agent \<Rightarrow> RequestHeartbeatResponse reply \<times> Agent" where
  "beat now endpoints nodeID = srv_RequestHeartbeat now (Some \<lparr>hr_NodeID = nodeID, hr_ServiceEndpoints = endpoints\<rparr>)"

text \<open>
  The call as the control plane sees it, and what it leaves behind at the agent. Clocks of agents
  are read by address. \<open>t_text\<close> and \<open>t_unreachable\<close> of the transport say how a status and an
  address without an agent show up as errors.
\<close>

definition call_error :: "transport \<Rightarrow> string \<Rightarrow> error" where
  "call_error env addr = (case t_unreachable env addr of DialFailed e \<Rightarrow> e | CallFailed e \<Rightarrow> e | Answered r \<Rightarrow> [])"

definition net_rpc ::
    "transport \<Rightarrow> (string \<Rightarrow> time) \<Rightarrow> network \<Rightarrow> string \<Rightarrow> RequestHeartbeatRequest \<Rightarrow> RequestHeartbeatResponse result" where
  "net_rpc env clock net addr req =
     (case net addr of
        None \<Rightarrow> Inl (call_error env addr)
      | Some (a, rw) \<Rightarrow>
          (case fst (srv_RequestHeartbeat (clock addr) (Some req) a) of
             (_, Some st) \<Rightarrow> Inl (t_text env st)
           | (Some resp, None) \<Rightarrow> Inr resp
           | (None, None) \<Rightarrow> Inl []))"

definition deliver :: "(string \<Rightarrow> time) \<Rightarrow> ServiceEndpoints list \<Rightarrow> NodeInfo \<Rightarrow> network \<Rightarrow> network" where
  "deliver clock endpoints node net =
     net(node_addr node :=
       map_option (\<lambda>(a, rw). (snd (beat (clock (node_addr node)) endpoints (n_ID node) a), rw)) (net (node_addr node)))"

fun cluster_nodes ::
    "transport \<Rightarrow> (string \<Rightarrow> time) \<Rightarrow> hb_env \<Rightarrow> ServiceEndpoints list \<Rightarrow> NodeInfo list \<Rightarrow> Store \<times> network \<Rightarrow> Store \<times> network" where
  "cluster_nodes env clock hb endpoints [] st = st"
| "cluster_nodes env clock hb endpoints (node # nodes) (s, net) =
     cluster_nodes env clock hb endpoints nodes
       (heartbeat_node (hb\<lparr>hb_rpc := net_rpc env clock net\<rparr>) endpoints node s, deliver clock endpoints node net)"

definition cluster_round ::
    "transport \<Rightarrow> (string \<Rightarrow> time) \<Rightarrow> hb_env \<Rightarrow> Store \<times> network \<Rightarrow> error option \<times> Store \<times> network" where
  "cluster_round env clock hb st =
     (let (s, net) = st; endpoints = round_endpoints hb s in
      case ListNodesByStatuses (hb_ord_nodes hb) [StatusOnline, StatusUnknown] s of
        Inl e \<Rightarrow> (Some e, st)
      | Inr nodes \<Rightarrow> (None, cluster_nodes env clock hb endpoints nodes st))"

text \<open>What an agent answers does not depend on the heartbeats it got before.\<close>

definition beat_reply :: "Agent \<Rightarrow> RequestHeartbeatResponse" where
  "beat_reply a =
     \<lparr>hp_NodeID = ag_ID a, hp_ModelReplicas = map ModelReplicaToProto (ag_AssignedModels a),
      hp_Success = (\<forall>m \<in> set (ag_AssignedModels a). ar_Status m = ModelReplicaStatusRunning)\<rparr>"

lemma beat_eq:
  "beat now eps i a =
     (ok_reply (beat_reply a),
      if eps \<noteq> [] then UpdateEndpoints eps (UpdateLastHeartbeat now a) else UpdateLastHeartbeat now a)"
  by (simp add: beat_def srv_RequestHeartbeat_def CheckHealth_def beat_reply_def UpdateEndpoints_def UpdateLastHeartbeat_def Let_def)

lemma beat_keeps [simp]:
  "ag_ID (snd (beat now eps i a)) = ag_ID a" "ag_AssignedModels (snd (beat now eps i a)) = ag_AssignedModels a"
  "ag_LastHeartbeat (snd (beat now eps i a)) = now" "ag_lb (snd (beat now eps i a)) = ag_lb a"
  "beat_reply (snd (beat now eps i a)) = beat_reply a"
  by (simp_all add: beat_eq UpdateEndpoints_def UpdateLastHeartbeat_def beat_reply_def)

lemma beat_again: "snd (beat now eps j (snd (beat now eps i a))) = snd (beat now eps i a)"
  by (simp add: beat_eq UpdateEndpoints_def UpdateLastHeartbeat_def)

lemma net_rpc_eq:
  "net_rpc env clock net addr req =
     (case net addr of None \<Rightarrow> Inl (call_error env addr) | Some (a, rw) \<Rightarrow> Inr (beat_reply a))"
  using beat_eq [of "clock addr" "hr_ServiceEndpoints req" "hr_NodeID req"]
  by (cases req) (auto simp: net_rpc_def beat_def split: option.split)

lemma net_rpc_deliver [simp]: "net_rpc env clock (deliver clock eps n net) = net_rpc env clock net"
  by (auto simp: fun_eq_iff net_rpc_eq deliver_def split: option.split)

text \<open>So a round is the round of the heartbeat controller against the network as it is at the start.\<close>

fun deliver_all :: "(string \<Rightarrow> time) \<Rightarrow> ServiceEndpoints list \<Rightarrow> NodeInfo list \<Rightarrow> network \<Rightarrow> network" where
  "deliver_all clock eps [] net = net"
| "deliver_all clock eps (n # ns) net = deliver_all clock eps ns (deliver clock eps n net)"

lemma cluster_nodes_split:
  "cluster_nodes env clock hb eps ns (s, net) =
     (heartbeat_nodes (hb\<lparr>hb_rpc := net_rpc env clock net\<rparr>) eps ns s, deliver_all clock eps ns net)"
  by (induction ns arbitrary: s net) simp_all

lemma deliver_all_at:
  "deliver_all clock eps ns net addr =
     (if \<exists>n \<in> set ns. node_addr n = addr
      then map_option (\<lambda>(a, rw). (snd (beat (clock addr) eps [] a), rw)) (net addr) else net addr)"
proof (induction ns arbitrary: net)
  case (Cons n ns)
  have any: "snd (beat now eps i a) = snd (beat now eps [] a)" for now i a by (simp add: beat_eq)
  show ?case
  proof (cases "net addr")
    case None
    then show ?thesis by (auto simp: Cons deliver_def)
  next
    case (Some ar)
    then show ?thesis using any beat_again [of "clock addr" eps "[]" "[]"]
      by (cases ar) (auto simp: Cons deliver_def any [of _ "n_ID n"])
  qed
qed simp

lemma find_map: "List.find P (map f xs) = map_option f (List.find (P o f) xs)"
  by (induction xs) simp_all

lemma round_env_ok: "env_ok hb \<Longrightarrow> env_ok (hb\<lparr>hb_rpc := net_rpc env clock net\<rparr>)"
  by (auto simp: env_ok_def net_rpc_eq beat_reply_def list_all_iff ModelReplicaToProto_def to_int32_range split: option.splits)

lemma cluster_round_split:
  "cluster_round env clock hb (s, net) =
     (case HandleHeartbeat (hb\<lparr>hb_rpc := net_rpc env clock net\<rparr>) s of
        (e, s') \<Rightarrow> (e, s', case ListNodesByStatuses (hb_ord_nodes hb) [StatusOnline, StatusUnknown] s of
          Inl _ \<Rightarrow> net | Inr nodes \<Rightarrow> deliver_all clock (round_endpoints hb s) nodes net))"
  by (simp add: cluster_round_def HandleHeartbeat_def round_endpoints_def cluster_nodes_split split: sum.split)

lemma cluster_round_runs:
  assumes "cluster_inv s" "env_ok hb" "cluster_round env clock hb (s, net) = (e, s', net')"
  obtains ns where "e = None" "s' = heartbeat_nodes (hb\<lparr>hb_rpc := net_rpc env clock net\<rparr>) (round_endpoints hb s) ns s"
    "net' = deliver_all clock (round_endpoints hb s) ns net" "listed s ns" "\<And>n. n \<in> set ns \<longleftrightarrow> contacted s n"
proof -
  have o: "is_order (hb_ord_nodes hb)" using assms(2) by (simp add: env_ok_def)
  obtain ns where l: "ListNodesByStatuses (hb_ord_nodes hb) [StatusOnline, StatusUnknown] s = Inr ns"
    "distinct (map n_ID ns)"
    "\<And>n. n \<in> set ns \<longleftrightarrow> node_at s (n_ID n) = Some n \<and> n_Status n \<in> set [StatusOnline, StatusUnknown]"
    by (rule ListNodesByStatuses_total [OF cluster_invD(2,4) [OF assms(1)] o]) blast
  then have "listed s ns" "\<And>n. n \<in> set ns \<longleftrightarrow> contacted s n" by (auto simp: listed_def contacted_def)
  with assms(3) l(1) show thesis by (intro that) (simp_all add: cluster_round_def cluster_nodes_split)
qed

lemma listed_find:
  assumes "listed s ns" "n \<in> set ns"
  shows "List.find (\<lambda>m. n_ID m = n_ID n) ns = Some n"
proof (cases "List.find (\<lambda>m. n_ID m = n_ID n) ns")
  case None
  then show ?thesis using assms(2) by (auto simp: find_None_iff)
next
  case (Some m)
  then have "m \<in> set ns" "n_ID m = n_ID n" using find_Some_in [OF Some] by simp_all
  then have "node_at s (n_ID n) = Some m" using assms(1) unfolding listed_def by metis
  moreover have "node_at s (n_ID n) = Some n" using assms unfolding listed_def by blast
  ultimately show ?thesis using Some by simp
qed

lemma beat_table:
  assumes "cluster_inv s" "env_ok hb"
  shows "if \<exists>k. served s k \<noteq> {} then \<forall>k. set (GetEndpoints k (snd (beat now (round_endpoints hb s) i a))) = served s k
    else \<forall>k. GetEndpoints k (snd (beat now (round_endpoints hb s) i a)) = GetEndpoints k a"
proof -
  have "is_order (hb_ord_build hb)" "is_order (hb_ord_models hb)" using assms(2) by (simp_all add: env_ok_def)
  note t = heartbeat_table [OF assms(1) this beat_eq [of now "round_endpoints hb s" i a, unfolded beat_def round_endpoints_def]]
  show ?thesis using t(1,2) by (simp add: beat_eq round_endpoints_def)
qed

lemma reported_beat:
  "reported (beat_reply a) k = map_option ModelReplicaToProto (List.find (\<lambda>m. ar_ID m = k) (ag_AssignedModels a))"
  by (simp add: reported_def beat_reply_def find_map ModelReplicaToProto_def o_def)



subsection \<open>Steps\<close>

type_synonym cluster = "Store \<times> network"

text \<open>
  The registry calls of an agent, one at a time: the connection may fail, a call may fail in the
  control plane, or take effect there and its reply get lost.
\<close>

record link =
  ln_dial :: "error option"
  ln_lost :: bool
  ln_io :: io
  ln_now :: time
  ln_uuid :: string

definition over_link :: "link \<Rightarrow> 'r reply \<times> Store \<Rightarrow> 'r reply \<times> Store" where
  "over_link l r = (if ln_lost l then ((None, Some (Unavailable, ''transport is closing'')), snd r) else r)"

definition plane_client :: "transport \<Rightarrow> link \<Rightarrow> link \<Rightarrow> Store registry_client" where
  "plane_client env l1 l2 =
     \<lparr>rc_dial = (\<lambda>addr. ln_dial l1),
      rc_register = (\<lambda>p s. over_link l1 (srv_RegisterNode (ln_io l1) (ln_now l1) (ln_uuid l1) (Some p) s)),
      rc_deregister = (\<lambda>i s. over_link l2 (srv_DeRegisterNode (ln_io l2) (Some i) s)),
      rc_text = t_text env\<rparr>"

definition link_ok :: "link \<Rightarrow> bool" where
  "link_ok l \<longleftrightarrow> in_int64 (ln_now l) \<and> ln_uuid l \<noteq> []"

text \<open>The figures that a host reports fit the fields of the registration.\<close>

definition host_ok :: "Agent.host \<Rightarrow> string \<Rightarrow> bool" where
  "host_ok h name \<longleftrightarrow> (case GetAgentInfo h name of Inl e \<Rightarrow> True | Inr a \<Rightarrow> wf_ProtoNodeInfo (agentToNodeInfoProto a))"

text \<open>\<open>cluster_step env\<close> holds for a transport \<open>env\<close> that stays the same for the life of the cluster.\<close>

inductive cluster_step :: "transport \<Rightarrow> cluster \<Rightarrow> cluster \<Rightarrow> bool" for env where
  client_call: "cp_step s s' \<Longrightarrow> cluster_step env (s, net) (s', net)"
| start: "host_ok h name \<Longrightarrow> link_ok l1 \<Longrightarrow> agent_main (plane_client env l1 l2) h cp name listen s = (Inr a, s') \<Longrightarrow>
    cluster_step env (s, net) (s', net(addr \<mapsto> (a, new_runway)))"
| start_fails: "host_ok h name \<Longrightarrow> link_ok l1 \<Longrightarrow> agent_main (plane_client env l1 l2) h cp name listen s = (Inl e, s') \<Longrightarrow>
    cluster_step env (s, net) (s', net)"
| stop: "cluster_step env (s, net) (s, net(addr := None))"
| tick: "net addr = Some (a, rw) \<Longrightarrow> link_ok l1 \<Longrightarrow>
    monitor_tick (RegisterWithControlPlane (plane_client env l1 l2)) (DeregisterWithControlPlane (plane_client env l1 l2))
      cp now now' (a, s) = (a', s') \<Longrightarrow>
    cluster_step env (s, net) (s', net(addr \<mapsto> (a', rw)))"
| deploy: "net addr = Some (a, rw) \<Longrightarrow> srv_DeployModel uuid req a = (reply, a') \<Longrightarrow>
    cluster_step env (s, net) (s, net(addr \<mapsto> (a', rw)))"
| infer: "infer_call n env addr r net = (answer, net') \<Longrightarrow> cluster_step env (s, net) (s, net')"
| round: "env_ok hb \<Longrightarrow> cluster_round env clock hb st = (err, st') \<Longrightarrow> cluster_step env st st'"

inductive_cases cluster_stepE: "cluster_step env (s, net) st"

text \<open>An agent to which nothing has happened that would let it serve a request.\<close>

definition dormant :: "Agent \<times> runway \<Rightarrow> bool" where
  "dormant ar \<longleftrightarrow> (case ar of (a, rw) \<Rightarrow> workerRegistry rw = Map.empty \<and> ag_endpointCache a = Map.empty \<and>
     (\<forall>m \<in> set (ag_AssignedModels a). ar_Status m = ModelReplicaStatusPending) \<and>
     wf_ProtoNodeInfo (agentToNodeInfoProto a))"

definition cluster_idle :: "cluster \<Rightarrow> bool" where
  "cluster_idle st \<longleftrightarrow> cp_inv {[]} (fst st) \<and> (\<forall>ar \<in> ran (snd st). dormant ar)"

lemma agent_proto_models:
  "agentToNodeInfoProto (a\<lparr>ag_AssignedModels := ms\<rparr>) = agentToNodeInfoProto a"
  by (simp add: agentToNodeInfoProto_def Let_def)

lemma idle_put: "\<forall>ar \<in> ran net. dormant ar \<Longrightarrow> dormant ar' \<Longrightarrow> \<forall>ar \<in> ran (net(addr \<mapsto> ar')). dormant ar"
  by (auto simp: ran_def)

lemma register_over_link:
  assumes "RegisterWithControlPlane (plane_client env l1 l2) cp (a, s) = (e, a', s')" "cp_inv {[]} s" "link_ok l1"
    and "wf_ProtoNodeInfo (agentToNodeInfoProto a)"
  shows "cp_inv {[]} s'" "\<exists>i. a' = a\<lparr>ag_ID := i\<rparr>"
proof -
  obtain rep t where r: "srv_RegisterNode (ln_io l1) (ln_now l1) (ln_uuid l1) (Some (agentToNodeInfoProto a)) s = (rep, t)"
    by fastforce
  have "cp_inv {[]} t"
    using assms(2-4) by (intro cp_inv_register_node [OF assms(2) _ _ _ _ r]) (simp_all add: link_ok_def)
  moreover have "(s' = s \<or> s' = t) \<and> (\<exists>i. a' = a\<lparr>ag_ID := i\<rparr>)"
    using assms(1) r
    by (auto simp: RegisterWithControlPlane_def plane_client_def over_link_def split: option.splits prod.splits if_splits
        intro: exI [of _ "ag_ID a"])
  ultimately show "cp_inv {[]} s'" "\<exists>i. a' = a\<lparr>ag_ID := i\<rparr>" using assms(2) by auto
qed

lemma deregister_over_link:
  assumes "cp_inv {[]} s"
  shows "cp_inv {[]} (snd (DeregisterWithControlPlane (plane_client env l1 l2) cp i s))"
proof -
  obtain rep t where r: "srv_DeRegisterNode (ln_io l2) (Some i) s = (rep, t)" by fastforce
  have "cp_inv {[]} t" by (rule cp_inv_deregister_node [OF assms r])
  with assms r show ?thesis
    by (auto simp: DeregisterWithControlPlane_def plane_client_def over_link_def split: option.splits prod.splits)
qed

lemma agent_proto_port:
  "agentToNodeInfoProto (a\<lparr>ag_Port := p\<rparr>) = (agentToNodeInfoProto a)\<lparr>pn_Port := to_int32 p\<rparr>"
  by (simp add: agentToNodeInfoProto_def Let_def)

lemma agent_main_idle:
  assumes "agent_main (plane_client env l1 l2) h cp name listen s = (x, s')" "cp_inv {[]} s" "host_ok h name" "link_ok l1"
  shows "cp_inv {[]} s'" "x = Inr a \<Longrightarrow> dormant (a, new_runway)"
proof -
  have "cp_inv {[]} s' \<and> (\<forall>a. x = Inr a \<longrightarrow> dormant (a, new_runway))"
  proof (cases "GetAgentInfo h name")
    case (Inr b)
    define c where "c = (if 0 < portFromAddr (if listen = [] then '':50052'' else listen)
      then b\<lparr>ag_Port := portFromAddr (if listen = [] then '':50052'' else listen)\<rparr> else b)"
    have b: "ag_endpointCache b = Map.empty" "ag_AssignedModels b = []"
      using Inr by (auto simp: GetAgentInfo_def split: sum.splits prod.splits list.splits if_splits)
    have "wf_ProtoNodeInfo (agentToNodeInfoProto b)" using assms(3) Inr by (simp add: host_ok_def)
    then have wf: "wf_ProtoNodeInfo (agentToNodeInfoProto c)"
      by (simp add: c_def wf_ProtoNodeInfo_def agent_proto_port to_int32_range)
    obtain e d t where r: "RegisterWithControlPlane (plane_client env l1 l2) cp (c, s) = (e, d, t)"
      by (cases "RegisterWithControlPlane (plane_client env l1 l2) cp (c, s)")
    from register_over_link [OF r assms(2,4) wf] obtain i where "cp_inv {[]} t" "d = c\<lparr>ag_ID := i\<rparr>" by blast
    moreover have "dormant (c, new_runway)" using b wf by (simp add: dormant_def new_runway_def c_def)
    ultimately have "cp_inv {[]} t" "dormant (d, new_runway)"
      by (auto simp: agent_proto_same dormant_def)
    with assms(1) Inr r show ?thesis
      by (auto simp: agent_main_def Let_def c_def [symmetric] split: option.splits)
  qed (use assms(1,2) in \<open>auto simp: agent_main_def\<close>)
  then show "cp_inv {[]} s'" "x = Inr a \<Longrightarrow> dormant (a, new_runway)" by blast+
qed

lemma monitor_tick_idle:
  assumes "monitor_tick (RegisterWithControlPlane (plane_client env l1 l2)) (DeregisterWithControlPlane (plane_client env l1 l2))
      cp now now' (a, s) = (a', s')"
    and "cp_inv {[]} s" "link_ok l1" "dormant (a, rw)"
  shows "cp_inv {[]} s'" "dormant (a', rw)"
proof -
  have "cp_inv {[]} s' \<and> dormant (a', rw)"
  proof (cases "IsHeartbeatStale now (60 * Second) a")
    case True
    define s1 where "s1 = (if ag_ID a \<noteq> [] then snd (DeregisterWithControlPlane (plane_client env l1 l2) cp (ag_ID a) s) else s)"
    have s1: "cp_inv {[]} s1" using assms(2) deregister_over_link [OF assms(2)] by (simp add: s1_def)
    obtain e b t where r: "RegisterWithControlPlane (plane_client env l1 l2) cp (a, s1) = (e, b, t)"
      by (cases "RegisterWithControlPlane (plane_client env l1 l2) cp (a, s1)")
    have wf: "wf_ProtoNodeInfo (agentToNodeInfoProto a)" using assms(4) by (simp add: dormant_def)
    from register_over_link [OF r s1 assms(3) wf] obtain i where i: "cp_inv {[]} t" "b = a\<lparr>ag_ID := i\<rparr>" by blast
    have "s' = t" "a' = b \<or> a' = UpdateLastHeartbeat now' b"
      using assms(1) True r by (auto simp: monitor_tick_def s1_def [symmetric] Let_def split: option.splits)
    moreover have "dormant (UpdateLastHeartbeat now' b, rw) = dormant (b, rw)"
      unfolding dormant_def prod.case agent_proto_same(2) by (simp add: UpdateLastHeartbeat_def)
    ultimately show ?thesis using i assms(4) by (auto simp: dormant_def agent_proto_same(1))
  qed (use assms in \<open>simp add: monitor_tick_def\<close>)
  then show "cp_inv {[]} s'" "dormant (a', rw)" by blast+
qed

text \<open>What an inference request gets from a dormant agent.\<close>

definition refusal :: "Agent \<Rightarrow> string \<Rightarrow> bool \<Rightarrow> error" where
  "refusal a modelID isForwarded =
     (case List.find (\<lambda>m. ar_ModelID m = modelID) (ag_AssignedModels a) of
        Some m \<Rightarrow> ''local inference failed: model replica '' @ ar_ID m @ '' is not currently loaded''
      | None \<Rightarrow>
          if isForwarded
          then ''model '' @ modelID @ '' not available on this node and request was already forwarded''
          else ''no healthy peers known for model '' @ modelID)"

lemma dormant_infer:
  assumes "dormant (a, rw)" "iq_ModelId r \<noteq> []"
  shows "srv_Infer peer wait (Some r) (a, rw, w) =
    Some (ok_reply \<lparr>ir_Success = False, ir_Prediction = Fin 0, ir_ErrorMessage = refusal a (iq_ModelId r) (iq_IsForwarded r)\<rparr>, a, rw, w)"
  using assms
  by (auto simp: srv_Infer_def HandleInfer_def refusal_def dormant_def ModelInference_unloaded GetEndpoints_def
      split: option.split)

definition refused :: "transport \<Rightarrow> network \<Rightarrow> string \<Rightarrow> InferRequest \<Rightarrow> peer_reply" where
  "refused env net addr r =
     (case net addr of
        None \<Rightarrow> t_unreachable env addr
      | Some (a, rw) \<Rightarrow>
          if iq_ModelId r = [] then CallFailed (t_text env (InvalidArgument, ''model_id cannot be empty''))
          else Answered \<lparr>ir_Success = False, ir_Prediction = Fin 0, ir_ErrorMessage = refusal a (iq_ModelId r) (iq_IsForwarded r)\<rparr>)"

lemma idle_infer_call:
  assumes "\<forall>ar \<in> ran net. dormant ar"
  shows "infer_call (Suc n) env addr r net = (refused env net addr r, net)"
proof (cases "net addr")
  case (Some ar)
  obtain a rw where ar: "ar = (a, rw)" by (cases ar)
  have d: "dormant (a, rw)" using assms Some ar by (auto intro: ranI)
  show ?thesis
  proof (cases "iq_ModelId r = []")
    case True
    then show ?thesis using Some ar
      by (simp add: refused_def srv_Infer_def infer_received_def fun_upd_idem)
  next
    case False
    with Some ar show ?thesis
      by (simp add: refused_def dormant_infer [OF d False] infer_received_def fun_upd_idem)
  qed
qed (simp add: refused_def)

lemma idle_round:
  assumes "cp_inv {[]} s" "env_ok hb"
  shows "cluster_round env clock hb (s, net) = (None, s, net)"
proof -
  from assms(1) have c: "cluster_inv s" "idle s" by (simp_all add: cp_inv_def)
  obtain e s' net' where r: "cluster_round env clock hb (s, net) = (e, s', net')"
    by (cases "cluster_round env clock hb (s, net)")
  obtain ns where ns: "e = None" "s' = heartbeat_nodes (hb\<lparr>hb_rpc := net_rpc env clock net\<rparr>) (round_endpoints hb s) ns s"
    "net' = deliver_all clock (round_endpoints hb s) ns net" "\<And>n. n \<in> set ns \<longleftrightarrow> contacted s n"
    by (rule cluster_round_runs [OF c(1) assms(2) r]) blast
  have "\<not> contacted s n" for n by (rule not_contacted [OF c(2)]) (simp add: Status_defs)
  then have "ns = []" using ns(4) by (cases ns) auto
  with r ns(1-3) show ?thesis by simp
qed

lemma cluster_idle_step:
  assumes "cluster_step env (s, net) st" "cluster_idle (s, net)"
  shows "cluster_idle st"
proof -
  from assms(2) have c: "cp_inv {[]} s" and d: "\<forall>ar \<in> ran net. dormant ar" by (simp_all add: cluster_idle_def)
  have at: "dormant (a, rw)" if "net addr = Some (a, rw)" for addr a rw using d that by (auto intro: ranI)
  from assms(1) show ?thesis
  proof (rule cluster_stepE)
    fix s' assume "st = (s', net)" "cp_step s s'"
    with cp_step_inv [OF _ closed_sets(1) c] d show ?thesis by (simp add: cluster_idle_def)
  next
    fix h name l1 l2 cp listen a s' addr
    assume *: "st = (s', net(addr \<mapsto> (a, new_runway)))" "host_ok h name" "link_ok l1"
      "agent_main (plane_client env l1 l2) h cp name listen s = (Inr a, s')"
    from agent_main_idle [OF *(4) c *(2,3)] idle_put [OF d] *(1) show ?thesis by (simp add: cluster_idle_def)
  next
    fix h name l1 l2 cp listen e s'
    assume *: "st = (s', net)" "host_ok h name" "link_ok l1"
      "agent_main (plane_client env l1 l2) h cp name listen s = (Inl e, s')"
    from agent_main_idle(1) [OF *(4) c *(2,3)] d *(1) show ?thesis by (simp add: cluster_idle_def)
  next
    fix addr assume "st = (s, net(addr := None))"
    with c d show ?thesis by (auto simp: cluster_idle_def ran_def split: if_splits)
  next
    fix addr a rw l1 l2 cp now now' a' s'
    assume *: "st = (s', net(addr \<mapsto> (a', rw)))" "net addr = Some (a, rw)" "link_ok l1"
      "monitor_tick (RegisterWithControlPlane (plane_client env l1 l2)) (DeregisterWithControlPlane (plane_client env l1 l2))
        cp now now' (a, s) = (a', s')"
    from monitor_tick_idle [OF *(4) c *(3) at [OF *(2)]] idle_put [OF d] *(1) show ?thesis by (simp add: cluster_idle_def)
  next
    fix addr a rw uuid req reply a'
    assume *: "st = (s, net(addr \<mapsto> (a', rw)))" "net addr = Some (a, rw)" "srv_DeployModel uuid req a = (reply, a')"
    have "dormant (a', rw)" using at [OF *(2)] *(3)
      by (auto simp: dormant_def srv_DeployModel_def AssignModel_def Let_def agent_proto_models split: option.splits if_splits)
    with idle_put [OF d] *(1) c show ?thesis by (simp add: cluster_idle_def)
  next
    fix n addr r answer net' assume *: "st = (s, net')" "infer_call n env addr r net = (answer, net')"
    have "net' = net" using *(2) idle_infer_call [OF d] by (cases n) simp_all
    with *(1) assms(2) show ?thesis by simp
  next
    fix hb clock err assume "env_ok hb" "cluster_round env clock hb (s, net) = (err, st)"
    with idle_round [OF c] assms(2) show ?thesis by simp
  qed
qed

lemma cluster_reachable_idle:
  "(cluster_step env)\<^sup>*\<^sup>* (empty_store, Map.empty) st \<Longrightarrow> cluster_idle st"
proof (induction rule: rtranclp_induct)
  case base
  show ?case by (simp add: cluster_idle_def cp_inv_empty)
next
  case (step st st')
  then show ?case using cluster_idle_step [of env "fst st" "snd st" st'] by simp
qed


subsection \<open>What a user gets\<close>

text \<open>The call of an agent's service by the client, and the command against the cluster.\<close>

definition agent_rpc :: "transport \<Rightarrow> string \<Rightarrow> (InferRequest, InferResponse, cluster) rpc" where
  "agent_rpc env target q st =
     (case infer_call 2 env target q (snd st) of
        (Answered r, net') \<Rightarrow> (Inr r, (fst st, net'))
      | (CallFailed e, net') \<Rightarrow> (Inl (PlainErr e), (fst st, net'))
      | (DialFailed e, net') \<Rightarrow> (Inl (PlainErr e), (fst st, net')))"

lemma agent_rpc_idle:
  assumes "\<forall>ar \<in> ran net. dormant ar"
  shows "agent_rpc env t q (s, net) =
      ((case refused env net t q of Answered r \<Rightarrow> Inr r | CallFailed e \<Rightarrow> Inl (PlainErr e) | DialFailed e \<Rightarrow> Inl (PlainErr e)), (s, net))"
  using idle_infer_call [OF assms, of 1 env t q]
  by (simp add: agent_rpc_def numeral_2_eq_2 del: infer_call.simps split: peer_reply.split)

text \<open>How a run of \<open>edgectl infer\<close> ends that was refused.\<close>

definition infer_refused :: "session \<Rightarrow> InferResponse encoders \<Rightarrow> infer_flags \<Rightarrow> network \<Rightarrow> run \<Rightarrow> bool" where
  "infer_refused g enc f net run \<longleftrightarrow> rn_end run \<noteq> Done \<or>
     (\<exists>a rw. net (ifl_target f) = Some (a, rw) \<and>
        run = show_infer g enc \<lparr>ir_Success = False, ir_Prediction = Fin 0, ir_ErrorMessage = refusal a (ifl_modelID f) False\<rparr>)"

lemma infer_direct:
  assumes "\<forall>ar \<in> ran net. dormant ar" "\<forall>addr resp. t_unreachable env addr \<noteq> Answered resp"
    and "iq_ModelId q = ifl_modelID f" "\<not> iq_IsForwarded q"
  shows "\<exists>run. with_reply g (agent_rpc env (ifl_target f)) q (show_infer g enc) (s, net) = (run, (s, net)) \<and>
    infer_refused g enc f net run"
proof (cases "refused env net (ifl_target f) q")
  case (Answered resp)
  then obtain a rw where "net (ifl_target f) = Some (a, rw)"
    "resp = \<lparr>ir_Success = False, ir_Prediction = Fin 0, ir_ErrorMessage = refusal a (ifl_modelID f) False\<rparr>"
    using assms(2-4) by (auto simp: refused_def split: option.splits if_splits)
  with Answered show ?thesis
    by (auto simp: with_reply_def agent_rpc_idle [OF assms(1)] fail_def infer_refused_def split: option.split)
qed (auto simp: with_reply_def agent_rpc_idle [OF assms(1)] fail_def exitOnErr_def infer_refused_def split: option.split)

lemma infer_command_refused:
  assumes "\<forall>ar \<in> ran net. dormant ar" "\<forall>addr resp. t_unreachable env addr \<noteq> Answered resp"
    and "\<forall>q st. \<exists>m. plane_infer q st = (Inl (StatusErr Unimplemented m), st)"
  shows "\<exists>run. inferCmd g enc (agent_rpc env) plane_infer f (s, net) = (run, (s, net)) \<and> infer_refused g enc f net run"
proof (cases "parseFloatList (ifl_input f)")
  case (Inl e)
  then show ?thesis by (simp add: inferCmd_def fail_def infer_refused_def)
next
  case (Inr d)
  let ?q = "\<lparr>iq_ModelId = ifl_modelID f, iq_InputData = d, iq_ScalingEnabled = ifl_scaling f, iq_IsForwarded = False\<rparr>"
  obtain run st where w: "with_reply g plane_infer ?q (show_infer g enc) (s, net) = (run, st)"
    by (cases "with_reply g plane_infer ?q (show_infer g enc) (s, net)")
  with with_reply_unimplemented [OF assms(3), of g ?q "show_infer g enc" "(s, net)"]
  have p: "st = (s, net)" "infer_refused g enc f net run" by (simp_all add: infer_refused_def)
  show ?thesis
  proof (cases "ifl_target f = []")
    case True
    with Inr w p show ?thesis by (simp add: inferCmd_def)
  next
    case False
    with Inr infer_direct [OF assms(1,2), of ?q f g enc s] show ?thesis
      by (auto simp: inferCmd_def fail_def infer_refused_def split: option.split)
  qed
qed

text \<open>
  C11. The cluster never serves. Start a control plane with an empty store and no agents, and let
  anything happen: agents start, register, re-register and stop, models are registered and
  deployed, rounds go by, calls fail or their replies get lost. In every state that is reached
  a heartbeat round calls no agent and changes nothing; an inference request to an agent for a
  model is refused, and changes nothing; and \<open>edgectl infer\<close>, with or without a target, ends in
  an error or shows the refusal of the agent.
\<close>

theorem cluster_never_serves:
  assumes "(cluster_step env)\<^sup>*\<^sup>* (empty_store, Map.empty) (s, net)" and "env_ok hb"
    and "\<forall>addr resp. t_unreachable env addr \<noteq> Answered resp"
    and "routed (RegisterServices modelDir NewServer) InferAPI plane_infer"
  shows "cluster_round env clock hb (s, net) = (None, s, net) \<and>
    infer_call (Suc n) env addr r net = (refused env net addr r, net) \<and>
    (\<exists>run. inferCmd g enc (agent_rpc env) plane_infer f (s, net) = (run, (s, net)) \<and> infer_refused g enc f net run)"
proof -
  from cluster_reachable_idle [OF assms(1)] have c: "cp_inv {[]} s" and d: "\<forall>ar \<in> ran net. dormant ar"
    by (simp_all add: cluster_idle_def)
  have "\<forall>q st. \<exists>m. plane_infer q st = (Inl (StatusErr Unimplemented m), st)"
    using assms(4) by (simp add: routed_def RegisterServices_def NewServer_def)
  with infer_command_refused [OF d assms(3)] idle_round [OF c assms(2)] idle_infer_call [OF d]
  show ?thesis by blast
qed


subsection \<open>Examples\<close>


text \<open>A cluster with one agent that registered and has a model deployed.\<close>

definition demo_link :: link where
  "demo_link = \<lparr>ln_dial = None, ln_lost = False, ln_io = io_ok, ln_now = 5, ln_uuid = ''u7''\<rparr>"

definition demo_started :: Store where
  "demo_started = snd (srv_RegisterNode io_ok 5 ''u7'' (Some (agentToNodeInfoProto demo_agent)) empty_store)"

definition demo_cluster :: cluster where
  "demo_cluster = (demo_started, [''10.0.0.7:50052'' \<mapsto> (snd (srv_DeployModel ''u1'' (Some demo_deploy) (demo_agent\<lparr>ag_ID := ''u7''\<rparr>)), new_runway)])"

lemma demo_main:
  "agent_main (plane_client demo_transport demo_link demo_link) demo_host '':50051'' [] [] empty_store =
     (Inr (demo_agent\<lparr>ag_ID := ''u7''\<rparr>), demo_started)"
proof -
  have p: "portFromAddr '':50052'' = 50052"
    using portFromAddr_spec [of "[]" 50052] by (simp add: Itoa_def dec_nat.simps digit_char_def char_of_def bit_0)
  have same: "demo_agent\<lparr>ag_Port := 50052\<rparr> = demo_agent" by (simp add: demo_agent_def GetAgentInfo_def demo_host_def)
  have c: "cluster_inv empty_store" "in_int64 5" using cp_inv_empty by (simp_all add: cp_inv_def in_int64_def)
  obtain s' where "srv_RegisterNode io_ok 5 ''u7'' (Some (agentToNodeInfoProto demo_agent)) empty_store = (ok_reply ''u7'', s')"
    by (rule srv_RegisterNode_ok [OF c _ demo_agent_wf, of "''u7''"]) simp_all
  then show ?thesis
    by (simp add: agent_main_def demo_agent p same RegisterWithControlPlane_def plane_client_def over_link_def demo_link_def demo_started_def)
qed

lemma demo_cluster_reachable: "(cluster_step demo_transport)\<^sup>*\<^sup>* (empty_store, Map.empty) demo_cluster"
proof -
  let ?a = "demo_agent\<lparr>ag_ID := ''u7''\<rparr>"
  have "cluster_step demo_transport (empty_store, Map.empty) (demo_started, Map.empty(''10.0.0.7:50052'' \<mapsto> (?a, new_runway)))"
    by (rule cluster_step.start [OF _ _ demo_main])
      (simp_all add: host_ok_def demo_agent demo_agent_wf link_ok_def demo_link_def in_int64_def)
  moreover have "cluster_step demo_transport (demo_started, Map.empty(''10.0.0.7:50052'' \<mapsto> (?a, new_runway)))
      (demo_started, (Map.empty(''10.0.0.7:50052'' \<mapsto> (?a, new_runway)))(''10.0.0.7:50052'' \<mapsto>
        (snd (srv_DeployModel ''u1'' (Some demo_deploy) ?a), new_runway)))"
    by (rule cluster_step.deploy [where uuid = "''u1''" and req = "Some demo_deploy"]) (auto simp: prod_eq_iff)
  ultimately show ?thesis unfolding demo_cluster_def by simp
qed

theorem cluster_never_serves_witness:
  "infer_call 1 demo_transport ''10.0.0.7:50052'' (demo_infer ''m1'') (snd demo_cluster) =
     (Answered \<lparr>ir_Success = False, ir_Prediction = Fin 0,
        ir_ErrorMessage = ''local inference failed: model replica u1 is not currently loaded''\<rparr>, snd demo_cluster)"
proof -
  let ?a = "snd (srv_DeployModel ''u1'' (Some demo_deploy) (demo_agent\<lparr>ag_ID := ''u7''\<rparr>))"
  have dc: "(cluster_step demo_transport)\<^sup>*\<^sup>* (empty_store, Map.empty) (demo_started, snd demo_cluster)"
    using demo_cluster_reachable by (simp add: demo_cluster_def)
  have e: "env_ok (demo_env (150 * Second) up)" by (rule demo_env_ok; simp add: in_int64_def Second_def)
  have u: "\<forall>addr resp. t_unreachable demo_transport addr \<noteq> Answered resp" by (simp add: demo_transport_def)
  have i: "routed (RegisterServices [] NewServer) InferAPI (\<lambda>q st. (Inl (StatusErr Unimplemented []), st))"
    by (simp add: routed_def)
  have ref: "refusal ?a ''m1'' False = ''local inference failed: model replica u1 is not currently loaded''"
    by (simp add: refusal_def srv_DeployModel_def demo_deploy_def AssignModel_def demo_agent_models)
  have "infer_call (Suc 0) demo_transport ''10.0.0.7:50052'' (demo_infer ''m1'') (snd demo_cluster) =
      (refused demo_transport (snd demo_cluster) ''10.0.0.7:50052'' (demo_infer ''m1''), snd demo_cluster)"
    by (rule cluster_never_serves [OF dc e u i, THEN conjunct2, THEN conjunct1])
  then show ?thesis
    by (simp add: refused_def demo_cluster_def demo_infer_def ref del: infer_call.simps)
qed

end
