(* ===== verification/Device_Detection.thy ===== *)
theory Device_Detection
  imports Store_Types Go_Strings
begin

section \<open>Detection of memory and graphics devices\<close>

text \<open>
  Models \<open>internal/agent/utils/memory.go\<close> and \<open>gpu.go\<close>: what the agent makes of the output of
  the system's tools. The tools are parameters (\<open>shell\<close>): a command gives its output or fails.
  The content of the file \<open>gpu_specs.json\<close> that is read at run time is a parameter too, and so is
  the order in which Go iterates over one of its maps.
\<close>

subsection \<open>Commands\<close>

record shell =
  sh_GOOS :: string
  sh_GOARCH :: string
  sh_memory_type :: "bytes result"
  sh_smbios_type :: "bytes result"
  sh_dmidecode :: "bytes result"
  sh_sp_memory :: "bytes result"
  sh_nvidia_smi :: "bytes result"
  sh_rocm_smi :: "bytes result"
  sh_video_controllers :: "bytes result"
  sh_lspci :: "bytes result"
  sh_sp_displays :: "bytes result"
  sh_cpu_brand :: "bytes result"

abbreviation lines_of :: "bytes \<Rightarrow> string list" where "lines_of s \<equiv> Split s (CHR 0x0A)"


subsection \<open>Memory type\<close>

definition numeric_code :: "string \<Rightarrow> MemoryType option" where
  "numeric_code s =
     (if length s \<le> 4 \<and> (HasPrefix s ''0x'' \<or> (case s of [] \<Rightarrow> False | c # _ \<Rightarrow> is_digit c))
      then
        (if s \<in> {''26'', ''0x1a''} then Some MemoryTypeDDR4
         else if s \<in> {''27'', ''0x1b''} then Some MemoryTypeDDR5
         else if s \<in> {''34'', ''0x22''} then Some MemoryTypeLPDDR4
         else if s \<in> {''35'', ''0x23''} then Some MemoryTypeLPDDR5
         else if s \<in> {''24'', ''0x18''} then Some MemoryTypeDDR3
         else if s \<in> {''25'', ''0x19''} then Some MemoryTypeLPDDR3
         else None)
      else None)"

definition ParseMemoryTypeFromString :: "string \<Rightarrow> MemoryType" where
  "ParseMemoryTypeFromString memTypeStr =
     (let s = ToLower (TrimSpace memTypeStr) in
      if s = [] then MemoryTypeUnknown
      else
        (case numeric_code s of
           Some t \<Rightarrow> t
         | None \<Rightarrow>
             if Contains s ''ddr5''
             then
               (if Contains s ''lpddr5x'' \<or> Contains s ''lp-ddr5x'' then MemoryTypeLPDDR5X
                else if Contains s ''lpddr5'' \<or> Contains s ''lp-ddr5'' \<or> Contains s ''lp ddr5'' then MemoryTypeLPDDR5
                else MemoryTypeDDR5)
             else if Contains s ''ddr4''
             then
               (if Contains s ''lpddr4x'' \<or> Contains s ''lp-ddr4x'' then MemoryTypeLPDDR4X
                else if Contains s ''lpddr4'' \<or> Contains s ''lp-ddr4'' \<or> Contains s ''lp ddr4'' then MemoryTypeLPDDR4
                else MemoryTypeDDR4)
             else if Contains s ''ddr3''
             then
               (if Contains s ''lpddr3'' \<or> Contains s ''lp-ddr3'' \<or> Contains s ''lp ddr3'' then MemoryTypeLPDDR3
                else MemoryTypeDDR3)
             else MemoryTypeUnknown))"

definition getMemoryTypeWindows :: "shell \<Rightarrow> MemoryType" where
  "getMemoryTypeWindows sh =
     (let fallback =
        (case sh_smbios_type sh of
           Inl _ \<Rightarrow> MemoryTypeUnknown
         | Inr output \<Rightarrow> ParseMemoryTypeFromString (TrimSpace output))
      in case sh_memory_type sh of
           Inl _ \<Rightarrow> fallback
         | Inr output \<Rightarrow>
             (let memTypeStr = TrimSpace output
              in if memTypeStr \<noteq> [] \<and> memTypeStr \<noteq> ''0'' then ParseMemoryTypeFromString memTypeStr else fallback))"

text \<open>The loops over the lines return from inside.\<close>

fun dmidecode_lines :: "string list \<Rightarrow> MemoryType" where
  "dmidecode_lines [] = MemoryTypeUnknown"
| "dmidecode_lines (l # ls) =
     (let line = TrimSpace l;
          typ = TrimSpace (TrimPrefix line ''Type:'');
          speed = TrimSpace (TrimPrefix line ''Speed:'')
      in if HasPrefix line ''Type:'' \<and> typ \<noteq> ''Unknown'' \<and> typ \<noteq> [] then ParseMemoryTypeFromString typ
         else if HasPrefix line ''Speed:'' \<and> Contains speed ''DDR'' then ParseMemoryTypeFromString speed
         else dmidecode_lines ls)"

definition getMemoryTypeLinux :: "shell \<Rightarrow> MemoryType" where
  "getMemoryTypeLinux sh =
     (case sh_dmidecode sh of Inl _ \<Rightarrow> MemoryTypeUnknown | Inr output \<Rightarrow> dmidecode_lines (lines_of output))"

fun darwin_memory_lines :: "string list \<Rightarrow> MemoryType" where
  "darwin_memory_lines [] = MemoryTypeUnknown"
| "darwin_memory_lines (l # ls) =
     (let line = TrimSpace l
      in if Contains line ''Type:'' then ParseMemoryTypeFromString (TrimSpace (TrimPrefix line ''Type:''))
         else darwin_memory_lines ls)"

definition getMemoryTypeDarwin :: "shell \<Rightarrow> MemoryType" where
  "getMemoryTypeDarwin sh =
     (case sh_sp_memory sh of Inl _ \<Rightarrow> MemoryTypeUnknown | Inr output \<Rightarrow> darwin_memory_lines (lines_of output))"

definition GetMemoryType :: "shell \<Rightarrow> MemoryType" where
  "GetMemoryType sh =
     (if sh_GOOS sh = ''windows'' then getMemoryTypeWindows sh
      else if sh_GOOS sh = ''linux'' then getMemoryTypeLinux sh
      else if sh_GOOS sh = ''darwin'' then getMemoryTypeDarwin sh
      else MemoryTypeUnknown)"


subsection \<open>The table of devices\<close>

record GPUSpec =
  gs_ComputeUnits :: int
  gs_TOPS :: float64
  gs_MemoryMB :: int

text \<open>
  What \<open>loadGPUSpecs\<close> returns: \<open>None\<close> when the file cannot be read, else the table of each vendor,
  whose models are iterated in the order of the list.
\<close>

type_synonym gpu_specs = "(string \<rightharpoonup> (string \<times> GPUSpec) list) option"

definition zero_GPUSpec :: GPUSpec where
  "zero_GPUSpec = \<lparr>gs_ComputeUnits = 0, gs_TOPS = Fin 0, gs_MemoryMB = 0\<rparr>"

definition dec_GPUSpec :: "string \<Rightarrow> json \<Rightarrow> GPUSpec \<Rightarrow> GPUSpec option" where
  "dec_GPUSpec k j x =
     (if k = ''compute_units'' then map_option (\<lambda>v. x\<lparr>gs_ComputeUnits := v\<rparr>) (dec_int j (gs_ComputeUnits x))
      else if k = ''tops'' then map_option (\<lambda>v. x\<lparr>gs_TOPS := v\<rparr>) (dec_float j (gs_TOPS x))
      else if k = ''memory_mb'' then map_option (\<lambda>v. x\<lparr>gs_MemoryMB := v\<rparr>) (dec_int j (gs_MemoryMB x))
      else Some x)"

text \<open>A JSON object into a Go map: each member is decoded from the zero value and replaces an earlier one.\<close>

fun dec_entries :: "(json \<Rightarrow> 'a option) \<Rightarrow> (string \<times> json) list \<Rightarrow> (string \<times> 'a) list \<Rightarrow> (string \<times> 'a) list option" where
  "dec_entries f [] m = Some m"
| "dec_entries f ((k, j) # ms) m =
     (case f j of None \<Rightarrow> None | Some v \<Rightarrow> dec_entries f ms (AList.update (json_unquote k) v m))"

fun dec_map :: "(json \<Rightarrow> 'a option) \<Rightarrow> json \<Rightarrow> (string \<times> 'a) list option" where
  "dec_map f (JObj ms) = dec_entries f ms []"
| "dec_map f JNull = Some []"
| "dec_map f _ = None"

text \<open>
  The file is read until it has been read successfully once; from then on the table is kept.
  \<open>null\<close> gives a nil map, which does not count as kept.
\<close>

type_synonym spec_cache = "(string \<times> (string \<times> GPUSpec) list) list option"

definition loadGPUSpecs :: "bytes result \<Rightarrow> spec_cache \<Rightarrow> gpu_specs \<times> spec_cache" where
  "loadGPUSpecs file cache =
     (case cache of
        Some specs \<Rightarrow> (Some (map_of specs), cache)
      | None \<Rightarrow>
          (case file of
             Inl e \<Rightarrow> (None, None)
           | Inr content \<Rightarrow>
               (case json_scan content of
                  None \<Rightarrow> (None, None)
                | Some j \<Rightarrow>
                    (case dec_map (dec_map (\<lambda>v. dec_struct dec_GPUSpec v zero_GPUSpec)) j of
                       None \<Rightarrow> (None, None)
                     | Some specs \<Rightarrow> (Some (map_of specs), if j = JNull then None else Some specs)))))"

text \<open>Once a table has been read, a file that changes or disappears makes no difference.\<close>

lemma loadGPUSpecs_kept:
  "loadGPUSpecs file None = (specs, Some c) \<Longrightarrow> loadGPUSpecs file' (Some c) = (specs, Some c)"
  by (auto simp: loadGPUSpecs_def split: sum.splits option.splits if_splits)

definition normalizeModelName :: "string \<Rightarrow> string" where
  "normalizeModelName model =
     (let n = ToLower (TrimSpace model);
          n = RemoveAll n ''(tm)'';
          n = RemoveAll n ''(r)'';
          n = RemoveAll n [CHR 0xC2, CHR 0xAE];
          n = RemoveAll n [CHR 0xE2, CHR 0x84, CHR 0xA2]
      in Join (Fields n) '' '')"

definition spec_matches :: "string \<Rightarrow> string \<Rightarrow> bool" where
  "spec_matches modelNormalized key \<longleftrightarrow>
     (let keyNormalized = normalizeModelName key
      in modelNormalized = keyNormalized \<or>
         (Contains modelNormalized keyNormalized \<or> Contains keyNormalized modelNormalized) \<and> 5 < length keyNormalized)"

definition lookupGPUSpec :: "gpu_specs \<Rightarrow> string \<Rightarrow> string \<Rightarrow> GPUSpec option" where
  "lookupGPUSpec specs vendor model =
     (case specs of
        None \<Rightarrow> None
      | Some vendors \<Rightarrow>
          (case vendors vendor of
             None \<Rightarrow> None
           | Some vendorSpecs \<Rightarrow>
               (case map_of vendorSpecs model of
                  Some spec \<Rightarrow> Some spec
                | None \<Rightarrow>
                    (let modelNormalized = normalizeModelName model in
                     case List.find (\<lambda>(key, spec). spec_matches modelNormalized key) vendorSpecs of
                       Some (key, spec) \<Rightarrow> Some spec
                     | None \<Rightarrow>
                         if vendor = ''amd'' \<and> Contains modelNormalized ''radeon'' \<and>
                            Contains modelNormalized ''graphics'' \<and> \<not> Contains modelNormalized ''rx''
                         then
                           (case map_of vendorSpecs ''AMD Radeon(TM) Graphics'' of
                              Some spec \<Rightarrow> Some spec
                            | None \<Rightarrow> map_of vendorSpecs ''AMD Radeon Graphics'')
                         else None))))"

definition enhanceGPUWithSpecs :: "gpu_specs \<Rightarrow> ComputeDevice \<Rightarrow> ComputeDevice" where
  "enhanceGPUWithSpecs specs gpu =
     (case lookupGPUSpec specs (cd_Vendor gpu) (cd_Model gpu) of
        None \<Rightarrow> gpu
      | Some spec \<Rightarrow>
          (let gpu = (if cd_ComputeUnits gpu = 0 \<and> 0 < gs_ComputeUnits spec
                      then gpu\<lparr>cd_ComputeUnits := gs_ComputeUnits spec\<rparr> else gpu);
               gpu = (if f64_eq (cd_TOPS gpu) (Fin 0) \<and> f64_less (Fin 0) (gs_TOPS spec)
                      then gpu\<lparr>cd_TOPS := gs_TOPS spec\<rparr> else gpu)
           in if (cd_Memory gpu = 0 \<or> cd_Memory gpu < 100) \<and> 0 < gs_MemoryMB spec
              then gpu\<lparr>cd_Memory := gs_MemoryMB spec\<rparr> else gpu))"

definition detectVendorFromName :: "string \<Rightarrow> string" where
  "detectVendorFromName name =
     (let n = ToLower name in
      if list_ex (Contains n) [''nvidia'', ''geforce'', ''quadro'', ''tesla'', ''rtx'', ''gtx''] then ''nvidia''
      else if list_ex (Contains n) [''amd'', ''radeon'', ''firepro'', ''rx''] then ''amd''
      else if list_ex (Contains n) [''intel'', ''iris'', ''uhd'', ''hd graphics''] then ''intel''
      else if Contains n ''apple'' then ''apple''
      else ''unknown'')"

definition integratedKeywords :: "string list" where
  "integratedKeywords =
     [''intel'', ''iris'', ''uhd'', ''hd graphics'', ''amd radeon graphics'', ''radeon graphics'', ''vega'', ''integrated'',
      ''apple'', ''m1'', ''m2'', ''m3'', ''m4'', ''ryzen'']"

definition isIntegratedGPU :: "string \<Rightarrow> bool" where
  "isIntegratedGPU name \<longleftrightarrow> list_ex (Contains (ToLower name)) integratedKeywords"



subsection \<open>The devices of each tool\<close>

definition found_gpu :: "string \<Rightarrow> string \<Rightarrow> ComputeDevice" where
  "found_gpu vendor model =
     zero_ComputeDevice\<lparr>cd_Type := ComputeDeviceGPU, cd_Vendor := vendor, cd_Model := model, cd_IsAvailable := True\<rparr>"

text \<open>One line of \<open>nvidia-smi\<close>; a line that is skipped gives nothing.\<close>

definition nvidia_line :: "string \<Rightarrow> ComputeDevice option" where
  "nvidia_line l =
     (let line = TrimSpace l; parts = Split line (CHR '','') in
      if line = [] \<or> length parts < 2 then None
      else
        (let gpu = found_gpu ''nvidia'' (TrimSpace (parts ! 0));
             memStr = TrimSpace (TrimSuffix (TrimSpace (parts ! 1)) '' MiB'')
         in Some (case ParseInt memStr of Some memMB \<Rightarrow> gpu\<lparr>cd_Memory := memMB\<rparr> | None \<Rightarrow> gpu)))"

definition detectNVIDIAWindows :: "shell \<Rightarrow> ComputeDevice list" where
  "detectNVIDIAWindows sh =
     (case sh_nvidia_smi sh of
        Inl _ \<Rightarrow> []
      | Inr output \<Rightarrow> List.map_filter nvidia_line (lines_of (TrimSpace output)))"

definition detectNVIDIALinux :: "gpu_specs \<Rightarrow> shell \<Rightarrow> ComputeDevice list" where
  "detectNVIDIALinux specs sh =
     (case sh_nvidia_smi sh of
        Inl _ \<Rightarrow> []
      | Inr output \<Rightarrow> map (enhanceGPUWithSpecs specs) (List.map_filter nvidia_line (lines_of (TrimSpace output))))"

text \<open>
  The parser of \<open>rocm-smi\<close>: the devices found so far and the current one. The part of a line after
  its first colon, up to a second one, is the model.
\<close>

definition close_gpu :: "gpu_specs \<Rightarrow> ComputeDevice list \<times> ComputeDevice option \<Rightarrow> ComputeDevice list" where
  "close_gpu specs st =
     (case st of (gpus, None) \<Rightarrow> gpus | (gpus, Some current) \<Rightarrow> gpus @ [enhanceGPUWithSpecs specs current])"

definition rocm_line ::
    "gpu_specs \<Rightarrow> ComputeDevice list \<times> ComputeDevice option \<Rightarrow> string \<Rightarrow> ComputeDevice list \<times> ComputeDevice option" where
  "rocm_line specs st l =
     (let line = TrimSpace l in
      if line = [] then st
      else if Contains line ''Card series:'' \<or> Contains line ''Card model:''
      then
        (let parts = Split line (CHR '':'')
         in (close_gpu specs st, Some (found_gpu ''amd'' (if 2 \<le> length parts then TrimSpace (parts ! 1) else []))))
      else st)"

definition detectAMDLinux :: "gpu_specs \<Rightarrow> shell \<Rightarrow> ComputeDevice list" where
  "detectAMDLinux specs sh =
     (case sh_rocm_smi sh of
        Inl _ \<Rightarrow> []
      | Inr output \<Rightarrow> close_gpu specs (foldl (rocm_line specs) ([], None) (lines_of output)))"

definition detectAMDWindows :: "gpu_specs \<Rightarrow> shell \<Rightarrow> ComputeDevice list" where
  "detectAMDWindows specs sh =
     (case sh_rocm_smi sh of
        Inl _ \<Rightarrow> []
      | Inr output \<Rightarrow> close_gpu specs (foldl (rocm_line specs) ([], None) (lines_of output)))"

definition video_controller_line :: "gpu_specs \<Rightarrow> string \<Rightarrow> ComputeDevice option" where
  "video_controller_line specs l =
     (let line = TrimSpace l; parts = Split line (CHR 0x7C); name = TrimSpace (parts ! 0) in
      if line = [] \<or> length parts < 2 \<or> name = [] \<or> ParseInt name \<noteq> None \<or> Contains (ToLower name) ''nvidia'' then None
      else
        (let gpu = found_gpu (detectVendorFromName name) name;
             memStr = TrimSpace (parts ! 1);
             gpu = (if memStr \<noteq> [] \<and> memStr \<noteq> ''0''
                    then (case ParseInt memStr of
                            Some memBytes \<Rightarrow> if 0 < memBytes then gpu\<lparr>cd_Memory := memBytes div 1024 div 1024\<rparr> else gpu
                          | None \<Rightarrow> gpu)
                    else gpu);
             gpu = (if isIntegratedGPU name then gpu\<lparr>cd_Type := ComputeDeviceIntegratedGPU\<rparr> else gpu)
         in Some (enhanceGPUWithSpecs specs gpu)))"

definition detectOtherGPUsWindows :: "gpu_specs \<Rightarrow> shell \<Rightarrow> ComputeDevice list" where
  "detectOtherGPUsWindows specs sh =
     (case sh_video_controllers sh of
        Inl _ \<Rightarrow> []
      | Inr output \<Rightarrow> List.map_filter (video_controller_line specs) (lines_of output))"

definition getGPUInfoWindows :: "gpu_specs \<Rightarrow> shell \<Rightarrow> ComputeDevice list" where
  "getGPUInfoWindows specs sh = detectNVIDIAWindows sh @ detectAMDWindows specs sh @ detectOtherGPUsWindows specs sh"

text \<open>A line of \<open>lspci\<close> is looked at with the devices found so far.\<close>

definition lspci_line :: "gpu_specs \<Rightarrow> ComputeDevice list \<Rightarrow> string \<Rightarrow> ComputeDevice list" where
  "lspci_line specs gpus l =
     (let line = TrimSpace l; lower = ToLower line; parts = Split line (CHR '':'') in
      if line = [] then gpus
      else if \<not> Contains lower ''vga'' \<and> \<not> Contains lower ''3d'' \<and> \<not> Contains lower ''display'' then gpus
      else if Contains lower ''nvidia'' then gpus
      else if (Contains lower ''amd'' \<or> Contains lower ''radeon'') \<and> (\<exists>existing \<in> set gpus. cd_Vendor existing = ''amd'') then gpus
      else if length parts < 2 then gpus
      else
        (let description = TrimSpace (parts ! (length parts - 1));
             idx = Index description ''(rev'';
             model = (if 0 < idx then TrimSpace (take (nat idx) description) else description);
             gpu = found_gpu (detectVendorFromName description) model;
             gpu = (if isIntegratedGPU description then gpu\<lparr>cd_Type := ComputeDeviceIntegratedGPU\<rparr> else gpu)
         in gpus @ [enhanceGPUWithSpecs specs gpu]))"

definition detectOtherGPUsLinux :: "gpu_specs \<Rightarrow> shell \<Rightarrow> ComputeDevice list" where
  "detectOtherGPUsLinux specs sh =
     (let gpus = detectAMDLinux specs sh
      in case sh_lspci sh of
           Inl _ \<Rightarrow> gpus
         | Inr output \<Rightarrow> foldl (lspci_line specs) gpus (lines_of output))"

definition getGPUInfoLinux :: "gpu_specs \<Rightarrow> shell \<Rightarrow> ComputeDevice list" where
  "getGPUInfoLinux specs sh = detectNVIDIALinux specs sh @ detectOtherGPUsLinux specs sh"

text \<open>The state of the parser of \<open>system_profiler\<close>.\<close>

record darwin_state =
  ds_gpus :: "ComputeDevice list"
  ds_current :: "ComputeDevice option"
  ds_inSection :: bool

definition darwin_property :: "string \<Rightarrow> ComputeDevice \<Rightarrow> ComputeDevice" where
  "darwin_property line gpu =
     (if HasPrefix line ''VRAM (Dynamic, Max):''
      then
        (case ParseInt (TrimSuffix (TrimSpace (TrimPrefix line ''VRAM (Dynamic, Max):'')) '' MB'') of
           Some memMB \<Rightarrow> gpu\<lparr>cd_Memory := memMB\<rparr>
         | None \<Rightarrow> gpu)
      else if HasPrefix line ''Metal Family:''
      then
        (let metalFamily = TrimSpace (TrimPrefix line ''Metal Family:'')
         in if Contains (ToLower metalFamily) ''apple''
            then (let gpu = gpu\<lparr>cd_Vendor := ''apple''\<rparr>
                  in if cd_Model gpu = [] then gpu\<lparr>cd_Model := ''Apple '' @ metalFamily\<rparr> else gpu)
            else gpu)
      else if HasPrefix line ''Vendor:''
      then (if cd_Vendor gpu = [] then gpu\<lparr>cd_Vendor := ToLower (TrimSpace (TrimPrefix line ''Vendor:''))\<rparr> else gpu)
      else gpu)"

definition darwin_line :: "darwin_state \<Rightarrow> string \<Rightarrow> darwin_state" where
  "darwin_line st l =
     (let line = TrimSpace l;
          st = (if HasPrefix line ''Chipset Model:'' \<or> HasPrefix line ''Device ID:''
                then
                  (let model = TrimSpace (TrimPrefix line ''Chipset Model:'')
                   in \<lparr>ds_gpus = (case ds_current st of Some gpu \<Rightarrow> ds_gpus st @ [gpu] | None \<Rightarrow> ds_gpus st),
                       ds_current = Some (if HasPrefix line ''Chipset Model:''
                                          then found_gpu (detectVendorFromName model) model else found_gpu [] []),
                       ds_inSection = True\<rparr>)
                else if ds_inSection st then st\<lparr>ds_current := map_option (darwin_property line) (ds_current st)\<rparr>
                else st)
      in if line = [] \<and> ds_inSection st then st\<lparr>ds_inSection := False\<rparr> else st)"

definition getGPUInfoDarwin :: "gpu_specs \<Rightarrow> shell \<Rightarrow> ComputeDevice list" where
  "getGPUInfoDarwin specs sh =
     (case sh_sp_displays sh of
        Inl _ \<Rightarrow> []
      | Inr output \<Rightarrow>
          (let st = foldl darwin_line \<lparr>ds_gpus = [], ds_current = None, ds_inSection = False\<rparr> (lines_of output);
               gpus = (case ds_current st of
                         Some gpu \<Rightarrow> if cd_Model gpu \<noteq> [] then ds_gpus st @ [enhanceGPUWithSpecs specs gpu] else ds_gpus st
                       | None \<Rightarrow> ds_gpus st)
           in if gpus = [] \<and> sh_GOARCH sh = ''arm64''
              then
                (case sh_cpu_brand sh of
                   Inl _ \<Rightarrow> gpus
                 | Inr brand \<Rightarrow>
                     if Contains (ToLower (TrimSpace brand)) ''apple''
                     then [enhanceGPUWithSpecs specs ((found_gpu ''apple'' ''Apple Integrated GPU'')\<lparr>cd_Type := ComputeDeviceIntegratedGPU\<rparr>)]
                     else gpus)
              else gpus))"

definition GetGPUInfo :: "gpu_specs \<Rightarrow> shell \<Rightarrow> ComputeDevice list" where
  "GetGPUInfo specs sh =
     (if sh_GOOS sh = ''windows'' then getGPUInfoWindows specs sh
      else if sh_GOOS sh = ''linux'' then getGPUInfoLinux specs sh
      else if sh_GOOS sh = ''darwin'' then getGPUInfoDarwin specs sh
      else [])"



subsection \<open>Properties of the memory type\<close>

definition memory_types :: "MemoryType set" where
  "memory_types = {MemoryTypeUnknown, MemoryTypeDDR3, MemoryTypeDDR4, MemoryTypeDDR5, MemoryTypeLPDDR3, MemoryTypeLPDDR4,
     MemoryTypeLPDDR4X, MemoryTypeLPDDR5, MemoryTypeLPDDR5X}"

lemma memory_types_intros:
  "MemoryTypeUnknown \<in> memory_types" "MemoryTypeDDR3 \<in> memory_types" "MemoryTypeDDR4 \<in> memory_types"
  "MemoryTypeDDR5 \<in> memory_types" "MemoryTypeLPDDR3 \<in> memory_types" "MemoryTypeLPDDR4 \<in> memory_types"
  "MemoryTypeLPDDR4X \<in> memory_types" "MemoryTypeLPDDR5 \<in> memory_types" "MemoryTypeLPDDR5X \<in> memory_types"
  by (simp_all add: memory_types_def)

lemma numeric_code_types: "numeric_code s = Some t \<Longrightarrow> t \<in> memory_types"
  unfolding numeric_code_def by (simp only: memory_types_intros option.inject option.distinct split: if_splits)

lemma Parse_types: "ParseMemoryTypeFromString s \<in> memory_types"
  by (cases "numeric_code (ToLower (TrimSpace s))")
     (simp_all add: ParseMemoryTypeFromString_def Let_def memory_types_intros numeric_code_types)

lemma dmidecode_types: "dmidecode_lines ls \<in> memory_types"
  by (induction ls) (simp_all add: Let_def Parse_types memory_types_intros)

lemma darwin_types: "darwin_memory_lines ls \<in> memory_types"
  by (induction ls) (simp_all add: Let_def Parse_types memory_types_intros)

lemma GetMemoryType_types: "GetMemoryType sh \<in> memory_types"
  by (simp add: GetMemoryType_def getMemoryTypeWindows_def getMemoryTypeLinux_def getMemoryTypeDarwin_def Let_def
      Parse_types dmidecode_types darwin_types memory_types_intros split: sum.split)

lemma TrimSpace_ToLower: "TrimSpace (ToLower s) = ToLower (TrimSpace s)"
proof -
  have "dropWhile is_space (map lower_char xs) = map lower_char (dropWhile is_space xs)" for xs
    by (induction xs) simp_all
  then show ?thesis by (simp add: TrimSpace_def ToLower_def rev_map)
qed

lemma Contains_length: "Contains s p \<Longrightarrow> length p \<le> length s"
  by (simp add: Contains_iff_sublist sublist_length_le)

lemma no_code: "Contains s p \<Longrightarrow> 4 < length p \<Longrightarrow> numeric_code s = None"
  using Contains_length [of s p] by (simp add: numeric_code_def)

lemma Contains_tail: "Contains s (c # p) \<Longrightarrow> Contains s p"
  using Contains_trans [of s "c # p" p] Contains_infix [of "[c]" p "[]"] by simp

text \<open>
  The memory type. Whatever the tools of the system answer, the type reported is one of the
  nine constants. The parser does not depend on case or on surrounding white space, and a text
  that names a low-power generation is never taken for the ordinary one.
\<close>

lemma memory_type_spec:
  shows "GetMemoryType sh \<in> memory_types \<and>
    ParseMemoryTypeFromString (TrimSpace s) = ParseMemoryTypeFromString s \<and>
    ParseMemoryTypeFromString (ToLower s) = ParseMemoryTypeFromString s \<and>
    (Contains (ToLower (TrimSpace s)) ''lpddr5'' \<longrightarrow> ParseMemoryTypeFromString s \<in> {MemoryTypeLPDDR5, MemoryTypeLPDDR5X}) \<and>
    (Contains (ToLower (TrimSpace s)) ''lpddr4'' \<and> \<not> Contains (ToLower (TrimSpace s)) ''ddr5'' \<longrightarrow> ParseMemoryTypeFromString s \<in> {MemoryTypeLPDDR4, MemoryTypeLPDDR4X}) \<and>
    (Contains (ToLower (TrimSpace s)) ''lpddr3'' \<and> \<not> Contains (ToLower (TrimSpace s)) ''ddr5'' \<and> \<not> Contains (ToLower (TrimSpace s)) ''ddr4'' \<longrightarrow> ParseMemoryTypeFromString s = MemoryTypeLPDDR3)"
proof -
  define t where "t = ToLower (TrimSpace s)"
  have ne: "t \<noteq> []" if "Contains t (c # p)" for c p using that by (cases t) simp_all
  have "Contains t ''lpddr5'' \<longrightarrow> ParseMemoryTypeFromString s \<in> {MemoryTypeLPDDR5, MemoryTypeLPDDR5X}"
  proof
    assume a: "Contains t ''lpddr5''"
    then have "Contains t ''ddr5''" by (blast dest: Contains_tail)
    with a ne [OF a] no_code [OF a] show "ParseMemoryTypeFromString s \<in> {MemoryTypeLPDDR5, MemoryTypeLPDDR5X}"
      by (simp add: ParseMemoryTypeFromString_def t_def [symmetric])
  qed
  moreover have "Contains t ''lpddr4'' \<and> \<not> Contains t ''ddr5'' \<longrightarrow> ParseMemoryTypeFromString s \<in> {MemoryTypeLPDDR4, MemoryTypeLPDDR4X}"
  proof (intro impI, elim conjE)
    assume a: "Contains t ''lpddr4''" "\<not> Contains t ''ddr5''"
    then have "Contains t ''ddr4''" by (blast dest: Contains_tail)
    with a ne [OF a(1)] no_code [OF a(1)] show "ParseMemoryTypeFromString s \<in> {MemoryTypeLPDDR4, MemoryTypeLPDDR4X}"
      by (simp add: ParseMemoryTypeFromString_def t_def [symmetric])
  qed
  moreover have "Contains t ''lpddr3'' \<and> \<not> Contains t ''ddr5'' \<and> \<not> Contains t ''ddr4'' \<longrightarrow>
      ParseMemoryTypeFromString s = MemoryTypeLPDDR3"
  proof (intro impI, elim conjE)
    assume a: "Contains t ''lpddr3''" "\<not> Contains t ''ddr5''" "\<not> Contains t ''ddr4''"
    then have "Contains t ''ddr3''" by (blast dest: Contains_tail)
    with a ne [OF a(1)] no_code [OF a(1)] show "ParseMemoryTypeFromString s = MemoryTypeLPDDR3"
      by (simp add: ParseMemoryTypeFromString_def t_def [symmetric])
  qed
  moreover have "ParseMemoryTypeFromString (TrimSpace s) = ParseMemoryTypeFromString s"
    "ParseMemoryTypeFromString (ToLower s) = ParseMemoryTypeFromString s"
    unfolding ParseMemoryTypeFromString_def TrimSpace_ToLower ToLower_idem TrimSpace_idem by (rule refl)+
  ultimately show ?thesis using GetMemoryType_types unfolding t_def by blast
qed

subsection \<open>Properties of the device list\<close>

lemma enhance_fields [simp]:
  "cd_Type (enhanceGPUWithSpecs specs g) = cd_Type g" "cd_Vendor (enhanceGPUWithSpecs specs g) = cd_Vendor g"
  "cd_Model (enhanceGPUWithSpecs specs g) = cd_Model g" "cd_PowerDraw (enhanceGPUWithSpecs specs g) = cd_PowerDraw g"
  "cd_IsAvailable (enhanceGPUWithSpecs specs g) = cd_IsAvailable g"
  by (simp_all add: enhanceGPUWithSpecs_def Let_def split: option.split)

text \<open>
  The table only fills gaps. \<open>enhanceGPUWithSpecs\<close> leaves type, vendor, model, power and
  availability alone, never changes compute units or TOPS that are already known, nor a detected
  memory of at least 100 MB, and what it fills in is what the table says for that device.
\<close>

lemma enhance_only_fills_gaps:
  "let g' = enhanceGPUWithSpecs specs g in
    cd_Type g' = cd_Type g \<and> cd_Vendor g' = cd_Vendor g \<and> cd_Model g' = cd_Model g \<and>
    cd_PowerDraw g' = cd_PowerDraw g \<and> cd_IsAvailable g' = cd_IsAvailable g \<and>
    (cd_ComputeUnits g' = cd_ComputeUnits g \<or>
      cd_ComputeUnits g = 0 \<and> (\<exists>spec. lookupGPUSpec specs (cd_Vendor g) (cd_Model g) = Some spec \<and> cd_ComputeUnits g' = gs_ComputeUnits spec)) \<and>
    (cd_TOPS g' = cd_TOPS g \<or>
      cd_TOPS g = Fin 0 \<and> (\<exists>spec. lookupGPUSpec specs (cd_Vendor g) (cd_Model g) = Some spec \<and> cd_TOPS g' = gs_TOPS spec)) \<and>
    (cd_Memory g' = cd_Memory g \<or>
      cd_Memory g < 100 \<and> (\<exists>spec. lookupGPUSpec specs (cd_Vendor g) (cd_Model g) = Some spec \<and> cd_Memory g' = gs_MemoryMB spec))"
  by (auto simp: enhanceGPUWithSpecs_def Let_def f64_eq_def split: option.split)

definition pci_description :: "string \<Rightarrow> string" where
  "pci_description l = (let parts = Split (TrimSpace l) (CHR '':'') in TrimSpace (parts ! (length parts - 1)))"

definition amd_pci_line :: "string \<Rightarrow> bool" where
  "amd_pci_line l \<longleftrightarrow>
     (Contains (ToLower (TrimSpace l)) ''amd'' \<or> Contains (ToLower (TrimSpace l)) ''radeon'') \<and>
     detectVendorFromName (pci_description l) = ''amd''"

lemma lspci_amd:
  assumes "amd_pci_line l" "gpus = [] \<or> (\<exists>g. gpus = [g] \<and> cd_Vendor g = ''amd'')"
  shows "lspci_line specs gpus l = [] \<or> (\<exists>g. lspci_line specs gpus l = [g] \<and> cd_Vendor g = ''amd'')"
  using assms by (auto simp: lspci_line_def amd_pci_line_def pci_description_def Let_def found_gpu_def)


definition demo_shell :: "bytes \<Rightarrow> shell" where
  "demo_shell pci = \<lparr>sh_GOOS = ''linux'', sh_GOARCH = ''amd64'', sh_memory_type = Inl [], sh_smbios_type = Inl [],
     sh_dmidecode = Inl [], sh_sp_memory = Inl [], sh_nvidia_smi = Inl [], sh_rocm_smi = Inl ''not found'',
     sh_video_controllers = Inl [], sh_lspci = Inr pci, sh_sp_displays = Inl [], sh_cpu_brand = Inl []\<rparr>"

definition demo_cards :: bytes where
  "demo_cards = ''01:00.0 VGA compatible controller: AMD Navi 31'' @ [CHR 0x0A] @ ''02:00.0 VGA compatible controller: AMD Navi 32''"


text \<open>
  The specification found for a card can depend on the order in which Go iterates over the table
  of its vendor: a model name may contain two of the keys, and the first one met is taken, not
  the longer one.
\<close>

lemma lookup_depends_on_order:
  "lookupGPUSpec (Some [''amd'' \<mapsto> [(''AMD Radeon RX 7900 XT'', x), (''AMD Radeon RX 7900 XTX'', y)]]) ''amd'' ''AMD Radeon RX 7900 XTX 24GB'' = Some x"
  "lookupGPUSpec (Some [''amd'' \<mapsto> [(''AMD Radeon RX 7900 XTX'', y), (''AMD Radeon RX 7900 XT'', x)]]) ''amd'' ''AMD Radeon RX 7900 XTX 24GB'' = Some y"
proof -
  have "spec_matches (normalizeModelName ''AMD Radeon RX 7900 XTX 24GB'') ''AMD Radeon RX 7900 XT''"
    "spec_matches (normalizeModelName ''AMD Radeon RX 7900 XTX 24GB'') ''AMD Radeon RX 7900 XTX''" by code_simp+
  then show
    "lookupGPUSpec (Some [''amd'' \<mapsto> [(''AMD Radeon RX 7900 XT'', x), (''AMD Radeon RX 7900 XTX'', y)]]) ''amd'' ''AMD Radeon RX 7900 XTX 24GB'' = Some x"
    "lookupGPUSpec (Some [''amd'' \<mapsto> [(''AMD Radeon RX 7900 XTX'', y), (''AMD Radeon RX 7900 XT'', x)]]) ''amd'' ''AMD Radeon RX 7900 XTX 24GB'' = Some y"
    by (simp_all add: lookupGPUSpec_def)
qed

end
