(* ===== verification/Client_Upload.thy ===== *)
theory Client_Upload
  imports Client_Commands Model_Transfer
begin

section \<open>Upload from the client and apply against the service\<close>

text \<open>
  Models \<open>internal/client/cmd/upload.go\<close> and the command \<open>model upload\<close>, and composes the client
  with the services of the control plane: a file that is uploaded and downloaded again, and a
  manifest that is applied twice.
\<close>

subsection \<open>The upload\<close>

definition uploadChunkSize :: nat where "uploadChunkSize = 2 * 1024 * 1024"

text \<open>
  The faults: of the file at its opening, \<open>Stat\<close>, the hashing, \<open>Seek\<close> and the \<open>k\<close>-th read, and of
  the stream at its opening, the metadata and the \<open>k\<close>-th data message.
\<close>

record up_faults =
  uf_open :: "error option"
  uf_stat :: "error option"
  uf_hash :: "error option"
  uf_seek :: "error option"
  uf_stream :: "cli_error option"
  uf_meta :: "cli_error option"
  uf_read :: "nat \<Rightarrow> error option"
  uf_send :: "nat \<Rightarrow> cli_error option"

definition no_faults :: up_faults where
  "no_faults = \<lparr>uf_open = None, uf_stat = None, uf_hash = None, uf_seek = None, uf_stream = None, uf_meta = None,
     uf_read = (\<lambda>k. None), uf_send = (\<lambda>k. None)\<rparr>"

text \<open>\<open>float64(offset) / float64(totalSize) * 100\<close>.\<close>

definition percent :: "nat \<Rightarrow> nat \<Rightarrow> float64" where
  "percent off totalSize =
     (case (fl64 (of_nat off), fl64 (of_nat totalSize)) of
        (Fin a, Fin b) \<Rightarrow> (case fl64 (a / b) of Fin q \<Rightarrow> fl64 (q * 100) | x \<Rightarrow> x)
      | _ \<Rightarrow> NaN)"

definition progress_text :: "string \<Rightarrow> nat \<Rightarrow> nat \<Rightarrow> string" where
  "progress_text filename off totalSize =
     [CHR 0x0D] @ ''Uploading '' @ filename @ '': '' @
     FormatFloat (percent off totalSize) 1 @
     ''% ('' @ Itoa (int off) @ '' / '' @ Itoa (int totalSize) @ '' bytes)''"

text \<open>
  The loop over the file. \<open>rest\<close> is what has not been read, \<open>k\<close> counts the rounds. The results are
  the messages that were sent, the progress on the error stream and the error that ended the loop.
\<close>

function send_chunks ::
    "up_faults \<Rightarrow> string \<Rightarrow> nat \<Rightarrow> nat \<Rightarrow> bytes \<Rightarrow> nat \<Rightarrow> ModelUploadChunk list \<times> string \<times> cli_error option" where
  "send_chunks f filename totalSize k rest off =
     (case uf_read f k of
        Some e \<Rightarrow> ([], [], Some (Wrap ''read error'' (PlainErr e)))
      | None \<Rightarrow>
          if rest = [] then ([], [], None)
          else
            (case uf_send f k of
               Some e \<Rightarrow> ([], [], Some (Wrap (''could not send chunk at offset '' @ Itoa (int off)) e))
             | None \<Rightarrow>
                 (let buf = take uploadChunkSize rest; off' = off + length buf in
                  case send_chunks f filename totalSize (Suc k) (drop uploadChunkSize rest) off' of
                    (ms, t, r) \<Rightarrow>
                      (\<lparr>uc_Content = Some (CChunkData buf), uc_ChunkOffset = int off\<rparr> # ms,
                       progress_text filename off' totalSize @ t, r))))"
  by pat_completeness auto
termination
  by (relation "measure (\<lambda>(f, n, tot, k, rest, off). length rest)") (auto simp: uploadChunkSize_def)

declare send_chunks.simps [simp del]

definition resolve_filename :: "string \<Rightarrow> string \<Rightarrow> string" where
  "resolve_filename localPath filename = (if filename = [] \<or> filename = localPath then Base localPath else filename)"

definition metadata_message :: "string \<Rightarrow> bytes \<Rightarrow> ModelUploadChunk" where
  "metadata_message filename content =
     \<lparr>uc_Content = Some (CMetadata \<lparr>up_Filename = filename, up_TotalSize = int (length content),
        up_Sha256Hash = sha256_hex content\<rparr>), uc_ChunkOffset = 0\<rparr>"

text \<open>
  The whole function. \<open>call\<close> is the handler at the other end of the stream: it consumes what was
  sent, and when the client gives up it sees a receive error after it. Once the stream is open
  the handler runs in every case.
\<close>

definition uploadModel ::
    "up_faults \<Rightarrow> disk \<Rightarrow> (recv list, ModelUploadResponse, 's) rpc \<Rightarrow> string \<Rightarrow> string \<Rightarrow> 's
      \<Rightarrow> ((cli_error + ModelUploadResponse) \<times> string) \<times> 's" where
  "uploadModel f files call localPath filename s =
     (case (case uf_open f of Some e \<Rightarrow> Inl e | None \<Rightarrow>
              (case files localPath of None \<Rightarrow> Inl (''open '' @ localPath @ '': no such file or directory'') | Some c \<Rightarrow> Inr c)) of
        Inl e \<Rightarrow> ((Inl (Wrap (''could not open '' @ localPath) (PlainErr e)), []), s)
      | Inr content \<Rightarrow>
     (case uf_stat f of
        Some e \<Rightarrow> ((Inl (Wrap (''could not stat '' @ localPath) (PlainErr e)), []), s)
      | None \<Rightarrow>
     (case uf_hash f of
        Some e \<Rightarrow> ((Inl (Wrap ''could not compute SHA256'' (PlainErr e)), []), s)
      | None \<Rightarrow>
     (case uf_seek f of
        Some e \<Rightarrow> ((Inl (Wrap ''could not seek'' (PlainErr e)), []), s)
      | None \<Rightarrow>
     (case uf_stream f of
        Some e \<Rightarrow> ((Inl (Wrap ''could not open upload stream'' e), []), s)
      | None \<Rightarrow>
     (let name = resolve_filename localPath filename; gone = [RecvErr ''context canceled''] in
      case uf_meta f of
        Some e \<Rightarrow> ((Inl (Wrap ''could not send metadata'' e), []), snd (call gone s))
      | None \<Rightarrow>
     (case send_chunks f name (length content) 0 content 0 of
        (ms, t, Some e) \<Rightarrow> ((Inl e, t), snd (call (map Msg (metadata_message name content # ms) @ gone) s))
      | (ms, t, None) \<Rightarrow>
          (case call (map Msg (metadata_message name content # ms)) s of
             (Inl e, s') \<Rightarrow> ((Inl (Wrap ''upload failed'' e), t @ [NL]), s')
           | (Inr resp, s') \<Rightarrow> ((Inr resp, t @ [NL]), s')))))))))"

definition modelUploadCmd ::
    "session \<Rightarrow> up_faults \<Rightarrow> disk \<Rightarrow> (recv list, ModelUploadResponse, 's) rpc \<Rightarrow> string \<Rightarrow> string \<Rightarrow> 's \<Rightarrow> run \<times> 's" where
  "modelUploadCmd g f files call flagFilename arg s =
     (case newClient g of
        Some e \<Rightarrow> (fail e, s)
      | None \<Rightarrow>
          (case uploadModel f files call arg (if flagFilename = [] then arg else flagFilename) s of
             ((Inl e, t), s') \<Rightarrow> ((exitOnErr g e)\<lparr>rn_err := t @ FormatError (ss_lib g) e @ [NL]\<rparr>, s')
           | ((Inr r, t), s') \<Rightarrow>
               ((say (''Upload complete: success='' @ FormatBool (ur_Success r) @ '' path='' @ ur_FilePath r @
                  '' message='' @ ur_Message r @ [NL]))\<lparr>rn_err := t\<rparr>, s')))"


subsection \<open>A file that is uploaded and downloaded again\<close>

text \<open>The handler of the control plane at the other end of the stream.\<close>

definition upload_service :: "string \<Rightarrow> string \<Rightarrow> string \<Rightarrow> (recv list, ModelUploadResponse, string \<rightharpoonup> bytes) rpc" where
  "upload_service uuid wd modelDir msgs files =
     (case UploadModel up_ok uuid wd modelDir msgs files of (r, files') \<Rightarrow> (received r, files'))"

text \<open>What a file needs to be taken, under the name it is sent with.\<close>

definition uploadable :: "string \<Rightarrow> bytes \<Rightarrow> bool" where
  "uploadable name content \<longleftrightarrow>
     HasSuffix (ToLower (TrimSpace name)) ''.onnx'' \<and> 2 \<le> length content \<and> byte_of (hd content) mod 8 < 6"

lemma uploadChunkSize_pos [simp]: "0 < uploadChunkSize" "2 \<le> uploadChunkSize"
  by (simp_all add: uploadChunkSize_def)

lemma send_chunks_ok:
  "\<exists>ms t ds. send_chunks no_faults name tot k rest off = (ms, t, None) \<and> stream_data (map Msg ms) = Some ds \<and>
     concat ds = rest \<and> onnx_start ds = (rest = [] \<or> 2 \<le> length rest \<and> byte_of (hd rest) mod 8 < 6)"
proof (induction "length rest" arbitrary: rest k off rule: less_induct)
  case less
  show ?case
  proof (cases "rest = []")
    case True
    then show ?thesis by (subst send_chunks.simps) (simp add: no_faults_def onnx_start_def)
  next
    case False
    then have "length (drop uploadChunkSize rest) < length rest" by simp
    obtain ms t ds where
      "send_chunks no_faults name tot (Suc k) (drop uploadChunkSize rest) (off + length (take uploadChunkSize rest)) = (ms, t, None)"
      "stream_data (map Msg ms) = Some ds" "concat ds = drop uploadChunkSize rest"
      using less [OF \<open>length (drop uploadChunkSize rest) < length rest\<close>, of "Suc k" "off + length (take uploadChunkSize rest)"]
      by (elim exE conjE) (rule that)
    moreover have "2 \<le> length (take uploadChunkSize rest) \<longleftrightarrow> 2 \<le> length rest" by simp
    moreover have "hd (take uploadChunkSize rest) = hd rest" by simp
    moreover have "uf_read no_faults = (\<lambda>k. None)" "uf_send no_faults = (\<lambda>k. None)" by (simp_all add: no_faults_def)
    ultimately show ?thesis using False by (subst send_chunks.simps) (simp add: Let_def onnx_start_def)
  qed
qed

lemma metadata_of_message:
  "check_metadata (Msg (metadata_message name content) # msgs) = Inr (f, h, n) \<longleftrightarrow>
     f = TrimSpace name \<and> HasSuffix (ToLower f) ''.onnx'' \<and> h = sha256_hex content \<and> n = int (length content) \<and> content \<noteq> []"
  using HasSuffix_not_Nil [of f "CHR ''.''" "''onnx''"]
  by (auto simp: check_metadata_Inr metadata_message_def TrimSpace_sha)

lemma client_stream_acceptable:
  assumes "stream_data (map Msg ms) = Some ds" "concat ds = content"
    and "onnx_start ds = (content = [] \<or> 2 \<le> length content \<and> byte_of (hd content) mod 8 < 6)"
  shows "acceptable (map Msg (metadata_message name content # ms)) f c \<longleftrightarrow>
    f = TrimSpace name \<and> c = content \<and> uploadable name content"
  unfolding acceptable_steps list.map metadata_of_message list.sel recv_chunks_Inr check_content_None
  using assms by (auto simp: uploadable_def)

lemma uploadModel_runs:
  assumes "files localPath = Some content" and "name = resolve_filename localPath filename"
  obtains ms t ds where "stream_data (map Msg ms) = Some ds" "concat ds = content"
    "onnx_start ds = (content = [] \<or> 2 \<le> length content \<and> byte_of (hd content) mod 8 < 6)"
    "uploadModel no_faults files call localPath filename s =
      (case call (map Msg (metadata_message name content # ms)) s of
         (Inl e, s') \<Rightarrow> ((Inl (Wrap ''upload failed'' e), t @ [NL]), s')
       | (Inr resp, s') \<Rightarrow> ((Inr resp, t @ [NL]), s'))"
proof -
  obtain ms t ds where m: "send_chunks no_faults name (length content) 0 content 0 = (ms, t, None)"
    "stream_data (map Msg ms) = Some ds" "concat ds = content"
    "onnx_start ds = (content = [] \<or> 2 \<le> length content \<and> byte_of (hd content) mod 8 < 6)"
    using send_chunks_ok [of name "length content" 0 content 0] by (elim exE conjE) (rule that)
  have "uf_open no_faults = None" "uf_stat no_faults = None" "uf_hash no_faults = None" "uf_seek no_faults = None"
    "uf_stream no_faults = None" "uf_meta no_faults = None" by (simp_all add: no_faults_def)
  with m(1) assms show thesis by (intro that [OF m(2-4)]) (simp add: uploadModel_def Let_def)
qed

lemma Clean_final_path:
  assumes "HasPrefix wd ''/''"
  shows "Clean (final_path wd modelDir f) = final_path wd modelDir f"
proof -
  have "HasPrefix (Join (wd # ws) [SL]) [SL]" for ws
    using assms by (cases wd; cases ws) (auto simp: HasPrefix_def split: if_splits)
  with assms show ?thesis
    by (auto simp: final_path_def Abs_def path_Join_def Clean_Clean_rooted Let_def HasPrefix_def split: if_splits)
qed


lemma DownloadModel_whole:
  assumes "serves s files i content"
  obtains cs where "DownloadModel (\<lambda>k. None) None files (Some \<lparr>dl_ModelId = i, dl_ResumeByteOffset = 0\<rparr>) s = (cs, None)"
    "data_of cs = content" "contiguous 0 cs"
proof -
  let ?d = "download_loop (\<lambda>k. None) 0 content 0"
  have ok: "snd ?d = None" by (rule download_loop_ok)
  then have "?d = (fst ?d, None)" by (metis prod.collapse)
  moreover have "data_of (fst ?d) = content" using download_loop_prefix [of content "\<lambda>k. None" 0 0] ok by auto
  ultimately show thesis
    using that [of "fst ?d"] DownloadModel_serves [OF assms, of 0 "\<lambda>k. None"] download_loop_contiguous [of 0 "\<lambda>k. None" 0 content]
    by simp
qed

text \<open>
  C39. A file that the client uploads is the file that is downloaded. Let nothing go wrong on the
  disks and on the connection. The client's \<open>uploadModel\<close> against the handler \<open>UploadModel\<close>
  succeeds exactly when the name it sends, which is the base name of the path unless another is
  given, ends in \<open>.onnx\<close>, and the file has at least two bytes and a first byte with a wire type of
  protobuf. After that the reported path holds the content, no other file has changed, and a
  model registered with the reported path is downloaded, without a gap, as the content of the
  local file. Otherwise the client reports a failed upload and no file has changed.
\<close>

theorem upload_round_trip:
  assumes "client_files localPath = Some content" and "files (temp_path modelDir uuid) = None" and "HasPrefix wd ''/''"
    and run: "uploadModel no_faults client_files (upload_service uuid wd modelDir) localPath filename files = ((res, msg), files')"
  shows "if uploadable (resolve_filename localPath filename) content
    then \<exists>r. res = Inr r \<and> ur_Success r \<and> files' = files(ur_FilePath r \<mapsto> content) \<and>
      (\<forall>s i m. i \<noteq> [] \<and> GetModelByID i s = Inr (Some m) \<and> m_FilePath m = ur_FilePath r \<longrightarrow>
        (\<exists>cs. DownloadModel (\<lambda>k. None) None files' (Some \<lparr>dl_ModelId = i, dl_ResumeByteOffset = 0\<rparr>) s = (cs, None) \<and>
          data_of cs = content \<and> contiguous 0 cs))
    else (\<exists>e. res = Inl (Wrap ''upload failed'' e)) \<and> files' = files"
proof -
  let ?name = "resolve_filename localPath filename"
  let ?path = "final_path wd modelDir (TrimSpace ?name)"
  obtain ms t ds where m: "stream_data (map Msg ms) = Some ds" "concat ds = content"
    "onnx_start ds = (content = [] \<or> 2 \<le> length content \<and> byte_of (hd content) mod 8 < 6)"
    "uploadModel no_faults client_files (upload_service uuid wd modelDir) localPath filename files =
      (case upload_service uuid wd modelDir (map Msg (metadata_message ?name content # ms)) files of
         (Inl e, s') \<Rightarrow> ((Inl (Wrap ''upload failed'' e), t @ [NL]), s')
       | (Inr resp, s') \<Rightarrow> ((Inr resp, t @ [NL]), s'))"
    by (rule uploadModel_runs [where files = client_files and call = "upload_service uuid wd modelDir", OF assms(1) refl])
  note acc = client_stream_acceptable [OF m(1-3)]
  show ?thesis
  proof (cases "uploadable ?name content")
    case True
    then have "acceptable (map Msg (metadata_message ?name content # ms)) (TrimSpace ?name) content" by (simp only: acc simp_thms)
    from UploadModel_accepts [where files = files, OF this assms(2), of wd] run m(4)
    obtain r where r: "res = Inr r" "ur_Success r" "ur_FilePath r = ?path" "files' = files(?path \<mapsto> content)"
      by (auto simp: upload_service_def received_def)
    have "serves s files' i content" if "i \<noteq> []" "GetModelByID i s = Inr (Some m)" "m_FilePath m = ?path" for s i m
      using that by (simp add: serves_def r(4) Clean_final_path [OF assms(3)])
    then have "\<exists>cs. DownloadModel (\<lambda>k. None) None files' (Some \<lparr>dl_ModelId = i, dl_ResumeByteOffset = 0\<rparr>) s = (cs, None) \<and>
          data_of cs = content \<and> contiguous 0 cs"
      if "i \<noteq> [] \<and> GetModelByID i s = Inr (Some m) \<and> m_FilePath m = ?path" for s i m
      using that DownloadModel_whole by metis
    then show ?thesis using True r by auto
  next
    case False
    then have no: "\<And>f c. \<not> acceptable (map Msg (metadata_message ?name content # ms)) f c" by (simp only: acc simp_thms)
    obtain st where "UploadModel up_ok uuid wd modelDir (map Msg (metadata_message ?name content # ms)) files = ((None, Some st), files)"
      using UploadModel_rejects [of _ files modelDir uuid wd, OF no assms(2)] .
    then show ?thesis using False run m(4) by (cases st) (auto simp: upload_service_def received_def split: prod.splits)
  qed
qed

theorem upload_round_trip_witness:
  "\<exists>r msg files'.
    uploadModel no_faults [''/a/iris.onnx'' \<mapsto> ''HIJ''] (upload_service ''u'' ''/'' ''/m'') ''/a/iris.onnx'' [] Map.empty = ((Inr r, msg), files') \<and>
    ur_Success r \<and> files' (ur_FilePath r) = Some ''HIJ''"
proof -
  obtain res msg files' where run: "uploadModel no_faults [''/a/iris.onnx'' \<mapsto> ''HIJ''] (upload_service ''u'' ''/'' ''/m'') ''/a/iris.onnx'' [] Map.empty
      = ((res, msg), files')" by (metis prod.collapse)
  have "uploadable (resolve_filename ''/a/iris.onnx'' []) ''HIJ''" by code_simp
  moreover have "[''/a/iris.onnx'' \<mapsto> ''HIJ''] ''/a/iris.onnx'' = Some ''HIJ''" by simp
  moreover have "HasPrefix ''/'' ''/''" by (simp add: HasPrefix_def)
  ultimately show ?thesis
    using run upload_round_trip [OF _ _ _ run] by auto
qed

end
