(* ===== verification/Client_Apply.thy ===== *)
theory Client_Apply
  imports Client_Commands Grpc_Model_Registry
begin

section \<open>Applying a manifest against the model registry\<close>

text \<open>
  The command \<open>apply\<close> of the client composed with the handler \<open>RegisterModel\<close> of the control
  plane. The state of the other side is the store and the number of identifiers drawn so far.
\<close>

definition valid_format :: "string \<Rightarrow> bool" where
  "valid_format f \<longleftrightarrow> f = [] \<or> json_scan f \<noteq> None"

subsection \<open>The loop over the models\<close>

definition spec_key :: "session \<Rightarrow> ModelManifest \<Rightarrow> ModelSpec \<Rightarrow> string \<times> string" where
  "spec_key g mf m = (spec_namespace g mf m, sp_Name m)"

definition spec_wf :: "ModelSpec \<Rightarrow> bool" where
  "spec_wf m \<longleftrightarrow> sp_Name m \<noteq> [] \<and> in_int64 (sp_ModelSize m) \<and> in_int32 (sp_Replicas m)"

text \<open>The names that the specifications with an acceptable input format ask for.\<close>

definition keys_of :: "session \<Rightarrow> ModelManifest \<Rightarrow> ModelSpec list \<Rightarrow> (string \<times> string) set" where
  "keys_of g mf ms = spec_key g mf ` {m \<in> set ms. valid_format (sp_InputFormat m)}"

lemma spec_request_fields [simp]:
  "pm_Name (spec_request g mf m) = sp_Name m" "pm_InputFormat (spec_request g mf m) = sp_InputFormat m"
  "pm_Namespace (spec_request g mf m) = spec_namespace g mf m"
  "wf_ProtoModelInfo (spec_request g mf m) \<longleftrightarrow> in_int64 (sp_ModelSize m) \<and> in_int32 (sp_Replicas m)"
  by (simp_all add: spec_request_def wf_ProtoModelInfo_def)

lemma keys_of_Cons:
  "keys_of g mf (m # ms) =
     (if valid_format (sp_InputFormat m) then insert (spec_key g mf m) (keys_of g mf ms) else keys_of g mf ms)"
  by (auto simp: keys_of_def)

lemma keys_of_Nil [simp]: "keys_of g mf [] = {}"
  by (simp add: keys_of_def)

lemma finite_keys_of [simp]: "finite (keys_of g mf ms)"
  by (simp add: keys_of_def)


text \<open>
  What the loop relies on: a service that registers names. \<open>taken\<close> are the names in use, \<open>ok\<close>
  its invariant and \<open>view\<close> what a refused call leaves as it is.
\<close>

locale registrar =
  fixes call :: "(ProtoModelInfo, bool, 's) rpc"
    and taken :: "'s \<Rightarrow> (string \<times> string) set"
    and ok :: "'s \<Rightarrow> bool"
    and view :: "'s \<Rightarrow> 'v"
  assumes taken_view: "view s' = view s \<Longrightarrow> taken s' = taken s"
    and call_ok: "ok s \<Longrightarrow> wf_ProtoModelInfo p \<Longrightarrow> pm_Name p \<noteq> [] \<Longrightarrow> ok (snd (call p s))"
    and call_refused: "ok s \<Longrightarrow> wf_ProtoModelInfo p \<Longrightarrow> pm_Name p \<noteq> [] \<Longrightarrow>
      (pm_Namespace p, pm_Name p) \<in> taken s \<or> \<not> valid_format (pm_InputFormat p) \<Longrightarrow>
      isl (fst (call p s)) \<and> view (snd (call p s)) = view s"
    and call_registers: "ok s \<Longrightarrow> wf_ProtoModelInfo p \<Longrightarrow> pm_Name p \<noteq> [] \<Longrightarrow>
      (pm_Namespace p, pm_Name p) \<notin> taken s \<Longrightarrow> valid_format (pm_InputFormat p) \<Longrightarrow>
      \<not> isl (fst (call p s)) \<and> taken (snd (call p s)) = insert (pm_Namespace p, pm_Name p) (taken s)"
begin

lemma apply_model_step [consumes 2, case_names registered refused]:
  assumes "ok s" "spec_wf m"
  obtains (registered) a' s' where "spec_key g mf m \<notin> taken s" "valid_format (sp_InputFormat m)"
      "apply_model g mf call m (a, s) = (a', s')" "ok s'"
      "ap_succeeded a' = Suc (ap_succeeded a)" "ap_failed a' = ap_failed a"
      "taken s' = insert (spec_key g mf m) (taken s)"
  | (refused) a' s' where "spec_key g mf m \<in> taken s \<or> \<not> valid_format (sp_InputFormat m)"
      "apply_model g mf call m (a, s) = (a', s')" "ok s'"
      "ap_succeeded a' = ap_succeeded a" "ap_failed a' = Suc (ap_failed a)" "view s' = view s"
proof -
  let ?p = "spec_request g mf m"
  obtain r s' where r: "call ?p s = (r, s')" by (metis prod.collapse)
  have wf: "wf_ProtoModelInfo ?p" "pm_Name ?p \<noteq> []" using assms(2) by (simp_all add: spec_wf_def)
  have ok: "ok s'" using call_ok [OF assms(1) wf] r by simp
  show thesis
  proof (cases "spec_key g mf m \<in> taken s \<or> \<not> valid_format (sp_InputFormat m)")
    case True
    then have "isl r" "view s' = view s" using call_refused [OF assms(1) wf] r by (simp_all add: spec_key_def)
    moreover from \<open>isl r\<close> r obtain a' where "apply_model g mf call m (a, s) = (a', s')"
      "ap_succeeded a' = ap_succeeded a" "ap_failed a' = Suc (ap_failed a)"
      by (cases r) (simp_all add: apply_model_def Let_def)
    ultimately show thesis using True ok by (intro refused [of a' s']) simp_all
  next
    case False
    then have "\<not> isl r" "taken s' = insert (spec_key g mf m) (taken s)"
      using call_registers [OF assms(1) wf] r by (simp_all add: spec_key_def)
    moreover from \<open>\<not> isl r\<close> r obtain a' where "apply_model g mf call m (a, s) = (a', s')"
      "ap_succeeded a' = Suc (ap_succeeded a)" "ap_failed a' = ap_failed a"
      by (cases r) (simp_all add: apply_model_def Let_def)
    ultimately show thesis using False ok by (intro registered [of a' s']) simp_all
  qed
qed

lemma apply_loop:
  assumes "ok st" "list_all spec_wf ms"
    and "fold (apply_model g mf call) ms (a, st) = (a', st')"
  shows "ok st' \<and> taken st' = taken st \<union> keys_of g mf ms \<and>
    ap_succeeded a' = ap_succeeded a + card (keys_of g mf ms - taken st) \<and>
    ap_succeeded a' + ap_failed a' = ap_succeeded a + ap_failed a + length ms"
  using assms
proof (induction ms arbitrary: a st)
  case (Cons m ms)
  from Cons.prems(2) have wf: "spec_wf m" "list_all spec_wf ms" by simp_all
  from Cons.prems(1) wf(1) show ?case
  proof (cases rule: apply_model_step [where g = g and mf = mf and a = a])
    case (registered a1 st1)
    have "keys_of g mf (m # ms) - taken st = insert (spec_key g mf m) (keys_of g mf ms - taken st1)"
      using registered(1,2,7) by (auto simp: keys_of_Cons)
    then have "card (keys_of g mf (m # ms) - taken st) = Suc (card (keys_of g mf ms - taken st1))"
      by (simp add: registered(7))
    moreover have "fold (apply_model g mf call) ms (a1, st1) = (a', st')"
      using Cons.prems(3) registered(3) by simp
    note Cons.IH [OF registered(4) wf(2) this]
    ultimately show ?thesis unfolding registered(5-7) by (simp add: keys_of_Cons registered(2))
  next
    case (refused a1 st1)
    have t: "taken st1 = taken st" using refused(6) by (rule taken_view)
    have "taken st \<union> keys_of g mf (m # ms) = taken st \<union> keys_of g mf ms"
      "keys_of g mf (m # ms) - taken st = keys_of g mf ms - taken st"
      using refused(1) by (auto simp: keys_of_Cons)
    moreover have "fold (apply_model g mf call) ms (a1, st1) = (a', st')"
      using Cons.prems(3) refused(2) by simp
    note Cons.IH [OF refused(3) wf(2) this]
    ultimately show ?thesis unfolding refused(4,5) t by simp
  qed
qed simp

lemma apply_loop_nothing_new:
  assumes "ok st" "list_all spec_wf ms" "keys_of g mf ms \<subseteq> taken st"
    and "fold (apply_model g mf call) ms (a, st) = (a', st')"
  shows "view st' = view st"
  using assms
proof (induction ms arbitrary: a st)
  case (Cons m ms)
  from Cons.prems(2) have wf: "spec_wf m" "list_all spec_wf ms" by simp_all
  from Cons.prems(1) wf(1) show ?case
  proof (cases rule: apply_model_step [where g = g and mf = mf and a = a])
    case registered
    then show ?thesis using Cons.prems(3) by (simp add: keys_of_Cons)
  next
    case (refused a1 st1)
    have "taken st1 = taken st" using refused(6) by (rule taken_view)
    with Cons.prems(3) have "keys_of g mf ms \<subseteq> taken st1" by (simp add: keys_of_Cons split: if_splits)
    from Cons.IH [OF refused(3) wf(2) this] Cons.prems(4) refused(2,6) show ?thesis by simp
  qed
qed simp

end


subsection \<open>The service of the control plane\<close>

definition register_service ::
    "(string list \<Rightarrow> string list) \<Rightarrow> (nat \<Rightarrow> string) \<Rightarrow> (ProtoModelInfo, bool, nat \<times> Store) rpc" where
  "register_service ord ids p st =
     (case st of (n, s) \<Rightarrow>
        (case srv_RegisterModel io_ok ord (ids n) (Some p) s of (r, s') \<Rightarrow> (received r, (Suc n, s'))))"

text \<open>The identifiers still to come are new ones.\<close>

definition fresh_ids :: "(nat \<Rightarrow> string) \<Rightarrow> nat \<times> Store \<Rightarrow> bool" where
  "fresh_ids ids st \<longleftrightarrow> inj ids \<and> (\<forall>k. ids k \<noteq> []) \<and> (\<forall>k \<ge> fst st. model_at (snd st) (ids k) = None)"

definition service_ok :: "(nat \<Rightarrow> string) \<Rightarrow> nat \<times> Store \<Rightarrow> bool" where
  "service_ok ids st \<longleftrightarrow> registry_inv (snd st) \<and> fresh_ids ids st"

definition taken :: "nat \<times> Store \<Rightarrow> string \<Rightarrow> string \<Rightarrow> bool" where
  "taken st ns n \<longleftrightarrow> (\<exists>m. named (snd st) ns n m)"

lemma register_service_step:
  assumes "service_ok ids st" "is_order ord" "wf_ProtoModelInfo p" "pm_Name p \<noteq> []"
  shows "service_ok ids (snd (register_service ord ids p st)) \<and>
    (if taken st (pm_Namespace p) (pm_Name p) \<or> \<not> valid_format (pm_InputFormat p)
     then isl (fst (register_service ord ids p st)) \<and> snd (snd (register_service ord ids p st)) = snd st
     else \<not> isl (fst (register_service ord ids p st)) \<and>
       (\<forall>ns n. taken (snd (register_service ord ids p st)) ns n \<longleftrightarrow>
          taken st ns n \<or> ns = pm_Namespace p \<and> n = pm_Name p))"
proof -
  obtain k s where st: "st = (k, s)" by (cases st)
  from assms(1) have inv: "registry_inv s" "inj ids" "ids k \<noteq> []" "\<forall>j \<ge> k. model_at s (ids j) = None"
    by (simp_all add: st service_ok_def fresh_ids_def)
  show ?thesis
  proof (cases "register_code s (Some p)")
    case None
    then have ok: "\<not> taken st (pm_Namespace p) (pm_Name p)" "valid_format (pm_InputFormat p)"
      by (auto simp: register_code_def taken_def st valid_format_def split: if_splits)
    obtain s' where s': "srv_RegisterModel io_ok ord (ids k) (Some p) s = (ok_reply True, s')" "registry_inv s'"
      "model_at s' = (model_at s)(ids k \<mapsto> norm_ModelInfo ((protoToStoreModelInfo p)\<lparr>m_ID := ids k\<rparr>))"
      by (rule srv_RegisterModel_accepts [OF inv(1) assms(2) inv(3) assms(3) None])
    then have r: "register_service ord ids p st = (Inr True, (Suc k, s'))"
      by (simp add: register_service_def st received_def)
    have "model_at s' (ids j) = None" if "Suc k \<le> j" for j
      using that inv(2,4) s'(3) by (auto dest: injD)
    with inv s'(2) assms(1) have "service_ok ids (Suc k, s')" by (simp add: service_ok_def fresh_ids_def st)
    moreover have "taken (Suc k, s') ns n \<longleftrightarrow> taken st ns n \<or> ns = pm_Namespace p \<and> n = pm_Name p" for ns n
    proof -
      have "\<not> named s ns n m" if "m_ID m = ids k" for m using that inv(4) by (auto simp: named_def)
      then have "named s' ns n m \<longleftrightarrow> named s ns n m \<or>
          m = norm_ModelInfo ((protoToStoreModelInfo p)\<lparr>m_ID := ids k\<rparr>) \<and> ns = pm_Namespace p \<and> n = pm_Name p" for m
        by (cases "m_ID m = ids k") (auto simp: named_def s'(3))
      then show ?thesis unfolding taken_def st by auto
    qed
    ultimately show ?thesis using ok r by simp
  next
    case (Some c)
    from srv_RegisterModel_rejects [OF inv(1) assms(2) inv(3) this]
    obtain e where "srv_RegisterModel io_ok ord (ids k) (Some p) s = (err_reply c e, s)" by blast
    then have r: "register_service ord ids p st = (Inl (StatusErr c e), (Suc k, s))"
      by (simp add: register_service_def st received_def)
    have "taken st (pm_Namespace p) (pm_Name p) \<or> \<not> valid_format (pm_InputFormat p)"
      using Some assms(4) by (auto simp: register_code_def taken_def st valid_format_def split: if_splits)
    moreover have "service_ok ids (Suc k, s)" using assms(1) by (simp add: service_ok_def fresh_ids_def st)
    ultimately show ?thesis unfolding r by (simp add: st)
  qed
qed



definition taken_keys :: "nat \<times> Store \<Rightarrow> (string \<times> string) set" where
  "taken_keys st = {(ns, n). taken st ns n}"

lemma taken_keys_iff [simp]: "(ns, n) \<in> taken_keys st \<longleftrightarrow> taken st ns n"
  by (simp add: taken_keys_def)

interpretation registration: registrar "register_service ord ids" taken_keys
    "\<lambda>st. is_order ord \<and> service_ok ids st" "snd :: nat \<times> Store \<Rightarrow> Store"
proof (unfold_locales, goal_cases)
  case (1 s' s)
  then show ?case by (simp add: taken_keys_def taken_def)
next
  case (2 s p)
  then show ?case using register_service_step by blast
next
  case (3 s p)
  then show ?case using register_service_step [of ids s ord p] by simp
next
  case (4 s p)
  then show ?case using register_service_step [of ids s ord p] by (auto simp: taken_keys_def)
qed



definition demo_spec :: ModelSpec where
  "demo_spec = \<lparr>sp_Name = ''mnist'', sp_Namespace = [], sp_Version = ''1'', sp_FilePath = ''/m.onnx'', sp_ModelType = ''cnn'',
     sp_ModelSize = 12, sp_Replicas = 2, sp_InputFormat = []\<rparr>"

text \<open>A manifest that names the same model twice.\<close>

definition demo_manifest :: ModelManifest where
  "demo_manifest = \<lparr>mf_APIVersion = ''edgernetes.ai/v1'', mf_Kind = ''ModelManifest'', mf_Namespace = ''edge'',
     mf_Models = [demo_spec, demo_spec]\<rparr>"

definition demo_session :: session where
  "demo_session = \<lparr>ss_lib = \<lparr>gl_FromError = (\<lambda>e. case e of StatusErr c m \<Rightarrow> Some (c, m) | _ \<Rightarrow> None),
       gl_StatusText = (\<lambda>c m. m), gl_CodeName = (\<lambda>c. ''Code'')\<rparr>,
     ss_dial = (\<lambda>e. None), ss_flags = \<lparr>flagEndpoint = [], flagNamespace = [], flagOutput = []\<rparr>, ss_cfg = DefaultConfig\<rparr>"

definition demo_ids :: "nat \<Rightarrow> string" where
  "demo_ids n = replicate (Suc n) (CHR ''u'')"

lemma demo_service_ok: "service_ok demo_ids (0, empty_store)"
proof -
  have "inj demo_ids" unfolding demo_ids_def by (intro injI) (metis length_replicate old.nat.inject)
  then show ?thesis by (simp add: service_ok_def fresh_ids_def empty_store_inv) (simp add: demo_ids_def)
qed

lemma demo_keys: "keys_of demo_session demo_manifest (mf_Models demo_manifest) = {spec_key demo_session demo_manifest demo_spec}"
proof -
  have "mf_Models demo_manifest = [demo_spec, demo_spec]" by (simp add: demo_manifest_def)
  moreover have "valid_format (sp_InputFormat demo_spec)" by (simp add: demo_spec_def valid_format_def)
  ultimately show ?thesis by (simp add: keys_of_Cons)
qed


end
