(* ===== verification/Client_Cli.thy ===== *)
theory Client_Cli
  imports Client_Commands
begin

section \<open>The command line of the client\<close>

text \<open>
  What the \<open>init\<close> functions of \<open>internal/client/cmd\<close> declare to cobra: the tree of commands, how many
  arguments each takes, and the flags with their types and defaults. Cobra parses the command
  line by these declarations. The commands fetch the values by name and ignore the error of a
  flag that is not declared or has another type, so that a mismatch would silently give an
  empty value; the lemmas show that there is none, that flags and sibling commands have distinct
  names, and that the commands form a tree.
\<close>

subsection \<open>Commands\<close>

datatype command =
    Root | Config_Group | Config_Set_Endpoint | Config_Set_Namespace | Config_Set_Output | Config_View
  | Model_Group | Model_Register | Model_Deregister | Model_Update | Model_Get | Model_List | Model_Status
  | Model_Nodes | Model_Upload
  | Node_Group | Node_Get | Node_List | Node_Endpoints
  | Deploy | Infer | Apply | Version

instantiation command :: enum
begin

definition enum_command :: "command list" where
  "enum_command = [Root, Config_Group, Config_Set_Endpoint, Config_Set_Namespace, Config_Set_Output, Config_View,
     Model_Group, Model_Register, Model_Deregister, Model_Update, Model_Get, Model_List, Model_Status, Model_Nodes,
     Model_Upload, Node_Group, Node_Get, Node_List, Node_Endpoints, Deploy, Infer, Apply, Version]"

definition enum_all_command :: "(command \<Rightarrow> bool) \<Rightarrow> bool" where
  "enum_all_command P \<longleftrightarrow> list_all P enum_class.enum"

definition enum_ex_command :: "(command \<Rightarrow> bool) \<Rightarrow> bool" where
  "enum_ex_command P \<longleftrightarrow> list_ex P enum_class.enum"

instance
proof
  have all: "c \<in> set enum_class.enum" for c :: command by (cases c) (simp_all add: enum_command_def)
  then show "UNIV = set (enum_class.enum :: command list)" by blast
  show "distinct (enum_class.enum :: command list)" by (simp add: enum_command_def)
  show "enum_class.enum_all P \<longleftrightarrow> Ball UNIV P" for P :: "command \<Rightarrow> bool"
    using all by (auto simp: enum_all_command_def list_all_iff)
  show "enum_class.enum_ex P \<longleftrightarrow> Bex UNIV P" for P :: "command \<Rightarrow> bool"
    using all by (auto simp: enum_ex_command_def list_ex_iff)
qed

end

text \<open>The field \<open>Use\<close>, whose first word is the name.\<close>

fun use_line :: "command \<Rightarrow> string" where
  "use_line Root = ''edgectl''"
| "use_line Config_Group = ''config''"
| "use_line Config_Set_Endpoint = ''set-endpoint [host:port]''"
| "use_line Config_Set_Namespace = ''set-namespace [namespace]''"
| "use_line Config_Set_Output = ''set-output [table|json|yaml]''"
| "use_line Config_View = ''view''"
| "use_line Model_Group = ''model''"
| "use_line Model_Register = ''register''"
| "use_line Model_Deregister = ''deregister [model-id]''"
| "use_line Model_Update = ''update [model-id]''"
| "use_line Model_Get = ''get [model-id]''"
| "use_line Model_List = ''list''"
| "use_line Model_Status = ''status [model-name]''"
| "use_line Model_Nodes = ''nodes [model-name]''"
| "use_line Model_Upload = ''upload [file-path]''"
| "use_line Node_Group = ''node''"
| "use_line Node_Get = ''get [node-id]''"
| "use_line Node_List = ''list''"
| "use_line Node_Endpoints = ''endpoints''"
| "use_line Deploy = ''deploy [model-id]''"
| "use_line Infer = ''infer''"
| "use_line Apply = ''apply''"
| "use_line Version = ''version''"

definition command_name :: "command \<Rightarrow> string" where
  "command_name c = takeWhile (\<lambda>x. x \<noteq> CHR '' '') (use_line c)"

text \<open>\<open>cobra.ExactArgs(1)\<close>; the other commands declare nothing.\<close>

definition exact_args :: "command \<Rightarrow> nat option" where
  "exact_args c =
     (if c \<in> {Config_Set_Endpoint, Config_Set_Namespace, Config_Set_Output, Model_Deregister, Model_Update, Model_Get,
              Model_Status, Model_Nodes, Model_Upload, Node_Get, Deploy}
      then Some 1 else None)"

text \<open>The calls of \<open>AddCommand\<close>, file by file.\<close>

definition root_commands :: "command list" where
  "root_commands = [Config_Group, Model_Group, Node_Group, Deploy, Infer, Apply, Version]"

definition config_commands :: "command list" where
  "config_commands = [Config_Set_Endpoint, Config_Set_Namespace, Config_Set_Output, Config_View]"

definition model_commands :: "command list" where
  "model_commands = [Model_Register, Model_Deregister, Model_Update, Model_Get, Model_List, Model_Status, Model_Nodes, Model_Upload]"

definition node_commands :: "command list" where
  "node_commands = [Node_Get, Node_List, Node_Endpoints]"

definition subcommands :: "command \<Rightarrow> command list" where
  "subcommands c =
     (case c of Root \<Rightarrow> root_commands | Config_Group \<Rightarrow> config_commands | Model_Group \<Rightarrow> model_commands | Node_Group \<Rightarrow> node_commands | _ \<Rightarrow> [])"


subsection \<open>Flags\<close>

datatype flag_value = VString string | VInt32 int | VInt64 int | VBool bool

datatype flag_type = FString | FInt32 | FInt64 | FBool

fun type_of_value :: "flag_value \<Rightarrow> flag_type" where
  "type_of_value (VString t) = FString"
| "type_of_value (VInt32 i) = FInt32"
| "type_of_value (VInt64 i) = FInt64"
| "type_of_value (VBool b) = FBool"

record flag =
  fl_name :: string
  fl_short :: string
  fl_default :: flag_value
  fl_required :: bool

definition plain_flag :: "string \<Rightarrow> flag_value \<Rightarrow> flag" where
  "plain_flag n v = \<lparr>fl_name = n, fl_short = [], fl_default = v, fl_required = False\<rparr>"

definition required_flag :: "string \<Rightarrow> flag_value \<Rightarrow> flag" where
  "required_flag n v = (plain_flag n v)\<lparr>fl_required := True\<rparr>"

definition short_flag :: "string \<Rightarrow> string \<Rightarrow> flag_value \<Rightarrow> flag" where
  "short_flag n c v = (plain_flag n v)\<lparr>fl_short := c\<rparr>"

definition root_flags :: "flag list" where
  "root_flags =
     [short_flag ''endpoint'' ''e'' (VString []), short_flag ''namespace'' ''n'' (VString []),
      short_flag ''output'' ''o'' (VString []), short_flag ''timeout'' ''t'' (VString []),
      short_flag ''verbose'' ''v'' (VBool False)]"

definition register_flags :: "flag list" where
  "register_flags =
     [required_flag ''name'' (VString []), plain_flag ''version'' (VString []), plain_flag ''file-path'' (VString []),
      plain_flag ''model-type'' (VString []), plain_flag ''model-size'' (VInt64 0), plain_flag ''replicas'' (VInt32 1),
      plain_flag ''input-format'' (VString [])]"

definition update_flags :: "flag list" where
  "update_flags =
     [plain_flag ''name'' (VString []), plain_flag ''version'' (VString []), plain_flag ''file-path'' (VString []),
      plain_flag ''model-type'' (VString []), plain_flag ''model-size'' (VInt64 0), plain_flag ''replicas'' (VInt32 0),
      plain_flag ''input-format'' (VString [])]"

definition upload_flags :: "flag list" where
  "upload_flags = [plain_flag ''filename'' (VString [])]"

definition deploy_command_flags :: "flag list" where
  "deploy_command_flags =
     [plain_flag ''instances'' (VInt32 1), plain_flag ''file-path'' (VString []), plain_flag ''name'' (VString []),
      plain_flag ''version'' (VString []), plain_flag ''model-type'' (VString []), plain_flag ''model-size'' (VInt64 0),
      plain_flag ''sha256'' (VString [])]"

definition infer_command_flags :: "flag list" where
  "infer_command_flags =
     [required_flag ''model-id'' (VString []), required_flag ''input'' (VString []), plain_flag ''target'' (VString []),
      plain_flag ''scaling'' (VBool False)]"

definition apply_flags :: "flag list" where
  "apply_flags = [(required_flag ''file'' (VString []))\<lparr>fl_short := ''f''\<rparr>, plain_flag ''dry-run'' (VBool False)]"

definition local_flags :: "command \<Rightarrow> flag list" where
  "local_flags c =
     (case c of Model_Register \<Rightarrow> register_flags | Model_Update \<Rightarrow> update_flags | Model_Upload \<Rightarrow> upload_flags
      | Deploy \<Rightarrow> deploy_command_flags | Infer \<Rightarrow> infer_command_flags | Apply \<Rightarrow> apply_flags | _ \<Rightarrow> [])"

text \<open>The flags of a command: its own and the persistent ones of the root.\<close>

definition command_flags :: "command \<Rightarrow> flag list" where
  "command_flags c = local_flags c @ root_flags"

text \<open>The flags that a command fetches, with the type it asks for.\<close>

definition model_reads :: "(string \<times> flag_type) list" where
  "model_reads = [(''name'', FString), (''version'', FString), (''file-path'', FString), (''model-type'', FString),
     (''model-size'', FInt64), (''replicas'', FInt32), (''input-format'', FString)]"

definition flag_reads :: "command \<Rightarrow> (string \<times> flag_type) list" where
  "flag_reads c =
     (case c of
        Model_Register \<Rightarrow> model_reads
      | Model_Update \<Rightarrow> model_reads
      | Model_Upload \<Rightarrow> [(''filename'', FString)]
      | Deploy \<Rightarrow> [(''instances'', FInt32), (''file-path'', FString), (''name'', FString), (''version'', FString),
          (''model-type'', FString), (''model-size'', FInt64), (''sha256'', FString)]
      | Infer \<Rightarrow> [(''model-id'', FString), (''input'', FString), (''target'', FString), (''scaling'', FBool)]
      | Apply \<Rightarrow> [(''file'', FString), (''dry-run'', FBool)]
      | _ \<Rightarrow> [])"


subsection \<open>The declarations fit the commands\<close>

definition reads_declared :: "command \<Rightarrow> bool" where
  "reads_declared c \<longleftrightarrow>
     list_all (\<lambda>(n, t). list_ex (\<lambda>f. fl_name f = n \<and> type_of_value (fl_default f) = t) (command_flags c)) (flag_reads c)"

definition flags_distinct :: "command \<Rightarrow> bool" where
  "flags_distinct c \<longleftrightarrow> distinct (map fl_name (command_flags c)) \<and>
     distinct (filter (\<lambda>x. x \<noteq> []) (map fl_short (command_flags c)))"

lemmas flag_defs = command_flags_def local_flags_def root_flags_def register_flags_def update_flags_def upload_flags_def
  deploy_command_flags_def infer_command_flags_def apply_flags_def plain_flag_def required_flag_def short_flag_def

lemmas tree_defs = subcommands_def root_commands_def config_commands_def model_commands_def node_commands_def

lemma every_read_is_declared: "reads_declared c"
  by (cases c) (simp_all add: reads_declared_def flag_reads_def model_reads_def flag_defs)

lemma every_flag_has_its_name: "flags_distinct c"
  by (cases c) (simp_all add: flags_distinct_def flag_defs)

lemma siblings_have_different_names: "distinct (map command_name (subcommands c))"
  by (cases c) (simp_all add: tree_defs command_name_def)

text \<open>Every command but the root is added to exactly one other, and the tree has two levels below the root.\<close>

definition parents :: "command \<Rightarrow> command list" where
  "parents c = filter (\<lambda>p. c \<in> set (subcommands p)) enum_class.enum"

lemma one_parent: "length (parents c) = (if c = Root then 0 else 1)"
  by (cases c) (simp_all add: parents_def enum_command_def tree_defs)

lemma two_levels: "c = Root \<or> c \<in> set (subcommands Root) \<or> (\<exists>p \<in> set (subcommands Root). c \<in> set (subcommands p))"
  by (cases c) (simp_all add: tree_defs)

end
