(* ===== verification/Spec2Isabelle.thy ===== *)
theory Spec2Isabelle
  imports Model_Durability Model_Transfer Overlapping_Calls Cluster Device_Detection Client_Upload Client_Apply Client_Cli
begin

text \<open>
  A verification library for Edgernetes-AI.

  The program has three executables. The \<^emph>\<open>control plane\<close> (\<open>cmd/control-plane\<close>,
  \<open>internal/control-plane\<close>) keeps a registry of models, nodes and replicas in a key-value store
  with a write-ahead log, serves it over gRPC, stores and hands out model files, and sends
  heartbeats to the nodes, with the table of the endpoints that serve each model. The \<^emph>\<open>agent\<close>
  (\<open>cmd/agent\<close>, \<open>internal/agent\<close>) runs on a node: it detects the hardware, registers itself,
  answers heartbeats, takes deployments, runs inference in pools of workers and forwards a
  request for a model it does not have to another agent, chosen by a weighted round robin. The
  \<^emph>\<open>client\<close> \<open>edgectl\<close> (\<open>cmd/client\<close>, \<open>internal/client\<close>) calls the services of the control plane.

  \<^bold>\<open>How the program is modelled.\<close> A function of the program is a HOL function of the same name.
  State is passed explicitly (the store, an agent, the worker pools, the disk as a map from
  paths to contents); an operation returns its result and the new state. Errors are values: a
  \<open>string + 'a\<close> result, an optional error, or the status of a call. Strings and byte slices are
  lists of bytes. Go's integers are \<open>int\<close> with the wrap-around of the 32-bit counters written
  out, SHA-256 is on 32-bit words, and floating point is exact IEEE arithmetic (\<open>Go_Float\<close>). What
  the program does not decide is a parameter: the order in which a Go map is iterated (any
  permutation, \<open>is_order\<close>), the clock, fresh identifiers, the outcome of every read, write and
  sync, the answers of the other processes and of the tools of the operating system, the ONNX
  runtime, the YAML and JSON encoders of the messages. Operations that hold a mutex are atomic
  steps; where operations of several goroutines interleave (the check and the write of a
  registration, the accesses of a node update and of a heartbeat round, the workers) the steps
  are separate.

  \<^bold>\<open>The base.\<close>
    \<^item> \<open>Prelude\<close>: time, 32-bit and 64-bit ranges, iteration orders, association lists, the
      collections of simplification rules.
    \<^item> \<open>Go_Strings\<close>, \<open>Go_Path\<close>, \<open>Go_Fmt\<close>, \<open>Go_Float\<close>, \<open>Go_Json\<close>, \<open>Go_Codec\<close>, \<open>Go_Sha256\<close>: what the
      program uses of the standard library, as executable functions: strings, lexical paths,
      tables and number syntax, double and single precision, the JSON text format with parser
      and printer, the encoding of Go values with its round trips, SHA-256.
    \<^item> \<open>Messages\<close>: the message types of \<open>internal/common/pb\<close> as records.

  \<^bold>\<open>The control plane.\<close>
    \<^item> \<open>Kv_Interface\<close>: the locale \<open>kv_store\<close> with the laws of a key-value store, its extension
      \<open>table\<close> for the rows of one type under a key prefix, and the facts on reading, writing and
      listing rows that follow from the laws.
    \<^item> \<open>Wal_Store\<close> (\<open>store/store.go\<close>): the store, byte by byte in its log; it interprets \<open>kv_store\<close>.
      The lemmas show that a restart recovers the map, what a crash and a failed sync leave
      behind, that values above the line limit of the scanner block the next start, and that a
      write refines the update of a map.
    \<^item> \<open>Wal_Durability\<close>: the store over several lifetimes (\<open>run_events\<close>), with writes that stop
      anywhere, failing syncs and restarts. The log is seen as chunks, whole or broken records;
      the lemmas lead the JSON parser through the text of a broken record and what follows it. They
      show which writes a restart brings back (the acknowledged ones among them) and exactly when
      a restart is possible. \<open>Model_Durability\<close> carries this to \<open>RegisterModel\<close>.
    \<^item> \<open>Store_Types\<close> (\<open>store/*_info.go\<close>, \<open>common/constants\<close>): the stored objects and their JSON
      form, each with its round trip.
    \<^item> \<open>Replica_Manager\<close>, \<open>Node_Registry\<close>, \<open>Model_Registry\<close> (\<open>scheduler/replica\<close>,
      \<open>controller/registry\<close>): the operations on the three tables, each an interpretation of \<open>table\<close>;
      the exact effect of registering and updating, unique names without overlap and the loss of
      uniqueness with it, the nodes that host a model.
    \<^item> \<open>Model_Status\<close> (\<open>controller/status\<close>), \<open>Heartbeat_Controller\<close> (\<open>controller/heartbeat\<close>,
      \<open>api/grpc/heartbeat\<close>): the status of a model, a heartbeat round, a sequence of rounds.
    \<^item> \<open>Grpc_Model_Registry\<close>, \<open>Grpc_Node_Registry\<close> (\<open>api/grpc/registry\<close>): the handlers with their
      status codes and the conversions.
    \<^item> \<open>Control_Plane\<close>: the discovery service and the transition system of all services and
      heartbeat rounds (\<open>cp_step\<close>, \<open>cp_reachable\<close>). The invariant \<open>cp_inv A\<close> says that the rows are
      in order and that every node status is in the set \<open>A\<close>, for every set that the round does not
      leave (\<open>closed_statuses\<close>); the set with only the empty status gives \<open>idle\<close>.
    \<^item> \<open>Overlapping_Calls\<close>: node updates and heartbeat rounds cut at their accesses to the store
      (\<open>call_step\<close>) and interleaved in any way (\<open>overlap\<close>). Left alone they are the handlers;
      interleaved they keep the registry well formed, and lose what was written in between.
    \<^item> \<open>Model_Transfer\<close> (\<open>api/grpc/registry/model_transfer.go\<close>, \<open>common/modelpath\<close>): download with
      resume and upload with its checks.

  \<^bold>\<open>The agent.\<close>
    \<^item> \<open>Balancer\<close> (\<open>balancer\<close>): the round robin, whose loop is a \<open>partial_function\<close>: it returns for
      weights up to \<open>2 ^ 53\<close>, follows a reference cycle for whole weights, and can run for ever
      beyond. The agent relies on it through the locale \<open>load_balancer\<close>, which it interprets.
    \<^item> \<open>Runway\<close> (\<open>runway\<close>): worker pools and their queues as a step relation \<open>runway_step\<close> with an
      invariant over all interleavings.
    \<^item> \<open>Agent\<close> (\<open>agent.go\<close>, \<open>forward.go\<close>, \<open>api/grpc\<close>, \<open>monitor\<close>): the state of an agent and its
      handlers, on top of balancer and workers; \<open>agent_step\<close> are its reachable states.
    \<^item> \<open>Agent_Registration\<close> (\<open>api/grpc/register.go\<close>, \<open>cmd/agent\<close>): registration against the services
      of \<open>Grpc_Node_Registry\<close>, start-up, the port.
    \<^item> \<open>Device_Detection\<close> (\<open>utils\<close>): the parsers of the output of the system's tools and of
      \<open>gpu_specs.json\<close>.
    \<^item> \<open>Agent_Network\<close>: several agents and the control plane. A call to a peer is the handler of the
      agent at that address (\<open>infer_call\<close>); the table of endpoints is the one \<open>buildServiceEndpoints\<close>
      computes, delivered by \<open>srv_RequestHeartbeat\<close>. Calls nest at most twice; what the table is
      after a heartbeat; requests reach the running replicas.
    \<^item> \<open>Services\<close> (\<open>cmd/control-plane\<close>, \<open>api/grpc/registry/registry.go\<close>, \<open>agent/api/grpc/grpc.go\<close>,
      \<open>client/client.go\<close>): the processes from their environment to their servers, which services
      they offer, the heartbeat interval, the timeout of the client (\<open>Go_Time\<close> has the durations).
    \<^item> \<open>Cluster\<close>: control plane, agents and client put together (\<open>cluster_step\<close>). A round calls the
      handlers of the agents (\<open>cluster_round\<close>), an agent starts with \<open>agent_main\<close> and registers over
      a link that may fail or lose the reply. What a round does on both sides; and that a cluster
      started from nothing never serves an inference request.

  \<^bold>\<open>The client.\<close>
    \<^item> \<open>Client\<close> (\<open>config.go\<close>, \<open>errors.go\<close>, \<open>formatter.go\<close>, \<open>yaml.go\<close>) and \<open>Client_Commands\<close> (\<open>cmd\<close>): the
      configuration, output, manifests and every command; a call is a parameter.
    \<^item> \<open>Client_Cli\<close> (\<open>cmd\<close>, the \<open>init\<close> functions): the tree of commands and their flags; every flag
      that a command fetches is declared with the type it asks for.
    \<^item> \<open>Client_Upload\<close> (\<open>cmd/upload.go\<close>) composes the upload with the handlers of \<open>Model_Transfer\<close>:
      a file that is uploaded and downloaded again is the same file.
    \<^item> \<open>Client_Apply\<close> composes \<open>apply\<close> with \<open>RegisterModel\<close>: the loop is proved in the locale
      \<open>registrar\<close>, which the service of the control plane interprets.

  \<^bold>\<open>Termination and bounds.\<close> All functions are total but two. \<open>pick_loop\<close> is a partial function,
  and \<open>pick_terminates\<close> and \<open>pick_can_hang\<close> say when it returns. Calls between agents
  have a bound on their nesting, and \<open>calls_nest_twice\<close> shows that two is enough. The JSON parser has fuel, the
  length of the text plus one; \<open>json_scan_text\<close> and the lemmas on \<open>jfuel\<close> show that this is enough
  for every text that the program writes. The call of an agent by the client is given two
  levels as well. The transition systems have runs of any length.

  \<^bold>\<open>What is not modelled.\<close> The generated gRPC stubs and the wire format (\<open>internal/common/pb\<close>
  beyond the message types): a call arrives as it was made, or fails, or has its effect and loses
  the reply. The package \<open>revivalClinic\<close>, which is empty. Listening, connecting, logging, and the
  parsing of the command line by cobra, of which the declarations are modelled. The passing of
  the client's deadline: it only shows as an error of a call. Running the system's tools: their
  output is a parameter. The agent changes its table of assigned models without a lock; the
  model runs one handler at a time, and makes no claim on the data race. Unicode case mapping
  and spaces beyond ASCII. The two signed zeros are one value. The escape byte 0xFF in tables.
\<close>

end
